theory Spec2Isabelle
  imports Main "HOL-Library.Word"
begin

unbundle bit_operations_syntax

section \<open>Data model of \<^verbatim>\<open>toxcore/Messenger.c\<close>\<close>

text \<open>
  The friend core of tux3's toxcore, embedded shallowly. Only \<^verbatim>\<open>Messenger.c\<close> is at
  hand; the header that declares its structs, enums and constants is not. The structs are
  rebuilt from the fields the code touches. A C array with its element count
  (\<^verbatim>\<open>friendlist\<close>/\<^verbatim>\<open>numfriends\<close>, \<^verbatim>\<open>dev_list\<close>/\<^verbatim>\<open>dev_count\<close>) is a list whose
  length is the count; the two arrays of \<^verbatim>\<open>MAX_CONCURRENT_FILE_PIPES\<close> file slots of a friend
  are functions of the slot index, which the code keeps below that bound. The receipt chain is kept as the code has it: nodes in a store of
  allocated \<^verbatim>\<open>struct Receipts\<close>, linked by \<^verbatim>\<open>next\<close>, with the friend's two pointers
  \<^verbatim>\<open>receipts_start\<close> and \<^verbatim>\<open>receipts_end\<close> into it (\<open>None\<close> is \<^verbatim>\<open>NULL\<close>).
  A function pointer that the code tests before calling is a flag (registered or not), and
  every call through it is recorded as an event; the callee is taken to return without
  touching the messenger.
\<close>

type_synonym u8 = "8 word"
type_synonym u16 = "16 word"
type_synonym u32 = "32 word"
type_synonym u64 = "64 word"

subsection \<open>Constants\<close>

text \<open>Modelled from the spec: the friend lifecycle
  \<open>None \<rightarrow> Added \<rightarrow> Requested \<rightarrow> Confirmed \<rightarrow> Online\<close>, in this order (the code
  compares with \<^verbatim>\<open>>= FRIEND_CONFIRMED\<close>); \<^verbatim>\<open>NOFRIEND\<close> is what \<^verbatim>\<open>memset\<close> to zero leaves
  and what \<^verbatim>\<open>friend_not_valid\<close> tests as \<^verbatim>\<open>status != 0\<close>.\<close>

definition NOFRIEND :: nat where "NOFRIEND = 0"
definition FRIEND_ADDED :: nat where "FRIEND_ADDED = 1"
definition FRIEND_REQUESTED :: nat where "FRIEND_REQUESTED = 2"
definition FRIEND_CONFIRMED :: nat where "FRIEND_CONFIRMED = 3"
definition FRIEND_ONLINE :: nat where "FRIEND_ONLINE = 4"

text \<open>Modelled from the spec: the device lifecycle \<open>None, Pending, Confirmed, Online\<close>.\<close>

definition NO_FDEV :: nat where "NO_FDEV = 0"
definition FDEV_PENDING :: nat where "FDEV_PENDING = 1"
definition FDEV_CONFIRMED :: nat where "FDEV_CONFIRMED = 2"
definition FDEV_ONLINE :: nat where "FDEV_ONLINE = 3"

text \<open>Modelled from the spec: \<open>last_connection_kind \<in> {None, Tcp, Udp, Unknown}\<close>; the
  zeroed friend slot holds \<^verbatim>\<open>CONNECTION_NONE\<close>.\<close>

datatype connection = CONNECTION_NONE | CONNECTION_TCP | CONNECTION_UDP | CONNECTION_UNKNOWN

text \<open>Modelled from the spec: the file transfer states \<open>None, NotAccepted, Transferring,
  Finished\<close>; the zeroed slot holds \<^verbatim>\<open>FILESTATUS_NONE\<close>.\<close>

datatype filestatus =
  FILESTATUS_NONE | FILESTATUS_NOT_ACCEPTED | FILESTATUS_TRANSFERRING | FILESTATUS_FINISHED

text \<open>Modelled from the spec: pause is a bit set over \<open>{PauseUs, PauseOther}\<close>, tested and
  changed by the code with \<^verbatim>\<open>&\<close>, \<^verbatim>\<open>|=\<close> and \<^verbatim>\<open>^=\<close>.\<close>

definition FILE_PAUSE_NOT :: u8 where "FILE_PAUSE_NOT = 0"
definition FILE_PAUSE_US :: u8 where "FILE_PAUSE_US = 1"
definition FILE_PAUSE_OTHER :: u8 where "FILE_PAUSE_OTHER = 2"

text \<open>Modelled from the spec: \<open>control \<in> {Accept=0, Pause=1, Kill=2, Seek=3}\<close>.\<close>

definition FILECONTROL_ACCEPT :: nat where "FILECONTROL_ACCEPT = 0"
definition FILECONTROL_PAUSE :: nat where "FILECONTROL_PAUSE = 1"
definition FILECONTROL_KILL :: nat where "FILECONTROL_KILL = 2"
definition FILECONTROL_SEEK :: nat where "FILECONTROL_SEEK = 3"

text \<open>Modelled from the spec: \<open>MAX_CONCURRENT_FILE_PIPES\<close> (spec value 32),
  \<open>MAX_FRIEND_REQUEST_DATA_SIZE = 1016\<close>, \<open>FRIEND_ADDRESS_SIZE = 38\<close>, a 32-byte public key,
  message \<open>type \<in> {Normal=0, Action=1}\<close>, \<open>FRIENDREQUEST_TIMEOUT\<close> (e.g. 5).\<close>

definition MAX_CONCURRENT_FILE_PIPES :: nat where "MAX_CONCURRENT_FILE_PIPES = 32"
definition MAX_FRIEND_REQUEST_DATA_SIZE :: nat where "MAX_FRIEND_REQUEST_DATA_SIZE = 1016"
definition FRIEND_ADDRESS_SIZE :: nat where "FRIEND_ADDRESS_SIZE = 38"
definition crypto_box_PUBLICKEYBYTES :: nat where "crypto_box_PUBLICKEYBYTES = 32"
definition MESSAGE_ACTION :: nat where "MESSAGE_ACTION = 1"
definition FRIENDREQUEST_TIMEOUT :: nat where "FRIENDREQUEST_TIMEOUT = 5"

text \<open>The \<^verbatim>\<open>FAERR_*\<close> codes of \<^verbatim>\<open>m_addfriend\<close>: negative integers whose values the
  header fixes; the code only returns them and tests \<^verbatim>\<open>ret < 0\<close>, so they are tags here.\<close>

datatype faerr =
  FAERR_TOOLONG | FAERR_NOMESSAGE | FAERR_OWNKEY | FAERR_ALREADYSENT
  | FAERR_BADCHECKSUM | FAERR_SETNEWNOSPAM | FAERR_NOMEM

subsection \<open>Structs\<close>

record F_Device =
  dev_status :: nat
  friendcon_id :: int
  real_pk :: "u8 list"

type_synonym addr = nat

record Receipts =
  packet_num :: u32
  msg_id :: u32
  next_receipt :: "addr option"

record File_Transfers =
  size_ft :: u64
  transferred :: u64
  requested :: u64
  ft_status :: filestatus
  paused :: u8
  slots_allocated :: u32
  last_packet_number :: u32
  file_id :: "u8 list"

record Friend =
  dev_list :: "F_Device list"
  status :: nat
  friendrequest_nospam :: u32
  friendrequest_timeout :: nat
  friendrequest_lastsent :: nat
  info :: "u8 list"
  statusmessage_length :: nat
  userstatus :: nat
  is_typing :: nat
  message_id :: u32
  receipts_start :: "addr option"
  receipts_end :: "addr option"
  file_sending :: "nat \<Rightarrow> File_Transfers"
  file_receiving :: "nat \<Rightarrow> File_Transfers"
  num_sending_files :: u32
  last_connection_udp_tcp :: connection

record Messenger =
  friendlist :: "Friend list"
  receipts_heap :: "addr \<rightharpoonup> Receipts"
  read_receipt :: bool
  file_reqchunk :: bool
  friend_connectionstatuschange :: bool
  friend_connectionstatuschange_internal :: bool

text \<open>
  What lies outside \<^verbatim>\<open>Messenger.c\<close>: the transport (\<^verbatim>\<open>net_crypto\<close>), the friend
  connections (\<^verbatim>\<open>fr_c\<close>) and the allocator. Each field is the answer the collaborator
  gives during one call of the core; a connection is named by its \<^verbatim>\<open>friendcon_id\<close>
  (the code always goes through \<^verbatim>\<open>toxconn_crypt_connection_id\<close> of it).
  \<^verbatim>\<open>write_cryptpacket\<close> answers the packet number or \<open>-1\<close>; \<^verbatim>\<open>cryptpacket_received\<close>
  answers \<open>0\<close> for a packet the peer has received and \<open>-1\<close> otherwise; \<^verbatim>\<open>calloc\<close>
  answers the address of the new node or \<^verbatim>\<open>NULL\<close>. The two header
  constants \<^verbatim>\<open>MAX_CRYPTO_DATA_SIZE\<close> and \<^verbatim>\<open>CRYPTO_MIN_QUEUE_LENGTH\<close>, whose values neither
  the code nor the spec gives, are parameters here too.
\<close>

record Env =
  MAX_CRYPTO_DATA_SIZE :: nat
  CRYPTO_MIN_QUEUE_LENGTH :: nat
  self_public_key :: "u8 list"
  public_key_valid :: "u8 list \<Rightarrow> bool"
  new_tox_conn :: "u8 list \<Rightarrow> int"
  toxconn_is_connected :: "int \<Rightarrow> bool"
  write_cryptpacket :: "int \<Rightarrow> int"
  cryptpacket_received :: "int \<Rightarrow> u32 \<Rightarrow> int"
  crypto_num_free_sendqueue_slots :: "int \<Rightarrow> nat"
  max_speed_reached :: "int \<Rightarrow> bool"
  crypto_connection_status :: "int \<Rightarrow> bool \<times> nat"
  realloc_friendlist_ok :: bool
  realloc_dev_list_ok :: bool
  calloc :: "addr option"

text \<open>The calls the core makes upward through a registered callback, and the file data
  packets it hands to the transport (friend, file slot, data length), in the order they
  happen. The other packets the core writes (presence, control, messages) change nothing in
  the messenger but through the transport's answer, and are not recorded.\<close>

datatype event =
  Read_receipt nat u32
  | File_reqchunk nat nat u64 nat
  | Friend_connectionstatuschange nat connection
  | Friend_connectionstatuschange_internal nat nat
  | File_data_packet nat nat nat

text \<open>A file slot and a friend slot as \<^verbatim>\<open>memset\<close> to zero leaves them.\<close>

definition zero_File_Transfers :: File_Transfers where
  "zero_File_Transfers =
     \<lparr>size_ft = 0, transferred = 0, requested = 0, ft_status = FILESTATUS_NONE, paused = 0,
      slots_allocated = 0, last_packet_number = 0, file_id = []\<rparr>"

definition zero_Friend :: Friend where
  "zero_Friend =
     \<lparr>dev_list = [], status = 0, friendrequest_nospam = 0, friendrequest_timeout = 0,
      friendrequest_lastsent = 0, info = [], statusmessage_length = 0, userstatus = 0,
      is_typing = 0, message_id = 0, receipts_start = None, receipts_end = None,
      file_sending = (\<lambda>i. zero_File_Transfers),
      file_receiving = (\<lambda>i. zero_File_Transfers),
      num_sending_files = 0, last_connection_udp_tcp = CONNECTION_NONE\<rparr>"

subsection \<open>Validity of a friend number\<close>

text \<open>\<^verbatim>\<open>friend_not_valid\<close>: the number is cast to unsigned and compared with
  \<^verbatim>\<open>numfriends\<close>, so a negative \<^verbatim>\<open>int32_t\<close> is out of range like any too large one; friend
  numbers are naturals here.\<close>

definition friend_not_valid :: "Messenger \<Rightarrow> nat \<Rightarrow> bool" where
  "friend_not_valid m friendnumber =
     (if friendnumber < length (friendlist m)
      then (if status (friendlist m ! friendnumber) \<noteq> 0 then False else True)
      else True)"

definition m_friend_exists :: "Messenger \<Rightarrow> nat \<Rightarrow> bool" where
  "m_friend_exists m friendnumber = (if friend_not_valid m friendnumber then False else True)"

section \<open>Connection kind reporting\<close>

text \<open>\<^verbatim>\<open>m_get_friend_connectionstatus\<close>: \<open>None\<close> is the return value \<open>-1\<close>.\<close>

definition m_get_friend_connectionstatus :: "Env \<Rightarrow> Messenger \<Rightarrow> nat \<Rightarrow> connection option" where
  "m_get_friend_connectionstatus env m friendnumber =
     (if friend_not_valid m friendnumber then None
      else if status (friendlist m ! friendnumber) = FRIEND_ONLINE
      then (case crypto_connection_status env
                   (friendcon_id (dev_list (friendlist m ! friendnumber) ! 0)) of
              (direct_connected, num_online_relays) \<Rightarrow>
                if direct_connected then Some CONNECTION_UDP
                else if num_online_relays \<noteq> 0 then Some CONNECTION_TCP
                else Some CONNECTION_UNKNOWN)
      else Some CONNECTION_NONE)"

text \<open>\<^verbatim>\<open>check_friend_tcp_udp\<close>: returns the messenger and the callback calls made.\<close>

definition check_friend_tcp_udp :: "Env \<Rightarrow> Messenger \<Rightarrow> nat \<Rightarrow> Messenger \<times> event list" where
  "check_friend_tcp_udp env m friendnumber =
     (let last_connection = last_connection_udp_tcp (friendlist m ! friendnumber) in
      case m_get_friend_connectionstatus env m friendnumber of
        None \<Rightarrow> (m, [])
      | Some ret0 \<Rightarrow>
          if ret0 = CONNECTION_UNKNOWN \<and> last_connection = CONNECTION_UDP then (m, [])
          else
            (let ret = (if ret0 = CONNECTION_UNKNOWN then CONNECTION_TCP else ret0) in
             (m\<lparr>friendlist := (friendlist m)
                   [friendnumber := (friendlist m ! friendnumber)\<lparr>last_connection_udp_tcp := ret\<rparr>]\<rparr>,
              if last_connection \<noteq> ret \<and> friend_connectionstatuschange m
              then [Friend_connectionstatuschange friendnumber ret] else [])))"

section \<open>Receipts\<close>

text \<open>\<^verbatim>\<open>add_receipt\<close>. The new node comes zeroed from \<^verbatim>\<open>calloc\<close>; the code links it behind
  the node \<^verbatim>\<open>receipts_end\<close> points to when the chain is not empty. A write through a pointer
  that names no allocated node is undefined in C; \<open>set_next\<close> leaves the store as it is
  there.\<close>

definition set_next :: "(addr \<rightharpoonup> Receipts) \<Rightarrow> addr option \<Rightarrow> addr option \<Rightarrow> (addr \<rightharpoonup> Receipts)" where
  "set_next h p q =
     (case p of None \<Rightarrow> h
      | Some a \<Rightarrow> (case h a of None \<Rightarrow> h | Some r \<Rightarrow> h(a \<mapsto> r\<lparr>next_receipt := q\<rparr>)))"

definition add_receipt :: "Env \<Rightarrow> Messenger \<Rightarrow> nat \<Rightarrow> u32 \<Rightarrow> u32 \<Rightarrow> int \<times> Messenger" where
  "add_receipt env m friendnumber packet_num' msg_id' =
     (if friend_not_valid m friendnumber then (- 1, m)
      else case calloc env of
        None \<Rightarrow> (- 1, m)
      | Some new \<Rightarrow>
          (let f = friendlist m ! friendnumber;
               h0 = (receipts_heap m)
                      (new \<mapsto> \<lparr>packet_num = packet_num', msg_id = msg_id', next_receipt = None\<rparr>);
               h1 = (if receipts_start f = None then h0 else set_next h0 (receipts_end f) (Some new));
               f1 = (if receipts_start f = None then f\<lparr>receipts_start := Some new\<rparr> else f);
               h2 = set_next h1 (Some new) None
           in (0, m\<lparr>friendlist := (friendlist m)[friendnumber := f1\<lparr>receipts_end := Some new\<rparr>],
                     receipts_heap := h2\<rparr>)))"

definition friend_received_packet :: "Env \<Rightarrow> Messenger \<Rightarrow> nat \<Rightarrow> u32 \<Rightarrow> int" where
  "friend_received_packet env m friendnumber number =
     (if friend_not_valid m friendnumber then - 1
      else cryptpacket_received env
             (friendcon_id (dev_list (friendlist m ! friendnumber) ! 0)) number)"

text \<open>The function registered with \<^verbatim>\<open>m_callback_read_receipt\<close> belongs to the application
  and runs in the middle of \<^verbatim>\<open>do_receipts\<close>, on the messenger as it is at that moment; it
  may call back into the core (the application may answer a receipt with a new message).
  It is a parameter \<open>cb\<close> of the model: \<open>cb friendnumber msg_id m\<close> is the messenger as the
  call leaves it, with the calls and packets the call caused. The field \<^verbatim>\<open>read_receipt\<close> of
  the messenger says whether a function is registered.\<close>

type_synonym read_receipt_cb = "nat \<Rightarrow> u32 \<Rightarrow> Messenger \<Rightarrow> Messenger \<times> event list"

text \<open>The \<^verbatim>\<open>while (receipts)\<close> loop of \<^verbatim>\<open>do_receipts\<close>. It follows \<^verbatim>\<open>next\<close> pointers and
  ends only at \<^verbatim>\<open>NULL\<close> or at an unreceived packet, so it is a partial function: \<open>None\<close>
  stands for a run that does not return (a cyclic chain) or that reads a node that is not
  allocated. As in the code, \<^verbatim>\<open>temp_r\<close> and \<^verbatim>\<open>msg_id\<close> are read off the node before the
  callback runs; the node is freed and \<^verbatim>\<open>receipts_start\<close> is written after it, in the
  messenger the callback left. (Freeing a node the callback has freed already, or writing
  to a friend slot the callback has cut off the table, is undefined in C; the store and
  the table stay as they are there.)\<close>

partial_function (option) do_receipts_loop ::
  "Env \<Rightarrow> read_receipt_cb \<Rightarrow> Messenger \<Rightarrow> nat \<Rightarrow> addr option \<Rightarrow> event list
     \<Rightarrow> (Messenger \<times> event list) option" where
  "do_receipts_loop env cb m friendnumber receipts evs =
     (case receipts of
        None \<Rightarrow> Some (m, evs)
      | Some r \<Rightarrow>
          (case receipts_heap m r of
             None \<Rightarrow> None
           | Some node \<Rightarrow>
               (let temp_r = next_receipt node in
                if friend_received_packet env m friendnumber (packet_num node) = - 1
                then Some (m, evs)
                else
                  (let called = (if read_receipt m
                                 then (fst (cb friendnumber (msg_id node) m),
                                       Read_receipt friendnumber (msg_id node)
                                         # snd (cb friendnumber (msg_id node) m))
                                 else (m, []));
                       m1 = fst called
                   in do_receipts_loop env cb
                        (m1\<lparr>receipts_heap := (receipts_heap m1)(r := None),
                            friendlist := (friendlist m1)
                              [friendnumber :=
                                 (friendlist m1 ! friendnumber)\<lparr>receipts_start := temp_r\<rparr>]\<rparr>)
                        friendnumber temp_r (evs @ snd called)))))"

declare do_receipts_loop.simps [code]

definition do_receipts ::
  "Env \<Rightarrow> read_receipt_cb \<Rightarrow> Messenger \<Rightarrow> nat \<Rightarrow> (int \<times> Messenger \<times> event list) option" where
  "do_receipts env cb m friendnumber =
     (if friend_not_valid m friendnumber then Some (- 1, m, [])
      else case do_receipts_loop env cb m friendnumber
                  (receipts_start (friendlist m ! friendnumber)) [] of
        None \<Rightarrow> None
      | Some (m1, evs) \<Rightarrow>
          Some (0,
                if receipts_start (friendlist m1 ! friendnumber) = None
                then m1\<lparr>friendlist := (friendlist m1)
                         [friendnumber := (friendlist m1 ! friendnumber)\<lparr>receipts_end := None\<rparr>]\<rparr>
                else m1,
                evs))"

text \<open>The loop of \<^verbatim>\<open>clear_receipts\<close>, which frees every node of the chain.\<close>

partial_function (option) clear_receipts_loop ::
  "(addr \<rightharpoonup> Receipts) \<Rightarrow> addr option \<Rightarrow> (addr \<rightharpoonup> Receipts) option" where
  "clear_receipts_loop h receipts =
     (case receipts of
        None \<Rightarrow> Some h
      | Some r \<Rightarrow>
          (case h r of
             None \<Rightarrow> None
           | Some node \<Rightarrow> clear_receipts_loop (h(r := None)) (next_receipt node)))"

declare clear_receipts_loop.simps [code]

definition clear_receipts :: "Messenger \<Rightarrow> nat \<Rightarrow> (int \<times> Messenger) option" where
  "clear_receipts m friendnumber =
     (if friend_not_valid m friendnumber then Some (- 1, m)
      else case clear_receipts_loop (receipts_heap m)
                  (receipts_start (friendlist m ! friendnumber)) of
        None \<Rightarrow> None
      | Some h \<Rightarrow>
          Some (0, m\<lparr>receipts_heap := h,
                     friendlist := (friendlist m)
                       [friendnumber := (friendlist m ! friendnumber)
                          \<lparr>receipts_start := None, receipts_end := None\<rparr>]\<rparr>))"

text \<open>The receipt queue a friend's two pointers stand for: \<open>chain h p as\<close> says that the
  \<^verbatim>\<open>next\<close> pointers lead from \<open>p\<close> through exactly the allocated nodes \<open>as\<close> to \<^verbatim>\<open>NULL\<close>;
  \<open>receipt_queue\<close> adds that no node repeats and that \<^verbatim>\<open>receipts_end\<close> is the last node
  of a chain that is not empty. \<open>queue_content\<close> reads the pairs
  \<open>(packet_num, msg_id)\<close> off the chain.\<close>

fun chain :: "(addr \<rightharpoonup> Receipts) \<Rightarrow> addr option \<Rightarrow> addr list \<Rightarrow> bool" where
  "chain h p [] = (p = None)"
| "chain h p (a # as) =
     (p = Some a \<and> (case h a of None \<Rightarrow> False | Some r \<Rightarrow> chain h (next_receipt r) as))"

definition receipt_queue :: "Messenger \<Rightarrow> nat \<Rightarrow> addr list \<Rightarrow> bool" where
  "receipt_queue m friendnumber as =
     (chain (receipts_heap m) (receipts_start (friendlist m ! friendnumber)) as
      \<and> distinct as
      \<and> (as = [] \<or> receipts_end (friendlist m ! friendnumber) = Some (last as)))"

definition queue_content :: "Messenger \<Rightarrow> addr list \<Rightarrow> (u32 \<times> u32) list" where
  "queue_content m as =
     map (\<lambda>a. case receipts_heap m a of
                 None \<Rightarrow> (0, 0)
               | Some r \<Rightarrow> (packet_num r, msg_id r)) as"

text \<open>What the drain of \<^verbatim>\<open>do_receipts\<close> is measured against. An entry is acknowledged
  when \<^verbatim>\<open>friend_received_packet\<close> does not answer \<open>-1\<close> for its packet number (the test on
  which the loop breaks); \<open>received\<close> is the same test on a node of the store. \<open>drained\<close>
  is the messenger with the leading received nodes freed and \<^verbatim>\<open>receipts_start\<close> moved to
  the first node that is left; \<open>receipt_events\<close> are the \<^verbatim>\<open>read_receipt\<close> calls for a list of
  nodes.\<close>

definition received :: "Env \<Rightarrow> Messenger \<Rightarrow> nat \<Rightarrow> addr \<Rightarrow> bool" where
  "received env m friendnumber a =
     (case receipts_heap m a of
        None \<Rightarrow> False
      | Some r \<Rightarrow> friend_received_packet env m friendnumber (packet_num r) \<noteq> - 1)"

definition drained :: "Env \<Rightarrow> Messenger \<Rightarrow> nat \<Rightarrow> addr list \<Rightarrow> Messenger" where
  "drained env m friendnumber as =
     m\<lparr>receipts_heap := receipts_heap m |` (- set (takeWhile (received env m friendnumber) as)),
       friendlist := (friendlist m)
         [friendnumber := (friendlist m ! friendnumber)
            \<lparr>receipts_start :=
               (case dropWhile (received env m friendnumber) as of [] \<Rightarrow> None | a # _ \<Rightarrow> Some a)\<rparr>]\<rparr>"

definition receipt_events :: "Messenger \<Rightarrow> nat \<Rightarrow> addr list \<Rightarrow> event list" where
  "receipt_events m friendnumber as =
     (if read_receipt m then map (\<lambda>p. Read_receipt friendnumber (snd p)) (queue_content m as) else [])"

definition acked :: "Env \<Rightarrow> Messenger \<Rightarrow> nat \<Rightarrow> u32 \<times> u32 \<Rightarrow> bool" where
  "acked env m friendnumber entry = (friend_received_packet env m friendnumber (fst entry) \<noteq> - 1)"

section \<open>Sending messages\<close>

text \<open>The loop of \<^verbatim>\<open>m_send_message_generic\<close> over the friend's devices: the packet is
  written to every Online device, and \<^verbatim>\<open>packet_num\<close> ends as the answer of the last write
  that did not fail (or \<open>-1\<close>).\<close>

fun send_to_devices :: "Env \<Rightarrow> F_Device list \<Rightarrow> int \<Rightarrow> int" where
  "send_to_devices env [] packet_num' = packet_num'"
| "send_to_devices env (dev # devs) packet_num' =
     (if dev_status dev = FDEV_ONLINE
      then (let this_packet_num = write_cryptpacket env (friendcon_id dev) in
            if this_packet_num = - 1 \<and> packet_num' \<noteq> - 1
            then send_to_devices env devs packet_num'
            else send_to_devices env devs this_packet_num)
      else send_to_devices env devs packet_num')"

text \<open>\<^verbatim>\<open>m_send_message_generic\<close>: the return value, what is stored through the
  \<^verbatim>\<open>message_id\<close> pointer (if anything), and the messenger. The counter is a \<^verbatim>\<open>uint32_t\<close>
  and \<^verbatim>\<open>++\<close> wraps; \<^verbatim>\<open>packet_num\<close> is an \<^verbatim>\<open>int64_t\<close> cut to \<^verbatim>\<open>uint32_t\<close> by the call of
  \<^verbatim>\<open>add_receipt\<close>, whose result the code ignores.\<close>

definition m_send_message_generic ::
  "Env \<Rightarrow> Messenger \<Rightarrow> nat \<Rightarrow> nat \<Rightarrow> u8 list \<Rightarrow> int \<times> u32 option \<times> Messenger" where
  "m_send_message_generic env m friendnumber type message =
     (if type > MESSAGE_ACTION then (- 5, None, m)
      else if friend_not_valid m friendnumber then (- 1, None, m)
      else if length message \<ge> MAX_CRYPTO_DATA_SIZE env then (- 2, None, m)
      else if status (friendlist m ! friendnumber) \<noteq> FRIEND_ONLINE then (- 3, None, m)
      else
        (let packet_num' = send_to_devices env (dev_list (friendlist m ! friendnumber)) (- 1) in
         if packet_num' = - 1 then (- 4, None, m)
         else
           (let msg_id' = message_id (friendlist m ! friendnumber) + 1;
                m1 = m\<lparr>friendlist := (friendlist m)
                        [friendnumber := (friendlist m ! friendnumber)\<lparr>message_id := msg_id'\<rparr>]\<rparr>
            in (0, Some msg_id',
                snd (add_receipt env m1 friendnumber (word_of_int packet_num') msg_id')))))"

text \<open>A run of \<^verbatim>\<open>m_send_message_generic\<close> calls to one friend, each against the transport as
  it answers at that moment: the message ids handed out by the calls that succeed, in
  order, and the messenger at the end.\<close>

fun send_messages :: "Messenger \<Rightarrow> nat \<Rightarrow> (Env \<times> nat \<times> u8 list) list \<Rightarrow> u32 list \<times> Messenger" where
  "send_messages m friendnumber [] = ([], m)"
| "send_messages m friendnumber ((env, type, message) # calls) =
     (case m_send_message_generic env m friendnumber type message of
        (ret, out, m1) \<Rightarrow>
          (case send_messages m1 friendnumber calls of
             (ids, m2) \<Rightarrow> ((case out of None \<Rightarrow> ids | Some i \<Rightarrow> i # ids), m2)))"

section \<open>File transfers\<close>

definition MAX_FILE_DATA_SIZE :: "Env \<Rightarrow> nat" where
  "MAX_FILE_DATA_SIZE env = MAX_CRYPTO_DATA_SIZE env - 2"

definition MIN_SLOTS_FREE :: "Env \<Rightarrow> nat" where
  "MIN_SLOTS_FREE env = CRYPTO_MIN_QUEUE_LENGTH env div 4"

text \<open>\<^verbatim>\<open>write_cryptpacket_id\<close> with a payload of \<open>length\<close> bytes: 1 when the packet was
  written, else 0.\<close>

definition write_cryptpacket_id :: "Env \<Rightarrow> Messenger \<Rightarrow> nat \<Rightarrow> nat \<Rightarrow> int" where
  "write_cryptpacket_id env m friendnumber len =
     (if friend_not_valid m friendnumber then 0
      else if len \<ge> MAX_CRYPTO_DATA_SIZE env
              \<or> status (friendlist m ! friendnumber) \<noteq> FRIEND_ONLINE then 0
      else if write_cryptpacket env (friendcon_id (dev_list (friendlist m ! friendnumber) ! 0)) \<noteq> - 1
      then 1 else 0)"

definition send_file_control_packet :: "Env \<Rightarrow> Messenger \<Rightarrow> nat \<Rightarrow> nat \<Rightarrow> int" where
  "send_file_control_packet env m friendnumber data_length =
     (if 1 + 3 + data_length > MAX_CRYPTO_DATA_SIZE env then - 1
      else write_cryptpacket_id env m friendnumber (3 + data_length))"

text \<open>The file slot a pointer \<^verbatim>\<open>ft\<close> of the code names, and the write through it.\<close>

definition get_ft :: "Messenger \<Rightarrow> nat \<Rightarrow> nat \<Rightarrow> nat \<Rightarrow> File_Transfers" where
  "get_ft m friendnumber send_receive file_number =
     (if send_receive \<noteq> 0 then file_receiving (friendlist m ! friendnumber) file_number
      else file_sending (friendlist m ! friendnumber) file_number)"

definition set_ft :: "Messenger \<Rightarrow> nat \<Rightarrow> nat \<Rightarrow> nat \<Rightarrow> File_Transfers \<Rightarrow> Messenger" where
  "set_ft m friendnumber send_receive file_number ft =
     m\<lparr>friendlist := (friendlist m)
         [friendnumber :=
            (if send_receive \<noteq> 0
             then (friendlist m ! friendnumber)
                    \<lparr>file_receiving :=
                       (file_receiving (friendlist m ! friendnumber))(file_number := ft)\<rparr>
             else (friendlist m ! friendnumber)
                    \<lparr>file_sending :=
                       (file_sending (friendlist m ! friendnumber))(file_number := ft)\<rparr>)]\<rparr>"

text \<open>The block \<open>if (control == FILECONTROL_ACCEPT) { \<dots> }\<close> of \<^verbatim>\<open>file_control\<close>: the value
  it returns, or 0 when control falls through it.\<close>

definition accept_refused :: "File_Transfers \<Rightarrow> nat \<Rightarrow> nat \<Rightarrow> int" where
  "accept_refused ft send_receive control =
     (if control = FILECONTROL_ACCEPT
      then (if ft_status ft = FILESTATUS_TRANSFERRING
            then (if \<not> (paused ft AND FILE_PAUSE_US \<noteq> 0)
                  then (if paused ft AND FILE_PAUSE_OTHER \<noteq> 0 then - 6 else - 7)
                  else 0)
            else (if ft_status ft \<noteq> FILESTATUS_NOT_ACCEPTED then - 7
                  else if send_receive = 0 then - 6
                  else 0))
      else 0)"

text \<open>\<^verbatim>\<open>file_control\<close>. A \<^verbatim>\<open>filenumber\<close> of \<open>2^16\<close> or more names the receiving slot
  \<open>(filenumber >> 16) - 1\<close>.\<close>

definition file_control :: "Env \<Rightarrow> Messenger \<Rightarrow> nat \<Rightarrow> nat \<Rightarrow> nat \<Rightarrow> int \<times> Messenger" where
  "file_control env m friendnumber filenumber control =
     (if friend_not_valid m friendnumber then (- 1, m)
      else if status (friendlist m ! friendnumber) \<noteq> FRIEND_ONLINE then (- 2, m)
      else
        (let send_receive = (if filenumber \<ge> 2 ^ 16 then 1 else 0 :: nat);
             temp_filenum = (if filenumber \<ge> 2 ^ 16 then filenumber div 2 ^ 16 - 1 else filenumber)
         in if temp_filenum \<ge> MAX_CONCURRENT_FILE_PIPES then (- 3, m)
            else
              (let file_number = temp_filenum;
                   ft = get_ft m friendnumber send_receive file_number
               in if ft_status ft = FILESTATUS_NONE then (- 3, m)
                  else if control > FILECONTROL_KILL then (- 4, m)
                  else if control = FILECONTROL_PAUSE
                          \<and> (paused ft AND FILE_PAUSE_US \<noteq> 0
                               \<or> ft_status ft \<noteq> FILESTATUS_TRANSFERRING) then (- 5, m)
                  else if accept_refused ft send_receive control \<noteq> 0
                  then (accept_refused ft send_receive control, m)
                  else if send_file_control_packet env m friendnumber 0 \<noteq> 0
                  then
                    (if control = FILECONTROL_KILL
                     then (0,
                           (let m1 = set_ft m friendnumber send_receive file_number
                                       (ft\<lparr>ft_status := FILESTATUS_NONE\<rparr>)
                            in if send_receive = 0
                               then m1\<lparr>friendlist := (friendlist m1)
                                        [friendnumber := (friendlist m1 ! friendnumber)
                                           \<lparr>num_sending_files :=
                                              num_sending_files (friendlist m1 ! friendnumber) - 1\<rparr>]\<rparr>
                               else m1))
                     else if control = FILECONTROL_PAUSE
                     then (0, set_ft m friendnumber send_receive file_number
                                (ft\<lparr>paused := paused ft OR FILE_PAUSE_US\<rparr>))
                     else if control = FILECONTROL_ACCEPT
                     then (0, set_ft m friendnumber send_receive file_number
                                (ft\<lparr>ft_status := FILESTATUS_TRANSFERRING,
                                    paused := (if paused ft AND FILE_PAUSE_US \<noteq> 0
                                               then paused ft XOR FILE_PAUSE_US
                                               else paused ft)\<rparr>))
                     else (0, m))
                  else (- 8, m))))"

text \<open>\<^verbatim>\<open>file_seek\<close>; the position travels in a control packet with 8 bytes of data.\<close>

definition file_seek :: "Env \<Rightarrow> Messenger \<Rightarrow> nat \<Rightarrow> nat \<Rightarrow> u64 \<Rightarrow> int \<times> Messenger" where
  "file_seek env m friendnumber filenumber position =
     (if friend_not_valid m friendnumber then (- 1, m)
      else if status (friendlist m ! friendnumber) \<noteq> FRIEND_ONLINE then (- 2, m)
      else if \<not> filenumber \<ge> 2 ^ 16 then (- 4, m)
      else
        (let send_receive = 1 :: nat;
             temp_filenum = filenumber div 2 ^ 16 - 1
         in if temp_filenum \<ge> MAX_CONCURRENT_FILE_PIPES then (- 3, m)
            else
              (let file_number = temp_filenum;
                   ft = get_ft m friendnumber send_receive file_number
               in if ft_status ft = FILESTATUS_NONE then (- 3, m)
                  else if ft_status ft \<noteq> FILESTATUS_NOT_ACCEPTED then (- 5, m)
                  else if position \<ge> size_ft ft then (- 6, m)
                  else if send_file_control_packet env m friendnumber 8 \<noteq> 0
                  then (0, set_ft m friendnumber send_receive file_number
                             (ft\<lparr>transferred := position\<rparr>))
                  else (- 8, m))))"

text \<open>\<^verbatim>\<open>send_file_data_packet\<close>: the packet number or \<open>-1\<close>.\<close>

definition send_file_data_packet :: "Env \<Rightarrow> Messenger \<Rightarrow> nat \<Rightarrow> int" where
  "send_file_data_packet env m friendnumber =
     (if friend_not_valid m friendnumber then - 1
      else write_cryptpacket env (friendcon_id (dev_list (friendlist m ! friendnumber) ! 0)))"

text \<open>\<^verbatim>\<open>file_data\<close> for \<open>len\<close> bytes of data at \<open>position\<close>. \<open>len\<close> is a \<^verbatim>\<open>uint16_t\<close>; the
  comparisons with the 64-bit fields are unsigned 64-bit comparisons.\<close>

definition file_data ::
  "Env \<Rightarrow> Messenger \<Rightarrow> nat \<Rightarrow> nat \<Rightarrow> u64 \<Rightarrow> nat \<Rightarrow> int \<times> Messenger \<times> event list" where
  "file_data env m friendnumber filenumber position len =
     (if friend_not_valid m friendnumber then (- 1, m, [])
      else if status (friendlist m ! friendnumber) \<noteq> FRIEND_ONLINE then (- 2, m, [])
      else if filenumber \<ge> MAX_CONCURRENT_FILE_PIPES then (- 3, m, [])
      else
        (let ft = get_ft m friendnumber 0 filenumber
         in if ft_status ft \<noteq> FILESTATUS_TRANSFERRING then (- 4, m, [])
            else if len > MAX_FILE_DATA_SIZE env then (- 5, m, [])
            else if size_ft ft - transferred ft < of_nat len then (- 5, m, [])
            else if size_ft ft \<noteq> - 1 \<and> len \<noteq> MAX_FILE_DATA_SIZE env
                    \<and> transferred ft + of_nat len \<noteq> size_ft ft then (- 5, m, [])
            else if position \<noteq> transferred ft \<or> (requested ft \<le> position \<and> size_ft ft \<noteq> 0)
            then (- 7, m, [])
            else if crypto_num_free_sendqueue_slots env
                      (friendcon_id (dev_list (friendlist m ! friendnumber) ! 0))
                    < MIN_SLOTS_FREE env then (- 6, m, [])
            else
              (let ret = send_file_data_packet env m friendnumber
               in if ret \<noteq> - 1
                  then
                    (let ft1 = ft\<lparr>transferred := transferred ft + of_nat len\<rparr>;
                         ft2 = (if slots_allocated ft1 \<noteq> 0
                                then ft1\<lparr>slots_allocated := slots_allocated ft1 - 1\<rparr> else ft1);
                         ft3 = (if len \<noteq> MAX_FILE_DATA_SIZE env \<or> size_ft ft2 = transferred ft2
                                then ft2\<lparr>ft_status := FILESTATUS_FINISHED,
                                         last_packet_number := word_of_int ret\<rparr>
                                else ft2)
                     in (0, set_ft m friendnumber 0 filenumber ft3,
                         [File_data_packet friendnumber filenumber len]))
                  else (- 6, m, []))))"

subsection \<open>Chunk requests\<close>

text \<open>The connection of a friend the file functions talk to: that of device 0.\<close>

definition friend_conn :: "Messenger \<Rightarrow> nat \<Rightarrow> int" where
  "friend_conn m friendnumber = friendcon_id (dev_list (friendlist m ! friendnumber) ! 0)"

text \<open>The function registered with \<^verbatim>\<open>callback_file_reqchunk\<close> belongs to the application;
  it is expected to answer a request by calling \<^verbatim>\<open>file_data\<close>, at once or later. It is a
  parameter \<open>cb\<close> of the model: \<open>cb friendnumber filenumber position length m\<close> is the
  messenger as the call leaves it, with the calls and packets the call caused. The field
  \<^verbatim>\<open>file_reqchunk\<close> of the messenger says whether a function is registered. \<open>call_reqchunk\<close>
  is the guarded call \<open>if (m->file_reqchunk) (*m->file_reqchunk)(\<dots>)\<close>.\<close>

type_synonym file_reqchunk_cb = "nat \<Rightarrow> nat \<Rightarrow> u64 \<Rightarrow> nat \<Rightarrow> Messenger \<Rightarrow> Messenger \<times> event list"

definition call_reqchunk ::
  "file_reqchunk_cb \<Rightarrow> nat \<Rightarrow> nat \<Rightarrow> u64 \<Rightarrow> nat \<Rightarrow> Messenger \<Rightarrow> Messenger \<times> event list" where
  "call_reqchunk cb friendnumber i position len m =
     (if file_reqchunk m
      then (fst (cb friendnumber i position len m),
            File_reqchunk friendnumber i position len # snd (cb friendnumber i position len m))
      else (m, []))"

text \<open>The length of a full chunk, \<open>uint16_t length = MAX_FILE_DATA_SIZE\<close>.\<close>

definition chunk_length :: "Env \<Rightarrow> nat" where
  "chunk_length env = MAX_FILE_DATA_SIZE env mod 2 ^ 16"

text \<open>The \<^verbatim>\<open>while\<close> loop of \<^verbatim>\<open>do_reqchunk_filecb\<close> for file slot \<open>i\<close>, with the local
  \<^verbatim>\<open>free_slots\<close> and the events so far. The slot is read again through \<^verbatim>\<open>ft\<close> after every
  callback. Each round that does not leave the loop takes one from \<^verbatim>\<open>free_slots\<close>, which
  no callback can reach, and that is how the loop ends.\<close>

function reqchunk_while ::
  "Env \<Rightarrow> file_reqchunk_cb \<Rightarrow> nat \<Rightarrow> nat \<Rightarrow> Messenger \<Rightarrow> nat \<Rightarrow> event list
     \<Rightarrow> Messenger \<times> nat \<times> event list" where
  "reqchunk_while env cb friendnumber i m free_slots evs =
     (let ft = get_ft m friendnumber 0 i in
      if ft_status ft = FILESTATUS_TRANSFERRING \<and> paused ft = FILE_PAUSE_NOT
      then
        (let free_slots1 = (if max_speed_reached env (friend_conn m friendnumber)
                            then 0 else free_slots)
         in if free_slots1 = 0 then (m, free_slots1, evs)
            else if size_ft ft = 0
            then (case file_data env m friendnumber i 0 0 of
                    (r, m1, evs1) \<Rightarrow> (m1, free_slots1, evs @ evs1))
            else if size_ft ft = requested ft then (m, free_slots1, evs)
            else
              (let len = (if unat (size_ft ft - requested ft) < chunk_length env
                          then unat (size_ft ft - requested ft) else chunk_length env);
                   position = requested ft;
                   ft1 = ft\<lparr>slots_allocated := slots_allocated ft + 1,
                            requested := requested ft + of_nat len\<rparr>;
                   called = call_reqchunk cb friendnumber i position len
                              (set_ft m friendnumber 0 i ft1)
               in reqchunk_while env cb friendnumber i (fst called) (free_slots1 - 1)
                    (evs @ snd called)))
      else (m, free_slots, evs))"
  by pat_completeness auto
termination
  by (relation "measure (\<lambda>(env, cb, friendnumber, i, m, free_slots, evs). free_slots)")
     (auto split: if_splits)

text \<open>The body of the \<^verbatim>\<open>for\<close> loop before the \<^verbatim>\<open>while\<close>: for a slot in use, \<^verbatim>\<open>num\<close> is
  counted down, a Finished transfer whose last packet has arrived is reported with a
  request of length 0 and freed, and the slot's \<^verbatim>\<open>slots_allocated\<close> is taken from
  \<^verbatim>\<open>free_slots\<close>, which stops at 0.\<close>

definition reqchunk_account ::
  "Env \<Rightarrow> file_reqchunk_cb \<Rightarrow> nat \<Rightarrow> nat \<Rightarrow> Messenger \<Rightarrow> nat \<Rightarrow> u32 \<Rightarrow> event list
     \<Rightarrow> Messenger \<times> nat \<times> u32 \<times> event list" where
  "reqchunk_account env cb friendnumber i m free_slots num evs =
     (let ft = get_ft m friendnumber 0 i in
      if ft_status ft \<noteq> FILESTATUS_NONE
      then
        (let reaped =
               (if ft_status ft = FILESTATUS_FINISHED
                   \<and> friend_received_packet env m friendnumber (last_packet_number ft) = 0
                then
                  (let called = call_reqchunk cb friendnumber i (transferred ft) 0 m;
                       m0 = fst called;
                       m1 = set_ft m0 friendnumber 0 i
                              ((get_ft m0 friendnumber 0 i)\<lparr>ft_status := FILESTATUS_NONE\<rparr>)
                   in (m1\<lparr>friendlist := (friendlist m1)
                            [friendnumber := (friendlist m1 ! friendnumber)
                               \<lparr>num_sending_files :=
                                  num_sending_files (friendlist m1 ! friendnumber) - 1\<rparr>]\<rparr>,
                       snd called))
                else (m, []));
             m2 = fst reaped;
             allocated = unat (slots_allocated (get_ft m2 friendnumber 0 i))
         in (m2,
             if allocated > free_slots then 0 else free_slots - allocated,
             num - 1, evs @ snd reaped))
      else (m, free_slots, num, evs))"

text \<open>The \<^verbatim>\<open>for\<close> loop over the file slots, left early once \<^verbatim>\<open>num\<close> is 0.\<close>

fun reqchunk_for ::
  "Env \<Rightarrow> file_reqchunk_cb \<Rightarrow> nat \<Rightarrow> nat list \<Rightarrow> Messenger \<Rightarrow> nat \<Rightarrow> u32 \<Rightarrow> event list
     \<Rightarrow> Messenger \<times> event list" where
  "reqchunk_for env cb friendnumber [] m free_slots num evs = (m, evs)"
| "reqchunk_for env cb friendnumber (i # slots) m free_slots num evs =
     (case reqchunk_account env cb friendnumber i m free_slots num evs of
        (m1, free_slots1, num1, evs1) \<Rightarrow>
          (case reqchunk_while env cb friendnumber i m1 free_slots1 evs1 of
             (m2, free_slots2, evs2) \<Rightarrow>
               if num1 = 0 then (m2, evs2)
               else reqchunk_for env cb friendnumber slots m2 free_slots2 num1 evs2))"

text \<open>\<^verbatim>\<open>do_reqchunk_filecb\<close>: the messenger afterwards and the calls and packets made.\<close>

definition do_reqchunk_filecb ::
  "Env \<Rightarrow> file_reqchunk_cb \<Rightarrow> Messenger \<Rightarrow> nat \<Rightarrow> Messenger \<times> event list" where
  "do_reqchunk_filecb env cb m friendnumber =
     (if num_sending_files (friendlist m ! friendnumber) = 0 then (m, [])
      else
        (let free_slots = crypto_num_free_sendqueue_slots env (friend_conn m friendnumber);
             free_slots1 = (if free_slots < MIN_SLOTS_FREE env then 0
                            else free_slots - MIN_SLOTS_FREE env)
         in reqchunk_for env cb friendnumber [0..<MAX_CONCURRENT_FILE_PIPES] m free_slots1
              (num_sending_files (friendlist m ! friendnumber)) []))"

text \<open>The closed form of the \<^verbatim>\<open>while\<close> loop on a Transferring, unpaused transfer of
  nonzero size: the number of chunks it requests with \<open>free\<close> slots at hand, and the
  requests themselves, chunk \<open>k\<close> starting \<open>k\<close> full chunks behind \<^verbatim>\<open>requested\<close>.\<close>

definition chunk_count :: "Env \<Rightarrow> File_Transfers \<Rightarrow> nat \<Rightarrow> nat" where
  "chunk_count env ft free =
     min free ((unat (size_ft ft - requested ft) + MAX_FILE_DATA_SIZE env - 1)
                 div MAX_FILE_DATA_SIZE env)"

definition chunk_requests :: "Env \<Rightarrow> nat \<Rightarrow> nat \<Rightarrow> File_Transfers \<Rightarrow> nat \<Rightarrow> event list" where
  "chunk_requests env friendnumber i ft n =
     map (\<lambda>k. File_reqchunk friendnumber i
                 (requested ft + of_nat (k * MAX_FILE_DATA_SIZE env))
                 (min (MAX_FILE_DATA_SIZE env)
                      (unat (size_ft ft - requested ft) - k * MAX_FILE_DATA_SIZE env)))
       [0..<n]"

section \<open>Friend addresses\<close>

text \<open>\<^verbatim>\<open>address_checksum\<close>: the \<^verbatim>\<open>for\<close> loop over \<open>i = 0, \<dots>, len - 1\<close> on the two-byte
  array \<^verbatim>\<open>checksum\<close>, which starts zeroed. The result is copied byte for byte into a
  \<^verbatim>\<open>uint16_t\<close> and later compared with a \<^verbatim>\<open>uint16_t\<close> copied byte for byte out of the
  address, so the value is kept as its two bytes in memory order.\<close>

definition address_checksum :: "u8 list \<Rightarrow> nat \<Rightarrow> u8 list" where
  "address_checksum address len =
     foldl (\<lambda>checksum i. checksum[i mod 2 := (checksum ! (i mod 2)) XOR (address ! i)])
       [0, 0] [0..<len]"

text \<open>Modelled from the spec: the four nospam bytes of an address are the little-endian
  bytes of the \<^verbatim>\<open>uint32_t\<close> (the code copies them with \<^verbatim>\<open>memcpy\<close>).\<close>

fun le_word :: "u8 list \<Rightarrow> u32" where
  "le_word [] = 0"
| "le_word (b # bs) = ucast b + push_bit 8 (le_word bs)"

fun le_bytes :: "nat \<Rightarrow> u32 \<Rightarrow> u8 list" where
  "le_bytes 0 w = []"
| "le_bytes (Suc n) w = ucast w # le_bytes n (drop_bit 8 w)"

text \<open>\<^verbatim>\<open>getaddress\<close>, from the own public key and the nospam the transport holds.\<close>

definition getaddress :: "u8 list \<Rightarrow> u32 \<Rightarrow> u8 list" where
  "getaddress self_pk nospam =
     (let address = take crypto_box_PUBLICKEYBYTES self_pk @ le_bytes 4 nospam
      in address @ address_checksum address (FRIEND_ADDRESS_SIZE - 2))"

definition id_equal :: "u8 list \<Rightarrow> u8 list \<Rightarrow> bool" where
  "id_equal dest src = (take crypto_box_PUBLICKEYBYTES dest = take crypto_box_PUBLICKEYBYTES src)"

section \<open>The friend table\<close>

text \<open>\<^verbatim>\<open>getfriend_id\<close>: the first friend in use one of whose devices has the key.\<close>

fun getfriend_id_from :: "Friend list \<Rightarrow> nat \<Rightarrow> u8 list \<Rightarrow> nat option" where
  "getfriend_id_from [] i pk = None"
| "getfriend_id_from (f # fs) i pk =
     (if status f > 0 \<and> list_ex (\<lambda>device. id_equal pk (real_pk device)) (dev_list f)
      then Some i else getfriend_id_from fs (Suc i) pk)"

definition getfriend_id :: "Messenger \<Rightarrow> u8 list \<Rightarrow> nat option" where
  "getfriend_id m pk = getfriend_id_from (friendlist m) 0 pk"

text \<open>\<^verbatim>\<open>realloc_friendlist\<close>: resizing to zero frees and cannot fail.\<close>

definition realloc_friendlist :: "Env \<Rightarrow> nat \<Rightarrow> int" where
  "realloc_friendlist env num =
     (if num = 0 then 0 else if realloc_friendlist_ok env then 0 else - 1)"

text \<open>The search loop of \<^verbatim>\<open>init_new_friend\<close>, \<open>for (i = 0; i <= numfriends; ++i)\<close>, over
  the table with the zeroed slot \<^verbatim>\<open>friendlist[numfriends]\<close> behind it.\<close>

fun find_nofriend :: "Friend list \<Rightarrow> nat \<Rightarrow> nat option" where
  "find_nofriend [] i = None"
| "find_nofriend (f # fs) i = (if status f = NOFRIEND then Some i else find_nofriend fs (Suc i))"

text \<open>\<^verbatim>\<open>init_new_friend\<close>. The slot found keeps every field the code does not assign. When
  the slot found is not the new last one, \<^verbatim>\<open>numfriends\<close> stays and the slot allocated behind
  the table is not part of it.\<close>

definition init_new_friend :: "Env \<Rightarrow> Messenger \<Rightarrow> u8 list \<Rightarrow> nat \<Rightarrow> (faerr + nat) \<times> Messenger" where
  "init_new_friend env m pk status' =
     (if realloc_friendlist env (length (friendlist m) + 1) \<noteq> 0 then (Inl FAERR_NOMEM, m)
      else
        (let fl = friendlist m @ [zero_Friend];
             friendcon = new_tox_conn env pk
         in if friendcon = - 1 then (Inl FAERR_NOMEM, m)
            else case find_nofriend fl 0 of
              None \<Rightarrow> (Inl FAERR_NOMEM, m)
            | Some i \<Rightarrow>
                if \<not> realloc_dev_list_ok env then (Inl FAERR_NOMEM, m)
                else
                  (let f = (fl ! i)
                         \<lparr>status := status', friendrequest_lastsent := 0,
                          statusmessage_length := 0, userstatus := 0, is_typing := 0,
                          message_id := 0,
                          dev_list :=
                            [\<lparr>dev_status = (if toxconn_is_connected env friendcon
                                             then FDEV_ONLINE else FDEV_CONFIRMED),
                              friendcon_id = friendcon,
                              real_pk = take crypto_box_PUBLICKEYBYTES pk\<rparr>]\<rparr>;
                       numfriends = (if length (friendlist m) = i then i + 1
                                     else length (friendlist m))
                   in (Inr i, m\<lparr>friendlist := take numfriends (fl[i := f])\<rparr>))))"

text \<open>\<^verbatim>\<open>m_addfriend\<close>; \<open>data\<close> is the greeting, \<^verbatim>\<open>length\<close> its length.\<close>

definition m_addfriend :: "Env \<Rightarrow> Messenger \<Rightarrow> u8 list \<Rightarrow> u8 list \<Rightarrow> (faerr + nat) \<times> Messenger" where
  "m_addfriend env m address data =
     (if length data > MAX_FRIEND_REQUEST_DATA_SIZE then (Inl FAERR_TOOLONG, m)
      else
        (let pk = take crypto_box_PUBLICKEYBYTES address in
         if \<not> public_key_valid env pk then (Inl FAERR_BADCHECKSUM, m)
         else
           (let checksum = address_checksum address (FRIEND_ADDRESS_SIZE - 2);
                check = take 2 (drop (crypto_box_PUBLICKEYBYTES + 4) address)
            in if check \<noteq> checksum then (Inl FAERR_BADCHECKSUM, m)
               else if length data < 1 then (Inl FAERR_NOMESSAGE, m)
               else if id_equal pk (self_public_key env) then (Inl FAERR_OWNKEY, m)
               else
                 (let nospam = le_word (take 4 (drop crypto_box_PUBLICKEYBYTES address)) in
                  case getfriend_id m pk of
                    Some friend_id \<Rightarrow>
                      if status (friendlist m ! friend_id) \<ge> FRIEND_CONFIRMED
                      then (Inl FAERR_ALREADYSENT, m)
                      else if friendrequest_nospam (friendlist m ! friend_id) = nospam
                      then (Inl FAERR_ALREADYSENT, m)
                      else (Inl FAERR_SETNEWNOSPAM,
                            m\<lparr>friendlist := (friendlist m)
                                [friend_id := (friendlist m ! friend_id)
                                   \<lparr>friendrequest_nospam := nospam\<rparr>]\<rparr>)
                  | None \<Rightarrow>
                      (case init_new_friend env m pk FRIEND_ADDED of
                         (Inl err, m1) \<Rightarrow> (Inl err, m1)
                       | (Inr ret, m1) \<Rightarrow>
                           (Inr ret,
                            m1\<lparr>friendlist := (friendlist m1)
                                 [ret := (friendlist m1 ! ret)
                                    \<lparr>friendrequest_timeout := FRIENDREQUEST_TIMEOUT,
                                     info := data,
                                     friendrequest_nospam := nospam\<rparr>]\<rparr>))))))"

text \<open>The loop of \<^verbatim>\<open>m_delfriend\<close> that drops the free slots at the end of the table:
  \<open>for (i = numfriends; i != 0; --i) if (friendlist[i - 1].status != NOFRIEND) break;\<close>\<close>

fun last_friend :: "Friend list \<Rightarrow> nat \<Rightarrow> nat" where
  "last_friend fl 0 = 0"
| "last_friend fl (Suc i) = (if status (fl ! i) \<noteq> NOFRIEND then Suc i else last_friend fl i)"

text \<open>\<^verbatim>\<open>m_delfriend\<close>: the result is \<open>Inr\<close> of the plain return value (0 or \<open>-1\<close>) or \<open>Inl\<close>
  of the \<^verbatim>\<open>FAERR\<close> code; \<open>None\<close> when \<^verbatim>\<open>clear_receipts\<close> does not return.\<close>

definition m_delfriend ::
  "Env \<Rightarrow> Messenger \<Rightarrow> nat \<Rightarrow> ((faerr + int) \<times> Messenger \<times> event list) option" where
  "m_delfriend env m friendnumber =
     (if friend_not_valid m friendnumber then Some (Inr (- 1), m, [])
      else
        (let evs = (if friend_connectionstatuschange_internal m
                    then [Friend_connectionstatuschange_internal friendnumber 0] else [])
         in case clear_receipts m friendnumber of
              None \<Rightarrow> None
            | Some (r, m1) \<Rightarrow>
                (let fl = (friendlist m1)[friendnumber := zero_Friend];
                     i = last_friend fl (length fl);
                     m2 = m1\<lparr>friendlist := take i fl\<rparr>
                 in if realloc_friendlist env i \<noteq> 0 then Some (Inl FAERR_NOMEM, m2, evs)
                    else Some (Inr 0, m2, evs))))"

section \<open>Example states\<close>

text \<open>Small concrete states on which the theorems below are instantiated.\<close>

definition ex_pk :: "u8 \<Rightarrow> u8 list" where
  "ex_pk b = replicate 32 b"

definition ex_env :: Env where
  "ex_env =
     \<lparr>MAX_CRYPTO_DATA_SIZE = 1373, CRYPTO_MIN_QUEUE_LENGTH = 64, self_public_key = ex_pk 9,
      public_key_valid = (\<lambda>pk. True), new_tox_conn = (\<lambda>pk. 7),
      toxconn_is_connected = (\<lambda>c. False), write_cryptpacket = (\<lambda>c. 100),
      cryptpacket_received = (\<lambda>c n. if n < 100 then 0 else - 1),
      crypto_num_free_sendqueue_slots = (\<lambda>c. 19), max_speed_reached = (\<lambda>c. False),
      crypto_connection_status = (\<lambda>c. (False, 0)),
      realloc_friendlist_ok = True, realloc_dev_list_ok = True, calloc = Some 0\<rparr>"

definition ex_device :: "u8 \<Rightarrow> nat \<Rightarrow> F_Device" where
  "ex_device b st = \<lparr>dev_status = st, friendcon_id = 7, real_pk = ex_pk b\<rparr>"

definition ex_online_friend :: Friend where
  "ex_online_friend =
     zero_Friend\<lparr>dev_list := [ex_device 1 FDEV_ONLINE], status := FRIEND_ONLINE\<rparr>"

definition ex_queue_messenger :: Messenger where
  "ex_queue_messenger =
     \<lparr>friendlist = [ex_online_friend\<lparr>receipts_start := Some 0, receipts_end := Some 1\<rparr>],
      receipts_heap =
        [0 \<mapsto> \<lparr>packet_num = 5, msg_id = 1, next_receipt = Some 1\<rparr>,
         1 \<mapsto> \<lparr>packet_num = 200, msg_id = 2, next_receipt = None\<rparr>],
      read_receipt = True, file_reqchunk = True,
      friend_connectionstatuschange = True, friend_connectionstatuschange_internal = False\<rparr>"

definition ex_messenger :: "Friend list \<Rightarrow> Messenger" where
  "ex_messenger fl =
     \<lparr>friendlist = fl, receipts_heap = Map.empty, read_receipt = True, file_reqchunk = True,
      friend_connectionstatuschange = True, friend_connectionstatuschange_internal = False\<rparr>"

definition ex_receiving_messenger :: "File_Transfers \<Rightarrow> Messenger" where
  "ex_receiving_messenger ft =
     ex_messenger [ex_online_friend\<lparr>file_receiving := (\<lambda>i. zero_File_Transfers)(0 := ft)\<rparr>]"

definition ex_offered_file :: File_Transfers where
  "ex_offered_file = zero_File_Transfers\<lparr>size_ft := 100, ft_status := FILESTATUS_NOT_ACCEPTED\<rparr>"

definition ex_address :: "u8 list" where
  "ex_address = getaddress (ex_pk 3) 5"

definition ex_pending_friend :: Friend where
  "ex_pending_friend =
     zero_Friend\<lparr>dev_list := [ex_device 3 FDEV_CONFIRMED], status := FRIEND_ADDED,
                 friendrequest_nospam := 4\<rparr>"

definition ex_second_friend :: Friend where
  "ex_second_friend = ex_online_friend\<lparr>dev_list := [ex_device 2 FDEV_ONLINE]\<rparr>"

definition ex_counter_messenger :: "u32 \<Rightarrow> Messenger" where
  "ex_counter_messenger c = ex_messenger [ex_online_friend\<lparr>message_id := c\<rparr>]"

text \<open>A friend with one receipt queued and a friend with two, and an application that
  answers every read receipt with a new two-byte message to the same friend, sent
  through \<^verbatim>\<open>m_send_message_generic\<close> from inside the callback. \<open>ex_reply_env\<close> hands out
  node 7 for the receipt of that message; the transport gives it packet number 100, which
  the peer has not received yet.\<close>

definition ex_single_receipt :: Messenger where
  "ex_single_receipt =
     \<lparr>friendlist = [ex_online_friend\<lparr>message_id := 1, receipts_start := Some 0,
                                     receipts_end := Some 0\<rparr>],
      receipts_heap = [0 \<mapsto> \<lparr>packet_num = 5, msg_id = 1, next_receipt = None\<rparr>],
      read_receipt = True, file_reqchunk = True,
      friend_connectionstatuschange = True, friend_connectionstatuschange_internal = False\<rparr>"

definition ex_two_receipts :: Messenger where
  "ex_two_receipts =
     \<lparr>friendlist = [ex_online_friend\<lparr>message_id := 2, receipts_start := Some 0,
                                     receipts_end := Some 1\<rparr>],
      receipts_heap =
        [0 \<mapsto> \<lparr>packet_num = 5, msg_id = 1, next_receipt = Some 1\<rparr>,
         1 \<mapsto> \<lparr>packet_num = 200, msg_id = 2, next_receipt = None\<rparr>],
      read_receipt = True, file_reqchunk = True,
      friend_connectionstatuschange = True, friend_connectionstatuschange_internal = False\<rparr>"

definition ex_reply_env :: Env where
  "ex_reply_env = ex_env\<lparr>calloc := Some 7\<rparr>"

definition ex_reply :: read_receipt_cb where
  "ex_reply friendnumber msg_id' m =
     (snd (snd (m_send_message_generic ex_reply_env m friendnumber 0 [104, 105])), [])"

text \<open>An application whose callback only takes note of the receipt.\<close>

definition ex_quiet :: read_receipt_cb where
  "ex_quiet friendnumber msg_id' m = (m, [])"

subsection \<open>The spec's reading of the connection kind rule\<close>

text \<open>The spec's words for C9, as a function of the transport's answer and the last
  reported kind: direct gives Udp, else relays give Tcp, else Unknown; Unknown after Udp is
  reported as Tcp.\<close>

definition spec_reported_kind :: "bool \<Rightarrow> nat \<Rightarrow> connection \<Rightarrow> connection" where
  "spec_reported_kind direct relays last_connection =
     (let kind = (if direct then CONNECTION_UDP
                  else if relays \<noteq> 0 then CONNECTION_TCP else CONNECTION_UNKNOWN)
      in if kind = CONNECTION_UNKNOWN \<and> last_connection = CONNECTION_UDP
         then CONNECTION_TCP else kind)"

definition ex_udp_friend :: Friend where
  "ex_udp_friend = ex_online_friend\<lparr>last_connection_udp_tcp := CONNECTION_UDP\<rparr>"

subsection \<open>The spec's reading of the chunk request loop\<close>

text \<open>The spec's words for C1. The budget: \<open>max(0, transport_free_slots - MIN_SLOTS_FREE)\<close>
  less the \<^verbatim>\<open>slots_allocated\<close> of every active transfer.\<close>

definition spec_free :: "Env \<Rightarrow> Messenger \<Rightarrow> nat \<Rightarrow> int" where
  "spec_free env m friendnumber =
     max 0 (int (crypto_num_free_sendqueue_slots env (friend_conn m friendnumber))
            - int (MIN_SLOTS_FREE env))
     - sum_list (map (\<lambda>i. if ft_status (get_ft m friendnumber 0 i) \<noteq> FILESTATUS_NONE
                           then int (unat (slots_allocated (get_ft m friendnumber 0 i)))
                           else 0)
                  [0..<MAX_CONCURRENT_FILE_PIPES])"

text \<open>Then, for one transfer, while \<open>free > 0\<close> and the transport has not signalled that
  the maximum speed is reached: a zero-length data packet and stop if \<open>size = 0\<close>; stop if
  \<open>requested = size\<close>; else the callback is invoked for
  \<open>min(MAX_FILE_DATA_SIZE, size - requested)\<close> bytes at \<open>requested\<close>, then
  \<open>requested += length\<close>, \<open>slots_allocated++\<close>, \<open>free--\<close>.\<close>

fun spec_chunks ::
  "Env \<Rightarrow> file_reqchunk_cb \<Rightarrow> nat \<Rightarrow> nat \<Rightarrow> Messenger \<Rightarrow> nat \<Rightarrow> Messenger \<times> nat \<times> event list" where
  "spec_chunks env cb friendnumber i m 0 = (m, 0, [])"
| "spec_chunks env cb friendnumber i m (Suc free) =
     (let ft = get_ft m friendnumber 0 i in
      if max_speed_reached env (friend_conn m friendnumber) then (m, Suc free, [])
      else if size_ft ft = 0
      then (case file_data env m friendnumber i 0 0 of (r, m1, evs1) \<Rightarrow> (m1, Suc free, evs1))
      else if requested ft = size_ft ft then (m, Suc free, [])
      else
        (let len = min (MAX_FILE_DATA_SIZE env) (unat (size_ft ft - requested ft));
             called = call_reqchunk cb friendnumber i (requested ft) len m;
             ft0 = get_ft (fst called) friendnumber 0 i;
             m1 = set_ft (fst called) friendnumber 0 i
                    (ft0\<lparr>requested := requested ft0 + of_nat len,
                         slots_allocated := slots_allocated ft0 + 1\<rparr>)
         in case spec_chunks env cb friendnumber i m1 free of
              (m2, free2, evs2) \<Rightarrow> (m2, free2, snd called @ evs2)))"

text \<open>This for every sending transfer that is Transferring and unpaused.\<close>

fun spec_serve ::
  "Env \<Rightarrow> file_reqchunk_cb \<Rightarrow> nat \<Rightarrow> nat list \<Rightarrow> Messenger \<Rightarrow> nat \<Rightarrow> Messenger \<times> event list" where
  "spec_serve env cb friendnumber [] m free = (m, [])"
| "spec_serve env cb friendnumber (i # slots) m free =
     (if ft_status (get_ft m friendnumber 0 i) = FILESTATUS_TRANSFERRING
         \<and> paused (get_ft m friendnumber 0 i) = FILE_PAUSE_NOT
      then (case spec_chunks env cb friendnumber i m free of
              (m1, free1, evs1) \<Rightarrow>
                (case spec_serve env cb friendnumber slots m1 free1 of
                   (m2, evs2) \<Rightarrow> (m2, evs1 @ evs2)))
      else spec_serve env cb friendnumber slots m free)"

definition spec_do_reqchunk ::
  "Env \<Rightarrow> file_reqchunk_cb \<Rightarrow> Messenger \<Rightarrow> nat \<Rightarrow> Messenger \<times> event list" where
  "spec_do_reqchunk env cb m friendnumber =
     spec_serve env cb friendnumber [0..<MAX_CONCURRENT_FILE_PIPES] m
       (nat (spec_free env m friendnumber))"

subsection \<open>Example file transfers\<close>

text \<open>Sending files of 10000 bytes; an application that only takes note of a chunk
  request and sends the data later, and one that answers each request at once with
  \<^verbatim>\<open>file_data\<close> for the chunk.\<close>

definition ex_sending_file :: "u64 \<Rightarrow> u32 \<Rightarrow> File_Transfers" where
  "ex_sending_file req slots =
     zero_File_Transfers\<lparr>size_ft := 10000, requested := req,
                         ft_status := FILESTATUS_TRANSFERRING, slots_allocated := slots\<rparr>"

definition ex_two_files :: Messenger where
  "ex_two_files =
     ex_messenger
       [ex_online_friend
          \<lparr>file_sending := (\<lambda>i. zero_File_Transfers)
                             (0 := ex_sending_file 0 0, 1 := ex_sending_file 6855 5),
           num_sending_files := 2\<rparr>]"

definition ex_file_messenger :: "File_Transfers \<Rightarrow> Messenger" where
  "ex_file_messenger ft =
     ex_messenger
       [ex_online_friend
          \<lparr>file_sending := (\<lambda>i. zero_File_Transfers)(0 := ft), num_sending_files := 1\<rparr>]"

definition ex_note :: file_reqchunk_cb where
  "ex_note friendnumber filenumber position len m = (m, [])"

definition ex_feed :: file_reqchunk_cb where
  "ex_feed friendnumber filenumber position len m =
     snd (file_data ex_env m friendnumber filenumber position len)"

text \<open>An empty file that has been accepted.\<close>

definition ex_empty_file :: File_Transfers where
  "ex_empty_file = zero_File_Transfers\<lparr>ft_status := FILESTATUS_TRANSFERRING\<rparr>"

section \<open>Theorems\<close>

subsection \<open>C9: connection kind reporting\<close>

text \<open>C9 (counterexample). An Online friend whose last reported kind is Udp, on a
  transport that reports neither a direct connection nor a relay: by the claim Tcp is
  reported (a callback, since Tcp differs from Udp); the code returns early, calls nothing
  and keeps Udp as the last kind.\<close>

theorem C9_check_friend_tcp_udp_counterexample:
  "spec_reported_kind False 0 CONNECTION_UDP = CONNECTION_TCP
   \<and> check_friend_tcp_udp ex_env (ex_messenger [ex_udp_friend]) 0
       = (ex_messenger [ex_udp_friend], [])
   \<and> snd (check_friend_tcp_udp ex_env (ex_messenger [ex_udp_friend]) 0)
       \<noteq> [Friend_connectionstatuschange 0 (spec_reported_kind False 0 CONNECTION_UDP)]"
  by (simp add: spec_reported_kind_def check_friend_tcp_udp_def
      m_get_friend_connectionstatus_def friend_not_valid_def ex_messenger_def ex_udp_friend_def
      ex_online_friend_def zero_Friend_def ex_env_def ex_device_def FRIEND_ONLINE_def)

text \<open>C9 (amended). For an Online friend the kind computed by
  \<^verbatim>\<open>m_get_friend_connectionstatus\<close> is Udp when the transport reports a direct connection,
  else Tcp when the number of online relays is nonzero, else Unknown. Unknown is never
  reported: when the last reported kind was Udp the check does nothing (no callback, the
  last kind stays Udp), otherwise Unknown is reported as Tcp. The callback is called at most
  once, only when the reported kind differs from the last reported kind (and a callback is
  registered), and the reported kind becomes the last reported kind.\<close>

theorem C9_check_friend_tcp_udp:
  assumes "friendnumber < length (friendlist m)"
    and "status (friendlist m ! friendnumber) = FRIEND_ONLINE"
    and "crypto_connection_status env
           (friendcon_id (dev_list (friendlist m ! friendnumber) ! 0)) = (direct, relays)"
    and "last_connection_udp_tcp (friendlist m ! friendnumber) = last_connection"
  shows "m_get_friend_connectionstatus env m friendnumber =
           Some (if direct then CONNECTION_UDP
                 else if relays \<noteq> 0 then CONNECTION_TCP else CONNECTION_UNKNOWN)
       \<and> check_friend_tcp_udp env m friendnumber =
           (if \<not> direct \<and> relays = 0 \<and> last_connection = CONNECTION_UDP then (m, [])
            else
              (m\<lparr>friendlist := (friendlist m)
                   [friendnumber := (friendlist m ! friendnumber)
                      \<lparr>last_connection_udp_tcp :=
                         (if direct then CONNECTION_UDP else CONNECTION_TCP)\<rparr>]\<rparr>,
               if last_connection \<noteq> (if direct then CONNECTION_UDP else CONNECTION_TCP)
                  \<and> friend_connectionstatuschange m
               then [Friend_connectionstatuschange friendnumber
                       (if direct then CONNECTION_UDP else CONNECTION_TCP)]
               else []))"
proof -
  have valid: "\<not> friend_not_valid m friendnumber"
    using assms(1,2) by (simp add: friend_not_valid_def FRIEND_ONLINE_def)
  have get: "m_get_friend_connectionstatus env m friendnumber =
           Some (if direct then CONNECTION_UDP
                 else if relays \<noteq> 0 then CONNECTION_TCP else CONNECTION_UNKNOWN)"
    using valid assms(2,3) by (simp add: m_get_friend_connectionstatus_def)
  show ?thesis
    using assms(4) by (simp add: check_friend_tcp_udp_def get Let_def)
qed

theorem C9_check_friend_tcp_udp_witness:
  "check_friend_tcp_udp (ex_env\<lparr>crypto_connection_status := (\<lambda>c. (False, 2))\<rparr>)
     (ex_messenger [ex_udp_friend]) 0
   = (ex_messenger [ex_udp_friend\<lparr>last_connection_udp_tcp := CONNECTION_TCP\<rparr>],
      [Friend_connectionstatuschange 0 CONNECTION_TCP])"
  using C9_check_friend_tcp_udp
          [of 0 "ex_messenger [ex_udp_friend]"
              "ex_env\<lparr>crypto_connection_status := (\<lambda>c. (False, 2))\<rparr>" False 2 CONNECTION_UDP]
  by (simp add: ex_messenger_def ex_udp_friend_def ex_online_friend_def zero_Friend_def
      ex_env_def ex_device_def FRIEND_ONLINE_def)

subsection \<open>C4: the receipt queue\<close>

lemma receipts_start_same: "receipts_start f = x \<Longrightarrow> f\<lparr>receipts_start := x\<rparr> = f"
  by auto

lemma drained_same:
  assumes "receipts_start (friendlist m ! friendnumber) = x"
  shows "m\<lparr>receipts_heap := receipts_heap m |` UNIV,
           friendlist := (friendlist m)
             [friendnumber := (friendlist m ! friendnumber)\<lparr>receipts_start := x\<rparr>]\<rparr> = m"
  by (simp add: receipts_start_same [OF assms] restrict_map_def)

lemma chain_upd_notin:
  "a \<notin> set as \<Longrightarrow> chain (h(a := x)) p as = chain h p as"
  by (induction as arbitrary: p) (auto split: option.splits)

lemma chain_allocated: "chain h p as \<Longrightarrow> a \<in> set as \<Longrightarrow> h a \<noteq> None"
  by (induction as arbitrary: p) (auto split: option.splits)

lemma chain_start: "chain h p as \<Longrightarrow> p = (case as of [] \<Rightarrow> None | a # _ \<Rightarrow> Some a)"
  by (cases as) auto

lemma do_receipts_loop_drains:
  assumes "friendnumber < length (friendlist m)"
    and "status (friendlist m ! friendnumber) \<noteq> 0"
    and "receipts_start (friendlist m ! friendnumber) = p"
    and "chain (receipts_heap m) p as"
    and "distinct as"
    and quiet: "\<And>i m'. cb friendnumber i m' = (m', [])"
  shows "do_receipts_loop env cb m friendnumber p evs =
           Some (drained env m friendnumber as,
                 evs @ receipt_events m friendnumber (takeWhile (received env m friendnumber) as))"
  using assms
proof (induction as arbitrary: m p evs)
  case Nil
  then have p: "p = None" by simp
  have "drained env m friendnumber [] = m"
    using Nil by (simp add: drained_def drained_same)
  then show ?case
    by (subst do_receipts_loop.simps) (simp add: p receipt_events_def queue_content_def)
next
  case (Cons a as)
  from Cons.prems obtain r where p: "p = Some a" and r: "receipts_heap m a = Some r"
    and rest: "chain (receipts_heap m) (next_receipt r) as"
    by (auto split: option.splits)
  have valid: "\<not> friend_not_valid m friendnumber"
    using Cons.prems by (simp add: friend_not_valid_def)
  show ?case
  proof (cases "received env m friendnumber a")
    case False
    then have stop: "friend_received_packet env m friendnumber (packet_num r) = - 1"
      by (simp add: received_def r)
    have "drained env m friendnumber (a # as) = m"
      using False Cons.prems p by (simp add: drained_def drained_same)
    then show ?thesis
      using False
      by (subst do_receipts_loop.simps) (simp add: p r stop receipt_events_def queue_content_def)
  next
    case True
    then have go: "friend_received_packet env m friendnumber (packet_num r) \<noteq> - 1"
      by (simp add: received_def r)
    define m1 where "m1 = m\<lparr>receipts_heap := (receipts_heap m)(a := None),
                          friendlist := (friendlist m)
                            [friendnumber := (friendlist m ! friendnumber)\<lparr>receipts_start := next_receipt r\<rparr>]\<rparr>"
    define evs1 where "evs1 = (if read_receipt m then evs @ [Read_receipt friendnumber (msg_id r)] else evs)"
    have step: "do_receipts_loop env cb m friendnumber p evs =
                do_receipts_loop env cb m1 friendnumber (next_receipt r) evs1"
      using go by (subst do_receipts_loop.simps) (simp add: p r m1_def evs1_def Let_def quiet)
    have notin: "a \<notin> set as" and dist: "distinct as" using Cons.prems by auto
    have frp: "friend_received_packet env m1 friendnumber n = friend_received_packet env m friendnumber n" for n
      using Cons.prems(1) by (simp add: m1_def friend_received_packet_def friend_not_valid_def)
    have same: "received env m1 friendnumber b = received env m friendnumber b" if "b \<in> set as" for b
    proof -
      have "receipts_heap m1 b = receipts_heap m b" using that notin by (auto simp: m1_def)
      then show ?thesis by (simp add: received_def frp split: option.splits)
    qed
    have tw: "takeWhile (received env m1 friendnumber) as = takeWhile (received env m friendnumber) as"
      by (rule takeWhile_cong) (simp_all add: same)
    have dw: "dropWhile (received env m1 friendnumber) as = dropWhile (received env m friendnumber) as"
      by (rule dropWhile_cong) (simp_all add: same)
    have ih: "do_receipts_loop env cb m1 friendnumber (next_receipt r) evs1 =
           Some (drained env m1 friendnumber as,
                 evs1 @ receipt_events m1 friendnumber (takeWhile (received env m1 friendnumber) as))"
    proof (rule Cons.IH)
      show "friendnumber < length (friendlist m1)" using Cons.prems by (simp add: m1_def)
      show "status (friendlist m1 ! friendnumber) \<noteq> 0" using Cons.prems by (simp add: m1_def)
      show "receipts_start (friendlist m1 ! friendnumber) = next_receipt r"
        using Cons.prems by (simp add: m1_def)
      show "chain (receipts_heap m1) (next_receipt r) as"
        using rest notin by (simp add: m1_def chain_upd_notin)
      show "distinct as" by (rule dist)
      show "\<And>i m'. cb friendnumber i m' = (m', [])" by (rule quiet)
    qed
    have d: "drained env m1 friendnumber as = drained env m friendnumber (a # as)"
      unfolding drained_def tw dw
      using True Cons.prems(1)
      by (auto simp: m1_def restrict_map_def fun_eq_iff)
    have c: "queue_content m1 (takeWhile (received env m friendnumber) as)
            = queue_content m (takeWhile (received env m friendnumber) as)"
      using notin by (auto simp: queue_content_def m1_def dest: set_takeWhileD)
    have e: "evs1 @ receipt_events m1 friendnumber (takeWhile (received env m1 friendnumber) as)
           = evs @ receipt_events m friendnumber (takeWhile (received env m friendnumber) (a # as))"
      using True by (simp add: receipt_events_def evs1_def tw c)
                    (simp add: queue_content_def r m1_def)
    show ?thesis by (simp only: step ih d e)
  qed
qed

lemma chain_restrict:
  "chain h p as \<Longrightarrow> set as \<inter> D = {} \<Longrightarrow> chain (h |` (- D)) p as"
  by (induction as arbitrary: p) (auto split: option.splits)

lemma chain_suffix:
  "chain h p (xs @ ys) \<Longrightarrow> chain h (case ys of [] \<Rightarrow> None | a # _ \<Rightarrow> Some a) ys"
proof (induction xs arbitrary: p)
  case Nil
  then show ?case by (cases ys) auto
next
  case (Cons x xs)
  then show ?case by (auto split: option.splits)
qed

lemma received_acked:
  assumes "chain (receipts_heap m) p as"
  shows "takeWhile (acked env m friendnumber) (queue_content m as)
           = queue_content m (takeWhile (received env m friendnumber) as)"
    and "dropWhile (acked env m friendnumber) (queue_content m as)
           = queue_content m (dropWhile (received env m friendnumber) as)"
proof -
  have eq: "received env m friendnumber a
        = (acked env m friendnumber \<circ> (\<lambda>a. case receipts_heap m a of
                 None \<Rightarrow> (0, 0)
               | Some r \<Rightarrow> (packet_num r, msg_id r))) a" if "a \<in> set as" for a
    using chain_allocated [OF assms that]
    by (auto simp: received_def acked_def split: option.splits)
  have t: "takeWhile (received env m friendnumber) as = takeWhile (acked env m friendnumber \<circ> (\<lambda>a. case receipts_heap m a of
                 None \<Rightarrow> (0, 0)
               | Some r \<Rightarrow> (packet_num r, msg_id r))) as"
    by (rule takeWhile_cong) (simp_all only: eq)
  have d: "dropWhile (received env m friendnumber) as = dropWhile (acked env m friendnumber \<circ> (\<lambda>a. case receipts_heap m a of
                 None \<Rightarrow> (0, 0)
               | Some r \<Rightarrow> (packet_num r, msg_id r))) as"
    by (rule dropWhile_cong) (simp_all only: eq)
  show "takeWhile (acked env m friendnumber) (queue_content m as)
           = queue_content m (takeWhile (received env m friendnumber) as)"
    unfolding t queue_content_def by (simp only: takeWhile_map)
  show "dropWhile (acked env m friendnumber) (queue_content m as)
           = queue_content m (dropWhile (received env m friendnumber) as)"
    unfolding d queue_content_def by (simp only: dropWhile_map)
qed

lemma do_receipts_queue:
  assumes len: "friendnumber < length (friendlist m)"
    and st: "status (friendlist m ! friendnumber) \<noteq> 0"
    and q: "receipt_queue m friendnumber as"
    and quiet: "\<And>i m'. cb friendnumber i m' = (m', [])"
  shows "\<exists>m'. do_receipts env cb m friendnumber =
             Some (0, m', receipt_events m friendnumber (takeWhile (received env m friendnumber) as))
           \<and> receipt_queue m' friendnumber (dropWhile (received env m friendnumber) as)
           \<and> queue_content m' (dropWhile (received env m friendnumber) as)
               = queue_content m (dropWhile (received env m friendnumber) as)"
proof -
  let ?R = "received env m friendnumber"
  let ?d = "drained env m friendnumber as"
  let ?m' = "if receipts_start (friendlist ?d ! friendnumber) = None
             then ?d\<lparr>friendlist := (friendlist ?d)
                     [friendnumber := (friendlist ?d ! friendnumber)\<lparr>receipts_end := None\<rparr>]\<rparr>
             else ?d"
  have ch: "chain (receipts_heap m) (receipts_start (friendlist m ! friendnumber)) as"
    and dist: "distinct as"
    and e: "as = [] \<or> receipts_end (friendlist m ! friendnumber) = Some (last as)"
    using q by (simp_all add: receipt_queue_def)
  have valid: "\<not> friend_not_valid m friendnumber"
    using len st by (simp add: friend_not_valid_def)
  have loop: "do_receipts_loop env cb m friendnumber (receipts_start (friendlist m ! friendnumber)) []
                = Some (?d, receipt_events m friendnumber (takeWhile ?R as))"
    using do_receipts_loop_drains [where cb = cb and env = env and evs = "[]", OF len st refl ch dist quiet]
    by simp
  have run: "do_receipts env cb m friendnumber =
               Some (0, ?m', receipt_events m friendnumber (takeWhile ?R as))"
    by (simp add: do_receipts_def valid loop)
  have split: "as = takeWhile ?R as @ dropWhile ?R as" by simp
  have disj: "set (dropWhile ?R as) \<inter> set (takeWhile ?R as) = {}"
    using dist by (metis distinct_append inf_commute split)
  have ch_rest: "chain (receipts_heap m) (case dropWhile ?R as of [] \<Rightarrow> None | a # _ \<Rightarrow> Some a)
                   (dropWhile ?R as)"
    using chain_suffix [of "receipts_heap m" _ "takeWhile ?R as" "dropWhile ?R as"] ch by simp
  have ch': "chain (receipts_heap ?d) (receipts_start (friendlist ?d ! friendnumber)) (dropWhile ?R as)"
    using chain_restrict [OF ch_rest disj] len by (simp add: drained_def)
  have start': "receipts_start (friendlist ?d ! friendnumber)
                  = (case dropWhile ?R as of [] \<Rightarrow> None | a # _ \<Rightarrow> Some a)"
    using len by (simp add: drained_def)
  have end': "dropWhile ?R as = [] \<or> receipts_end (friendlist ?d ! friendnumber) = Some (last (dropWhile ?R as))"
  proof (cases "dropWhile ?R as = []")
    case True then show ?thesis by simp
  next
    case False
    then have "as \<noteq> []" by auto
    moreover have "last as = last (dropWhile ?R as)"
      using False by (metis last_appendR split)
    ultimately show ?thesis using e len by (simp add: drained_def)
  qed
  have len_d: "friendnumber < length (friendlist ?d)"
    using len by (simp add: drained_def)
  have q': "receipt_queue ?m' friendnumber (dropWhile ?R as)"
  proof (cases "dropWhile ?R as")
    case Nil
    have none: "receipts_start (friendlist ?d ! friendnumber) = None"
      unfolding start' Nil by simp
    show ?thesis unfolding Nil using none len_d by (simp add: receipt_queue_def)
  next
    case (Cons a list)
    have some: "receipts_start (friendlist ?d ! friendnumber) = Some a"
      unfolding start' Cons by simp
    have ne: "dropWhile ?R as \<noteq> []" unfolding Cons by simp
    have "receipt_queue ?d friendnumber (dropWhile ?R as)"
      unfolding receipt_queue_def using ch' end' dist ne by (intro conjI distinct_dropWhile) simp_all
    then show ?thesis by (simp only: some option.simps if_False)
  qed
  have c': "queue_content ?m' (dropWhile ?R as) = queue_content m (dropWhile ?R as)"
    using disj by (auto simp: queue_content_def drained_def restrict_map_def)
  show ?thesis using run q' c' by blast
qed

lemma chain_snoc:
  assumes "chain h p as" and "as \<noteq> []" and "distinct as" and "new \<notin> set as"
    and "h (last as) = Some r"
  shows "chain (h(last as \<mapsto> r\<lparr>next_receipt := Some new\<rparr>,
                  new \<mapsto> \<lparr>packet_num = pn, msg_id = mid, next_receipt = None\<rparr>)) p (as @ [new])"
  using assms
proof (induction as arbitrary: p)
  case Nil
  then show ?case by simp
next
  case (Cons a as)
  show ?case
  proof (cases "as = []")
    case True
    then show ?thesis using Cons.prems by (auto split: option.splits)
  next
    case False
    then show ?thesis using Cons.prems Cons.IH
      by (auto split: option.splits)
  qed
qed

lemma add_receipt_queue:
  assumes len: "friendnumber < length (friendlist m)"
    and st: "status (friendlist m ! friendnumber) \<noteq> 0"
    and q: "receipt_queue m friendnumber as"
    and c: "calloc env = Some new"
    and fresh: "receipts_heap m new = None"
  shows "\<exists>m'. add_receipt env m friendnumber pn mid = (0, m')
           \<and> receipt_queue m' friendnumber (as @ [new])
           \<and> queue_content m' (as @ [new]) = queue_content m as @ [(pn, mid)]"
proof -
  have ch: "chain (receipts_heap m) (receipts_start (friendlist m ! friendnumber)) as"
    and dist: "distinct as"
    and e: "as = [] \<or> receipts_end (friendlist m ! friendnumber) = Some (last as)"
    using q by (simp_all add: receipt_queue_def)
  have valid: "\<not> friend_not_valid m friendnumber"
    using len st by (simp add: friend_not_valid_def)
  have notin: "new \<notin> set as"
  proof
    assume "new \<in> set as"
    from chain_allocated [OF ch this] fresh show False by simp
  qed
  show ?thesis
  proof (cases "as = []")
    case True
    then have s: "receipts_start (friendlist m ! friendnumber) = None" using ch by simp
    show ?thesis
      using True len
      by (simp add: add_receipt_def valid c s set_next_def Let_def receipt_queue_def
          queue_content_def)
  next
    case False
    then obtain a0 where s: "receipts_start (friendlist m ! friendnumber) = Some a0"
      using ch by (cases as) auto
    have en: "receipts_end (friendlist m ! friendnumber) = Some (last as)" using e False by simp
    obtain r where r: "receipts_heap m (last as) = Some r"
      using chain_allocated [OF ch, of "last as"] False by auto
    have ne: "last as \<noteq> new" using notin False last_in_set by metis
    let ?h = "(receipts_heap m)(last as \<mapsto> r\<lparr>next_receipt := Some new\<rparr>,
                  new \<mapsto> \<lparr>packet_num = pn, msg_id = mid, next_receipt = None\<rparr>)"
    let ?m' = "m\<lparr>friendlist := (friendlist m)
                 [friendnumber := (friendlist m ! friendnumber)\<lparr>receipts_end := Some new\<rparr>],
               receipts_heap := ?h\<rparr>"
    have h2: "set_next (set_next ((receipts_heap m)
                      (new \<mapsto> \<lparr>packet_num = pn, msg_id = mid, next_receipt = None\<rparr>))
                 (Some (last as)) (Some new)) (Some new) None = ?h"
      using ne r by (auto simp: set_next_def fun_eq_iff)
    have run: "add_receipt env m friendnumber pn mid = (0, ?m')"
      by (simp add: add_receipt_def valid c en Let_def s) (simp add: h2)
    have ch': "chain ?h (receipts_start (friendlist m ! friendnumber)) (as @ [new])"
      by (rule chain_snoc [OF ch False dist notin r])
    have q': "receipt_queue ?m' friendnumber (as @ [new])"
      using ch' dist notin len by (simp add: receipt_queue_def)
    have c': "queue_content ?m' (as @ [new]) = queue_content m as @ [(pn, mid)]"
      using notin r by (auto simp: queue_content_def)
    show ?thesis using run q' c' by blast
  qed
qed

text \<open>The queue under an application whose \<^verbatim>\<open>read_receipt\<close> function leaves the
  messenger alone. When the pointers of a valid friend stand for a queue (nodes \<open>as\<close>
  chained from \<^verbatim>\<open>receipts_start\<close> to \<^verbatim>\<open>NULL\<close>, \<^verbatim>\<open>receipts_end\<close> at the last one):
  \<^verbatim>\<open>add_receipt\<close>, given a fresh node by \<^verbatim>\<open>calloc\<close>, returns 0 and leaves the queue with
  \<open>(packet_num, msg_id)\<close> appended at the tail; \<^verbatim>\<open>do_receipts\<close> returns 0, pops exactly the
  longest prefix of entries whose packet number the transport reports received, calls
  \<^verbatim>\<open>read_receipt\<close> (when one is registered) once per popped entry in queue order, and
  leaves the entries from the first unacknowledged one on as the queue, unchanged.\<close>

lemma receipt_queue_quiet_callback:
  assumes "friendnumber < length (friendlist m)"
    and "status (friendlist m ! friendnumber) \<noteq> 0"
    and "receipt_queue m friendnumber as"
    and quiet: "\<And>i m'. cb friendnumber i m' = (m', [])"
  shows "(calloc env = Some new \<and> receipts_heap m new = None \<longrightarrow>
            (\<exists>m'. add_receipt env m friendnumber pn mid = (0, m')
                \<and> receipt_queue m' friendnumber (as @ [new])
                \<and> queue_content m' (as @ [new]) = queue_content m as @ [(pn, mid)]))
       \<and> (\<exists>m' as'.
             do_receipts env cb m friendnumber =
               Some (0, m',
                     if read_receipt m
                     then map (\<lambda>entry. Read_receipt friendnumber (snd entry))
                            (takeWhile (acked env m friendnumber) (queue_content m as))
                     else [])
             \<and> receipt_queue m' friendnumber as'
             \<and> queue_content m' as' = dropWhile (acked env m friendnumber) (queue_content m as))"
proof (intro conjI impI)
  assume "calloc env = Some new \<and> receipts_heap m new = None"
  then show "\<exists>m'. add_receipt env m friendnumber pn mid = (0, m')
                \<and> receipt_queue m' friendnumber (as @ [new])
                \<and> queue_content m' (as @ [new]) = queue_content m as @ [(pn, mid)]"
    using add_receipt_queue [OF assms(1-3), of env new pn mid] by simp
next
  have ch: "chain (receipts_heap m) (receipts_start (friendlist m ! friendnumber)) as"
    using assms(3) by (simp add: receipt_queue_def)
  have ev: "receipt_events m friendnumber (takeWhile (received env m friendnumber) as)
          = (if read_receipt m
             then map (\<lambda>entry. Read_receipt friendnumber (snd entry))
                    (takeWhile (acked env m friendnumber) (queue_content m as))
             else [])"
    by (simp add: receipt_events_def received_acked(1) [OF ch])
  from do_receipts_queue [where cb = cb and env = env, OF assms(1-3) quiet]
  obtain m' where "do_receipts env cb m friendnumber =
             Some (0, m', receipt_events m friendnumber (takeWhile (received env m friendnumber) as))"
    and "receipt_queue m' friendnumber (dropWhile (received env m friendnumber) as)"
    and "queue_content m' (dropWhile (received env m friendnumber) as)
               = queue_content m (dropWhile (received env m friendnumber) as)"
    by blast
  then show "\<exists>m' as'.
             do_receipts env cb m friendnumber =
               Some (0, m',
                     if read_receipt m
                     then map (\<lambda>entry. Read_receipt friendnumber (snd entry))
                            (takeWhile (acked env m friendnumber) (queue_content m as))
                     else [])
             \<and> receipt_queue m' friendnumber as'
             \<and> queue_content m' as' = dropWhile (acked env m friendnumber) (queue_content m as)"
    unfolding ev received_acked(2) [OF ch] by blast
qed

lemma receipt_queue_quiet_callback_example:
  "(\<exists>m'. add_receipt (ex_env\<lparr>calloc := Some 2\<rparr>) ex_queue_messenger 0 7 3 = (0, m')
        \<and> receipt_queue m' 0 [0, 1, 2]
        \<and> queue_content m' [0, 1, 2] = [(5, 1), (200, 2), (7, 3)])
   \<and> (\<exists>m' as'. do_receipts (ex_env\<lparr>calloc := Some 2\<rparr>) ex_quiet ex_queue_messenger 0
                   = Some (0, m', [Read_receipt 0 1])
        \<and> receipt_queue m' 0 as'
        \<and> queue_content m' as' = [(200, 2)])"
  using receipt_queue_quiet_callback
          [of 0 ex_queue_messenger "[0, 1]" ex_quiet "ex_env\<lparr>calloc := Some 2\<rparr>" 2 7 3]
  by (simp add: ex_queue_messenger_def ex_online_friend_def zero_Friend_def ex_env_def
      ex_device_def FRIEND_ONLINE_def receipt_queue_def queue_content_def acked_def
      friend_received_packet_def friend_not_valid_def ex_quiet_def)

text \<open>C4 (failing input). Friend 0 is Online with one receipt queued, for message 1 in
  packet 5, which the transport reports received; the registered \<^verbatim>\<open>read_receipt\<close> function
  answers a receipt by sending a message to the same friend. \<^verbatim>\<open>do_receipts\<close> reads
  \<^verbatim>\<open>receipts->next\<close>, which is \<^verbatim>\<open>NULL\<close>, before it calls the function. The call sends
  message 2: \<^verbatim>\<open>add_receipt\<close> links node 7, holding packet 100 and message 2, behind the
  node being popped and moves \<^verbatim>\<open>receipts_end\<close> to it. The loop then frees the popped node
  and stores the \<^verbatim>\<open>NULL\<close> it read earlier in \<^verbatim>\<open>receipts_start\<close>, and \<^verbatim>\<open>receipts_end\<close>
  is reset: the friend's queue is empty while node 7 stays allocated, and a later
  \<^verbatim>\<open>do_receipts\<close>, run when the transport reports every packet received, makes no call for
  message 2. With two receipts queued the same send, made while the first one is popped,
  is appended behind the second: the queue is then \<open>(200, 2), (100, 3)\<close>.\<close>

theorem C4_receipt_lost_in_callback:
  "(case do_receipts ex_reply_env ex_reply ex_single_receipt 0 of
      None \<Rightarrow> False
    | Some (ret, m', evs) \<Rightarrow>
        ret = 0 \<and> evs = [Read_receipt 0 1]
        \<and> message_id (friendlist m' ! 0) = 2
        \<and> receipts_heap m' 7 = Some \<lparr>packet_num = 100, msg_id = 2, next_receipt = None\<rparr>
        \<and> receipts_start (friendlist m' ! 0) = None
        \<and> receipts_end (friendlist m' ! 0) = None
        \<and> (case do_receipts (ex_reply_env\<lparr>cryptpacket_received := (\<lambda>c n. 0)\<rparr>) ex_reply m' 0 of
              None \<Rightarrow> False
            | Some (ret', m'', evs') \<Rightarrow> ret' = 0 \<and> evs' = []))
   \<and> (case do_receipts ex_reply_env ex_reply ex_two_receipts 0 of
        None \<Rightarrow> False
      | Some (ret, m', evs) \<Rightarrow>
          ret = 0 \<and> evs = [Read_receipt 0 1]
          \<and> receipt_queue m' 0 [1, 7]
          \<and> queue_content m' [1, 7] = [(200, 2), (100, 3)])"
  by code_simp

subsection \<open>The friend table: the slot \<^verbatim>\<open>init_new_friend\<close> takes\<close>

lemma find_nofriend_least:
  assumes "find_nofriend fl k = Some i"
  shows "k \<le> i \<and> i < k + length fl \<and> status (fl ! (i - k)) = NOFRIEND
         \<and> (\<forall>j < i - k. status (fl ! j) \<noteq> NOFRIEND)"
  using assms
proof (induction fl arbitrary: k)
  case Nil
  then show ?case by simp
next
  case (Cons f fl)
  show ?case
  proof (cases "status f = NOFRIEND")
    case True
    then show ?thesis using Cons.prems by simp
  next
    case False
    then have "find_nofriend fl (Suc k) = Some i" using Cons.prems by simp
    from Cons.IH [OF this]
    have le: "Suc k \<le> i" and lt: "i < Suc k + length fl"
      and free: "status (fl ! (i - Suc k)) = NOFRIEND"
      and used: "\<forall>j < i - Suc k. status (fl ! j) \<noteq> NOFRIEND"
      by simp_all
    have d: "i - k = Suc (i - Suc k)" using le by simp
    have "status ((f # fl) ! j) \<noteq> NOFRIEND" if "j < i - k" for j
      using that False used d by (cases j) simp_all
    then show ?thesis using le lt free d by simp
  qed
qed

lemma find_nofriend_zeroed: "\<exists>i. find_nofriend (fl @ [zero_Friend]) k = Some i"
  by (induction fl arbitrary: k) (auto simp: zero_Friend_def NOFRIEND_def)

lemma init_new_friend_slot:
  assumes "init_new_friend env m pk st = (Inr i, m')"
  shows "i < length (friendlist m') \<and> i \<le> length (friendlist m)
       \<and> length (friendlist m') = (if i = length (friendlist m) then i + 1 else length (friendlist m))
       \<and> find_nofriend (friendlist m @ [zero_Friend]) 0 = Some i
       \<and> friendlist m' ! i = ((friendlist m @ [zero_Friend]) ! i)
                         \<lparr>status := st, friendrequest_lastsent := 0,
                          statusmessage_length := 0, userstatus := 0, is_typing := 0,
                          message_id := 0,
                          dev_list :=
                            [\<lparr>dev_status = (if toxconn_is_connected env (new_tox_conn env pk)
                                             then FDEV_ONLINE else FDEV_CONFIRMED),
                              friendcon_id = new_tox_conn env pk,
                              real_pk = take crypto_box_PUBLICKEYBYTES pk\<rparr>]\<rparr>
       \<and> (\<forall>j. j \<noteq> i \<longrightarrow> j < length (friendlist m) \<longrightarrow> friendlist m' ! j = friendlist m ! j)
       \<and> receipts_heap m' = receipts_heap m"
proof -
  from assms have ff: "find_nofriend (friendlist m @ [zero_Friend]) 0 = Some i"
    by (auto simp: init_new_friend_def Let_def split: if_splits option.splits)
  from find_nofriend_least [OF ff] have le: "i \<le> length (friendlist m)" by simp
  show ?thesis
    using assms le ff
    by (auto simp: init_new_friend_def Let_def nth_append split: if_splits option.splits)
qed

lemma init_new_friend_message_id:
  assumes "init_new_friend env m pk st = (Inr i, m')"
  shows "message_id (friendlist m' ! i) = 0"
  using init_new_friend_slot [OF assms] by simp

subsection \<open>C3 and C10: message ids\<close>

lemma add_receipt_message_id:
  "message_id (friendlist (snd (add_receipt env m friendnumber pn mid)) ! friendnumber)
     = message_id (friendlist m ! friendnumber)"
  by (cases "friendnumber < length (friendlist m)")
     (auto simp: add_receipt_def friend_not_valid_def Let_def split: option.splits)

lemma send_to_devices_failed:
  "send_to_devices env devs pn = - 1 \<longleftrightarrow>
     pn = - 1 \<and> (\<forall>dev \<in> set devs. dev_status dev = FDEV_ONLINE \<longrightarrow>
                    write_cryptpacket env (friendcon_id dev) = - 1)"
  by (induction devs arbitrary: pn) (auto simp: Let_def)

lemma send_message_cases:
  assumes "m_send_message_generic env m friendnumber type message = (ret, out, m')"
  shows "(ret \<noteq> 0 \<and> out = None \<and> m' = m)
       \<or> (ret = 0 \<and> out = Some (message_id (friendlist m ! friendnumber) + 1)
            \<and> message_id (friendlist m' ! friendnumber)
                = message_id (friendlist m ! friendnumber) + 1)"
proof (cases "ret = 0")
  case True
  then have ok: "\<not> friend_not_valid m friendnumber"
    using assms by (auto simp: m_send_message_generic_def Let_def split: if_splits)
  then have len: "friendnumber < length (friendlist m)"
    by (auto simp: friend_not_valid_def split: if_splits)
  show ?thesis
    using assms True len
    by (auto simp: m_send_message_generic_def Let_def add_receipt_message_id split: if_splits)
next
  case False
  then show ?thesis
    using assms by (auto simp: m_send_message_generic_def Let_def split: if_splits)
qed

lemma send_messages_ids:
  assumes "send_messages m friendnumber calls = (ids, m')"
  shows "ids = map (\<lambda>k. message_id (friendlist m ! friendnumber) + of_nat (Suc k)) [0..<length ids]
       \<and> message_id (friendlist m' ! friendnumber)
           = message_id (friendlist m ! friendnumber) + of_nat (length ids)"
  using assms
proof (induction calls arbitrary: m ids m')
  case Nil
  then show ?case by simp
next
  case (Cons call calls)
  obtain env type message where call: "call = (env, type, message)" by (cases call) auto
  obtain ret out m1 where step: "m_send_message_generic env m friendnumber type message = (ret, out, m1)"
    by (cases "m_send_message_generic env m friendnumber type message") auto
  obtain ids1 m2 where rest: "send_messages m1 friendnumber calls = (ids1, m2)"
    by (cases "send_messages m1 friendnumber calls") auto
  have ih: "ids1 = map (\<lambda>k. message_id (friendlist m1 ! friendnumber) + of_nat (Suc k)) [0..<length ids1]
       \<and> message_id (friendlist m2 ! friendnumber)
           = message_id (friendlist m1 ! friendnumber) + of_nat (length ids1)"
    by (rule Cons.IH [OF rest])
  have res: "ids = (case out of None \<Rightarrow> ids1 | Some i \<Rightarrow> i # ids1)" and m': "m' = m2"
    using Cons.prems by (simp_all add: call step rest)
  from send_message_cases [OF step] show ?case
  proof
    assume "ret \<noteq> 0 \<and> out = None \<and> m1 = m"
    then show ?thesis using ih res m' by simp
  next
    assume a: "ret = 0 \<and> out = Some (message_id (friendlist m ! friendnumber) + 1)
            \<and> message_id (friendlist m1 ! friendnumber)
                = message_id (friendlist m ! friendnumber) + 1"
    let ?c = "message_id (friendlist m ! friendnumber)"
    have ids: "ids = (?c + 1) # ids1" using a res by simp
    have eq: "(?c + 1) + of_nat (Suc k) = ?c + of_nat (Suc (Suc k))" for k
      by (simp add: algebra_simps)
    have m1c: "message_id (friendlist m1 ! friendnumber) = ?c + 1" using a by simp
    have i1: "ids1 = map (\<lambda>k. ?c + of_nat (Suc (Suc k))) [0..<length ids1]"
      using ih unfolding m1c eq by simp
    have m2c: "message_id (friendlist m2 ! friendnumber) = ?c + of_nat (Suc (length ids1))"
      using ih unfolding m1c by (simp add: algebra_simps)
    have "map (\<lambda>k. ?c + of_nat (Suc k)) [0..<length ids]
          = (?c + 1) # map (\<lambda>k. ?c + of_nat (Suc (Suc k))) [0..<length ids1]"
      unfolding ids by (simp add: upt_rec [of 0] map_Suc_upt [symmetric] del: upt_Suc)
    then have "ids = map (\<lambda>k. ?c + of_nat (Suc k)) [0..<length ids]"
      using i1 ids by simp
    then show ?thesis using m2c m' ids by simp
  qed
qed

lemma word_run_sorted:
  fixes c :: u32
  assumes "unat c + n < 2 ^ 32"
  shows "sorted_wrt (<) (c # map (\<lambda>k. c + of_nat (Suc k)) [0..<n])"
proof -
  have u: "unat (c + of_nat k) = unat c + k" if "k \<le> n" for k
    using that assms by (simp add: unat_word_ariths unat_of_nat)
  have "sorted_wrt (\<lambda>j k. c + of_nat j < c + of_nat k) [0..<Suc n]"
    by (rule sorted_wrt_mono_rel [OF _ sorted_wrt_upt]) (auto simp: word_less_nat_alt u)
  then have "sorted_wrt (<) (map (\<lambda>k. c + of_nat k) [0..<Suc n])"
    by (simp only: sorted_wrt_map)
  moreover have "map (\<lambda>k. c + of_nat k) [0..<Suc n] = c # map (\<lambda>k. c + of_nat (Suc k)) [0..<n]"
    by (simp add: upt_rec [of 0] map_Suc_upt [symmetric] del: upt_Suc)
  ultimately show ?thesis by simp
qed

text \<open>C3 (counterexample). A friend whose counter stands at \<open>2^32 - 2\<close>: two successful
  sends hand out \<open>2^32 - 1\<close> and then \<open>0\<close>. The second id is not greater than the first, and
  the next send after it hands out \<open>1\<close>, the id of the friend's first message, again.\<close>

theorem C3_message_id_counterexample:
  "fst (send_messages (ex_counter_messenger 4294967294) 0
          [(ex_env, 0, []), (ex_env\<lparr>calloc := Some 1\<rparr>, 0, []), (ex_env\<lparr>calloc := Some 2\<rparr>, 0, [])])
     = [4294967295, 0, 1]
   \<and> \<not> ((4294967295 :: u32) < 0)"
  by (simp add: m_send_message_generic_def add_receipt_def set_next_def friend_not_valid_def
      ex_counter_messenger_def ex_messenger_def ex_online_friend_def zero_Friend_def ex_env_def
      ex_device_def FRIEND_ONLINE_def FDEV_ONLINE_def MESSAGE_ACTION_def Let_def)

text \<open>C3 (amended). The counter \<^verbatim>\<open>message_id\<close> of a friend is 0 when \<^verbatim>\<open>init_new_friend\<close> has
  created the friend, and across any run of \<^verbatim>\<open>m_send_message_generic\<close> calls to the friend
  the successful ones hand out, in order, the counter plus 1, plus 2, and so on, modulo
  \<open>2^32\<close> (so the first successful send to a new friend returns 1), the last id handed out
  being the new counter. As long as the counter does not pass \<open>2^32 - 1\<close> the ids are
  strictly increasing, and so none is reused.\<close>

theorem C3_message_id_sequence:
  assumes "send_messages m friendnumber calls = (ids, m')"
  shows "ids = map (\<lambda>k. message_id (friendlist m ! friendnumber) + of_nat (Suc k))
                 [0..<length ids]
       \<and> message_id (friendlist m' ! friendnumber)
           = message_id (friendlist m ! friendnumber) + of_nat (length ids)
       \<and> (unat (message_id (friendlist m ! friendnumber)) + length ids < 2 ^ 32 \<longrightarrow>
            sorted_wrt (<) (message_id (friendlist m ! friendnumber) # ids) \<and> distinct ids)
       \<and> (init_new_friend env0 m0 pk st = (Inr friendnumber, m) \<longrightarrow>
            message_id (friendlist m ! friendnumber) = 0)"
proof -
  let ?c = "message_id (friendlist m ! friendnumber)"
  have run: "ids = map (\<lambda>k. ?c + of_nat (Suc k)) [0..<length ids]
       \<and> message_id (friendlist m' ! friendnumber) = ?c + of_nat (length ids)"
    by (rule send_messages_ids [OF assms])
  have inc: "sorted_wrt (<) (?c # ids) \<and> distinct ids" if "unat ?c + length ids < 2 ^ 32"
  proof -
    have s: "sorted_wrt (<) (?c # map (\<lambda>k. ?c + of_nat (Suc k)) [0..<length ids])"
      by (rule word_run_sorted [OF that])
    have ids_eq: "map (\<lambda>k. ?c + of_nat (Suc k)) [0..<length ids] = ids"
      using conjunct1 [OF run] by (rule sym)
    have s': "sorted_wrt (<) (?c # ids)" using s by (simp only: ids_eq)
    then have "sorted_wrt (<) ids" by simp
    then have "distinct ids" by (simp add: strict_sorted_iff)
    then show ?thesis using s' by simp
  qed
  have new: "?c = 0" if "init_new_friend env0 m0 pk st = (Inr friendnumber, m)"
    by (rule init_new_friend_message_id [OF that])
  show ?thesis using run inc new by blast
qed

theorem C3_message_id_sequence_witness:
  "\<exists>m'. send_messages (ex_counter_messenger 0) 0
           [(ex_env, 0, []), (ex_env\<lparr>write_cryptpacket := (\<lambda>c. - 1)\<rparr>, 0, []),
            (ex_env\<lparr>calloc := Some 1\<rparr>, 1, [])] = ([1, 2], m')
        \<and> message_id (friendlist m' ! 0) = 2
        \<and> sorted_wrt (<) [0, 1, 2 :: u32] \<and> distinct [1, 2 :: u32]
        \<and> init_new_friend (ex_env\<lparr>toxconn_is_connected := (\<lambda>c. True)\<rparr>) (ex_messenger [])
             (ex_pk 1) FRIEND_ONLINE = (Inr 0, ex_counter_messenger 0)
        \<and> message_id (friendlist (ex_counter_messenger 0) ! 0) = 0"
proof -
  let ?calls = "[(ex_env, 0, []), (ex_env\<lparr>write_cryptpacket := (\<lambda>c. - 1)\<rparr>, 0, []),
       (ex_env\<lparr>calloc := Some 1\<rparr>, 1 :: nat, [] :: u8 list)]"
  have "fst (send_messages (ex_counter_messenger 0) 0 ?calls) = [1, 2]"
    by (simp add: m_send_message_generic_def add_receipt_def set_next_def friend_not_valid_def
      ex_counter_messenger_def ex_messenger_def ex_online_friend_def zero_Friend_def ex_env_def
      ex_device_def FRIEND_ONLINE_def FDEV_ONLINE_def MESSAGE_ACTION_def Let_def)
  then obtain m' where run: "send_messages (ex_counter_messenger 0) 0 ?calls = ([1, 2], m')"
    by (metis prod.collapse)
  have new: "init_new_friend (ex_env\<lparr>toxconn_is_connected := (\<lambda>c. True)\<rparr>) (ex_messenger [])
             (ex_pk 1) FRIEND_ONLINE = (Inr 0, ex_counter_messenger 0)"
    by (simp add: init_new_friend_def realloc_friendlist_def ex_env_def ex_messenger_def
        ex_counter_messenger_def ex_online_friend_def zero_Friend_def ex_device_def ex_pk_def
        NOFRIEND_def FDEV_ONLINE_def FDEV_CONFIRMED_def crypto_box_PUBLICKEYBYTES_def Let_def)
  note inst = C3_message_id_sequence
      [OF run, of "ex_env\<lparr>toxconn_is_connected := (\<lambda>c. True)\<rparr>" "ex_messenger []" "ex_pk 1"
         FRIEND_ONLINE]
  have c: "message_id (friendlist (ex_counter_messenger 0) ! 0) = 0"
    using inst new by blast
  have "message_id (friendlist m' ! 0) = 2"
    using inst by (simp add: c)
  then show ?thesis using run new c by simp
qed

text \<open>C10. \<^verbatim>\<open>m_send_message_generic\<close> changes nothing when it fails. It returns 0 or one
  of \<open>-1, \<dots>, -5\<close>; on every return other than 0 the messenger (so the friend's
  \<^verbatim>\<open>message_id\<close> and receipt chain) is exactly as before and no id is handed out. It returns
  0 exactly when the type is valid, the friend is valid, the message is short enough, the
  friend is Online and the write to at least one Online device did not fail; only then is
  \<^verbatim>\<open>message_id\<close> incremented (and \<^verbatim>\<open>add_receipt\<close> called).\<close>

theorem C10_send_message_atomic:
  assumes "m_send_message_generic env m friendnumber type message = (ret, out, m')"
  shows "(ret \<noteq> 0 \<longrightarrow> m' = m \<and> out = None)
       \<and> ret \<in> {0, - 1, - 2, - 3, - 4, - 5}
       \<and> (ret = 0 \<longleftrightarrow>
            type \<le> MESSAGE_ACTION \<and> \<not> friend_not_valid m friendnumber
            \<and> length message < MAX_CRYPTO_DATA_SIZE env
            \<and> status (friendlist m ! friendnumber) = FRIEND_ONLINE
            \<and> (\<exists>dev \<in> set (dev_list (friendlist m ! friendnumber)).
                  dev_status dev = FDEV_ONLINE \<and> write_cryptpacket env (friendcon_id dev) \<noteq> - 1))
       \<and> (ret = 0 \<longrightarrow>
            out = Some (message_id (friendlist m ! friendnumber) + 1)
            \<and> message_id (friendlist m' ! friendnumber)
                = message_id (friendlist m ! friendnumber) + 1)"
proof -
  have codes: "ret \<in> {0, - 1, - 2, - 3, - 4, - 5}"
    using assms by (auto simp: m_send_message_generic_def Let_def split: if_splits)
  have ok: "ret = 0 \<longleftrightarrow>
            type \<le> MESSAGE_ACTION \<and> \<not> friend_not_valid m friendnumber
            \<and> length message < MAX_CRYPTO_DATA_SIZE env
            \<and> status (friendlist m ! friendnumber) = FRIEND_ONLINE
            \<and> send_to_devices env (dev_list (friendlist m ! friendnumber)) (- 1) \<noteq> - 1"
    using assms by (auto simp: m_send_message_generic_def Let_def split: if_splits)
  have sent: "send_to_devices env (dev_list (friendlist m ! friendnumber)) (- 1) \<noteq> - 1 \<longleftrightarrow>
         (\<exists>dev \<in> set (dev_list (friendlist m ! friendnumber)).
                  dev_status dev = FDEV_ONLINE \<and> write_cryptpacket env (friendcon_id dev) \<noteq> - 1)"
    by (auto simp: send_to_devices_failed)
  show ?thesis
    using send_message_cases [OF assms] codes ok sent by blast
qed

theorem C10_send_message_atomic_witness:
  "m_send_message_generic (ex_env\<lparr>write_cryptpacket := (\<lambda>c. - 1)\<rparr>) (ex_counter_messenger 41) 0 0 []
     = (- 4, None, ex_counter_messenger 41)
   \<and> (\<exists>m'. m_send_message_generic ex_env (ex_counter_messenger 41) 0 0 [] = (0, Some 42, m')
          \<and> message_id (friendlist m' ! 0) = 42)"
proof -
  have fail: "m_send_message_generic (ex_env\<lparr>write_cryptpacket := (\<lambda>c. - 1)\<rparr>)
                (ex_counter_messenger 41) 0 0 [] = (- 4, None, ex_counter_messenger 41)"
    by (simp add: m_send_message_generic_def friend_not_valid_def
      ex_counter_messenger_def ex_messenger_def ex_online_friend_def zero_Friend_def ex_env_def
      ex_device_def FRIEND_ONLINE_def FDEV_ONLINE_def MESSAGE_ACTION_def Let_def)
  have "fst (m_send_message_generic ex_env (ex_counter_messenger 41) 0 0 []) = 0
      \<and> fst (snd (m_send_message_generic ex_env (ex_counter_messenger 41) 0 0 [])) = Some 42"
    by (simp add: m_send_message_generic_def friend_not_valid_def
      ex_counter_messenger_def ex_messenger_def ex_online_friend_def zero_Friend_def ex_env_def
      ex_device_def FRIEND_ONLINE_def FDEV_ONLINE_def MESSAGE_ACTION_def Let_def)
  then obtain m' where good: "m_send_message_generic ex_env (ex_counter_messenger 41) 0 0 []
     = (0, Some 42, m')"
    by (metis prod.collapse)
  have c: "message_id (friendlist (ex_counter_messenger 41) ! 0) = 41"
    by (simp add: ex_counter_messenger_def ex_messenger_def ex_online_friend_def zero_Friend_def)
  have "message_id (friendlist m' ! 0) = 42"
    using C10_send_message_atomic [OF good] by (simp add: c)
  moreover have "ex_counter_messenger 41 = ex_counter_messenger 41 \<and> (None :: u32 option) = None"
    using C10_send_message_atomic [OF fail] by simp
  ultimately show ?thesis using fail good by simp
qed

subsection \<open>C5 and C2: file control and seek\<close>

lemma pause_us_cleared:
  fixes p :: u8
  assumes "p AND FILE_PAUSE_US \<noteq> 0"
  shows "(p XOR FILE_PAUSE_US) AND FILE_PAUSE_US = 0"
    and "(p XOR FILE_PAUSE_US) AND FILE_PAUSE_OTHER = p AND FILE_PAUSE_OTHER"
proof -
  have one: "p AND 1 = 1"
    using assms by (simp add: FILE_PAUSE_US_def and_one_eq split: if_splits)
  have "(p XOR 1) AND 1 = (p AND 1) XOR (1 AND 1)"
    by (rule bit.conj_xor_distrib2)
  then show "(p XOR FILE_PAUSE_US) AND FILE_PAUSE_US = 0"
    by (simp add: FILE_PAUSE_US_def one)
  have "(p XOR 1) AND 2 = (p AND 2) XOR (1 AND 2)"
    by (rule bit.conj_xor_distrib2)
  then show "(p XOR FILE_PAUSE_US) AND FILE_PAUSE_OTHER = p AND FILE_PAUSE_OTHER"
    by (simp add: FILE_PAUSE_US_def FILE_PAUSE_OTHER_def)
qed

lemma file_slot_number:
  assumes "file_number < MAX_CONCURRENT_FILE_PIPES"
    and "filenumber = (if send_receive \<noteq> 0 then (file_number + 1) * 2 ^ 16 else file_number)"
  shows "(if filenumber \<ge> 2 ^ 16 then 1 else 0 :: nat) = (if send_receive \<noteq> 0 then 1 else 0)"
    and "(if filenumber \<ge> 2 ^ 16 then filenumber div 2 ^ 16 - 1 else filenumber) = file_number"
  using assms by (auto simp: MAX_CONCURRENT_FILE_PIPES_def)

lemma control_packet_sent:
  assumes "\<not> friend_not_valid m friendnumber"
    and "status (friendlist m ! friendnumber) = FRIEND_ONLINE"
    and "4 + data_length \<le> MAX_CRYPTO_DATA_SIZE env"
  shows "send_file_control_packet env m friendnumber data_length \<noteq> 0 \<longleftrightarrow>
           write_cryptpacket env (friendcon_id (dev_list (friendlist m ! friendnumber) ! 0)) \<noteq> - 1"
  using assms by (simp add: send_file_control_packet_def write_cryptpacket_id_def)

lemma file_control_accept:
  assumes valid: "\<not> friend_not_valid m friendnumber"
    and online: "status (friendlist m ! friendnumber) = FRIEND_ONLINE"
    and slot: "file_number < MAX_CONCURRENT_FILE_PIPES"
    and num: "filenumber = (if send_receive \<noteq> 0 then (file_number + 1) * 2 ^ 16 else file_number)"
    and ft: "get_ft m friendnumber send_receive file_number = ft"
    and some: "ft_status ft \<noteq> FILESTATUS_NONE"
  shows "file_control env m friendnumber filenumber FILECONTROL_ACCEPT =
           (if accept_refused ft (if send_receive \<noteq> 0 then 1 else 0) FILECONTROL_ACCEPT \<noteq> 0
            then (accept_refused ft (if send_receive \<noteq> 0 then 1 else 0) FILECONTROL_ACCEPT, m)
            else if send_file_control_packet env m friendnumber 0 \<noteq> 0
            then (0, set_ft m friendnumber send_receive file_number
                                (ft\<lparr>ft_status := FILESTATUS_TRANSFERRING,
                                    paused := (if paused ft AND FILE_PAUSE_US \<noteq> 0
                                               then paused ft XOR FILE_PAUSE_US
                                               else paused ft)\<rparr>))
            else (- 8, m))"
proof -
  have g: "get_ft m friendnumber (if send_receive \<noteq> 0 then 1 else 0) file_number = ft"
    using ft by (auto simp: get_ft_def)
  have s: "set_ft m friendnumber (if send_receive \<noteq> 0 then 1 else 0) file_number x
         = set_ft m friendnumber send_receive file_number x" for x
    by (simp add: set_ft_def)
  show ?thesis
    unfolding file_control_def Let_def file_slot_number [OF slot num] g s
    using valid online slot some
    by (simp add: FILECONTROL_ACCEPT_def FILECONTROL_KILL_def FILECONTROL_PAUSE_def)
qed

text \<open>C5. \<^verbatim>\<open>file_control\<close> with \<^verbatim>\<open>FILECONTROL_ACCEPT\<close> on an existing file slot of a valid,
  Online friend. On a receiving transfer that is NotAccepted the control packet is sent
  and, once it is written, the transfer is Transferring (when the write fails the call
  returns \<open>-8\<close> and nothing changes). On a Transferring transfer with PauseUs set the
  same happens and PauseUs is cleared, PauseOther staying as it was. On a Transferring
  transfer without PauseUs the call fails and changes nothing: with \<open>-6\<close> (not paused by
  us) when PauseOther is set, with \<open>-7\<close> (not paused) when no pause flag is set, as for
  a second Accept.\<close>

theorem C5_file_control_accept:
  assumes "\<not> friend_not_valid m friendnumber"
    and "status (friendlist m ! friendnumber) = FRIEND_ONLINE"
    and "file_number < MAX_CONCURRENT_FILE_PIPES"
    and "filenumber = (if send_receive \<noteq> 0 then (file_number + 1) * 2 ^ 16 else file_number)"
    and "get_ft m friendnumber send_receive file_number = ft"
    and "4 \<le> MAX_CRYPTO_DATA_SIZE env"
  shows "(send_receive \<noteq> 0 \<and> ft_status ft = FILESTATUS_NOT_ACCEPTED \<longrightarrow>
            file_control env m friendnumber filenumber FILECONTROL_ACCEPT =
              (if write_cryptpacket env
                    (friendcon_id (dev_list (friendlist m ! friendnumber) ! 0)) \<noteq> - 1
               then (0, set_ft m friendnumber send_receive file_number
                          (ft\<lparr>ft_status := FILESTATUS_TRANSFERRING,
                              paused := (if paused ft AND FILE_PAUSE_US \<noteq> 0
                                         then paused ft XOR FILE_PAUSE_US else paused ft)\<rparr>))
               else (- 8, m)))
       \<and> (ft_status ft = FILESTATUS_TRANSFERRING \<and> paused ft AND FILE_PAUSE_US \<noteq> 0 \<longrightarrow>
            file_control env m friendnumber filenumber FILECONTROL_ACCEPT =
              (if write_cryptpacket env
                    (friendcon_id (dev_list (friendlist m ! friendnumber) ! 0)) \<noteq> - 1
               then (0, set_ft m friendnumber send_receive file_number
                          (ft\<lparr>paused := paused ft XOR FILE_PAUSE_US\<rparr>))
               else (- 8, m))
            \<and> (paused ft XOR FILE_PAUSE_US) AND FILE_PAUSE_US = 0
            \<and> (paused ft XOR FILE_PAUSE_US) AND FILE_PAUSE_OTHER = paused ft AND FILE_PAUSE_OTHER)
       \<and> (ft_status ft = FILESTATUS_TRANSFERRING \<and> paused ft AND FILE_PAUSE_US = 0
            \<and> paused ft AND FILE_PAUSE_OTHER \<noteq> 0 \<longrightarrow>
            file_control env m friendnumber filenumber FILECONTROL_ACCEPT = (- 6, m))
       \<and> (ft_status ft = FILESTATUS_TRANSFERRING \<and> paused ft = FILE_PAUSE_NOT \<longrightarrow>
            file_control env m friendnumber filenumber FILECONTROL_ACCEPT = (- 7, m))"
proof -
  note sent = control_packet_sent [OF assms(1,2), of 0 env, simplified, OF assms(6)]
  have a: "file_control env m friendnumber filenumber FILECONTROL_ACCEPT =
              (if write_cryptpacket env
                    (friendcon_id (dev_list (friendlist m ! friendnumber) ! 0)) \<noteq> - 1
               then (0, set_ft m friendnumber send_receive file_number
                          (ft\<lparr>ft_status := FILESTATUS_TRANSFERRING,
                              paused := (if paused ft AND FILE_PAUSE_US \<noteq> 0
                                         then paused ft XOR FILE_PAUSE_US else paused ft)\<rparr>))
               else (- 8, m))"
    if "send_receive \<noteq> 0 \<and> ft_status ft = FILESTATUS_NOT_ACCEPTED"
    using that sent
    by (simp add: file_control_accept [OF assms(1-5)] accept_refused_def)
  have same: "ft\<lparr>ft_status := FILESTATUS_TRANSFERRING, paused := x\<rparr> = ft\<lparr>paused := x\<rparr>"
    if "ft_status ft = FILESTATUS_TRANSFERRING" for x
    using that by simp
  have b: "file_control env m friendnumber filenumber FILECONTROL_ACCEPT =
              (if write_cryptpacket env
                    (friendcon_id (dev_list (friendlist m ! friendnumber) ! 0)) \<noteq> - 1
               then (0, set_ft m friendnumber send_receive file_number
                          (ft\<lparr>paused := paused ft XOR FILE_PAUSE_US\<rparr>))
               else (- 8, m))"
    if "ft_status ft = FILESTATUS_TRANSFERRING \<and> paused ft AND FILE_PAUSE_US \<noteq> 0"
    using that sent
    by (simp add: file_control_accept [OF assms(1-5)] accept_refused_def same)
  have c: "file_control env m friendnumber filenumber FILECONTROL_ACCEPT = (- 6, m)"
    if "ft_status ft = FILESTATUS_TRANSFERRING \<and> paused ft AND FILE_PAUSE_US = 0
            \<and> paused ft AND FILE_PAUSE_OTHER \<noteq> 0"
    using that by (simp add: file_control_accept [OF assms(1-5)] accept_refused_def)
  have d: "file_control env m friendnumber filenumber FILECONTROL_ACCEPT = (- 7, m)"
    if "ft_status ft = FILESTATUS_TRANSFERRING \<and> paused ft = FILE_PAUSE_NOT"
    using that
    by (simp add: file_control_accept [OF assms(1-5)] accept_refused_def FILE_PAUSE_NOT_def)
  show ?thesis
    using a b c d pause_us_cleared [of "paused ft"] by blast
qed

theorem C5_file_control_accept_witness:
  "file_control ex_env (ex_receiving_messenger ex_offered_file) 0 65536 FILECONTROL_ACCEPT
     = (0, ex_receiving_messenger (ex_offered_file\<lparr>ft_status := FILESTATUS_TRANSFERRING\<rparr>))
   \<and> file_control ex_env
        (ex_receiving_messenger (ex_offered_file\<lparr>ft_status := FILESTATUS_TRANSFERRING\<rparr>))
        0 65536 FILECONTROL_ACCEPT
     = (- 7, ex_receiving_messenger (ex_offered_file\<lparr>ft_status := FILESTATUS_TRANSFERRING\<rparr>))"
  using C5_file_control_accept
          [of "ex_receiving_messenger ex_offered_file" 0 0 65536 1 ex_offered_file ex_env]
        C5_file_control_accept
          [of "ex_receiving_messenger (ex_offered_file\<lparr>ft_status := FILESTATUS_TRANSFERRING\<rparr>)"
              0 0 65536 1 "ex_offered_file\<lparr>ft_status := FILESTATUS_TRANSFERRING\<rparr>" ex_env]
  by (simp add: ex_receiving_messenger_def ex_offered_file_def ex_messenger_def
      ex_online_friend_def zero_Friend_def zero_File_Transfers_def ex_env_def ex_device_def
      friend_not_valid_def get_ft_def set_ft_def FRIEND_ONLINE_def MAX_CONCURRENT_FILE_PIPES_def
      FILE_PAUSE_US_def FILE_PAUSE_NOT_def)

text \<open>C2 (counterexample). A receiving transfer of size 100 that is NotAccepted, with
  \<open>transferred = requested = 0\<close> as the file send request left it: \<^verbatim>\<open>file_seek\<close> to
  position 5 succeeds and sets \<open>transferred\<close> to 5, but \<open>requested\<close> is still 0.\<close>

theorem C2_file_seek_counterexample:
  "file_seek ex_env (ex_receiving_messenger ex_offered_file) 0 65536 5
     = (0, ex_receiving_messenger (ex_offered_file\<lparr>transferred := 5\<rparr>))
   \<and> transferred (ex_offered_file\<lparr>transferred := 5\<rparr>) = 5
   \<and> requested (ex_offered_file\<lparr>transferred := 5\<rparr>) = 0
   \<and> requested (file_receiving (friendlist (snd
        (file_seek ex_env (ex_receiving_messenger ex_offered_file) 0 65536 5)) ! 0) 0) \<noteq> 5"
  by (simp add: file_seek_def send_file_control_packet_def write_cryptpacket_id_def
      ex_receiving_messenger_def ex_offered_file_def ex_messenger_def
      ex_online_friend_def zero_Friend_def zero_File_Transfers_def ex_env_def ex_device_def
      friend_not_valid_def get_ft_def set_ft_def FRIEND_ONLINE_def MAX_CONCURRENT_FILE_PIPES_def)

text \<open>C2 (amended). For a receiving file transfer in state NotAccepted of a valid, Online
  friend and a position \<open>p < size\<close>, \<^verbatim>\<open>file_seek\<close> sends the seek packet and, when it is
  written, returns 0 and leaves the local record with \<open>transferred = p\<close> and every other
  field, \<open>requested\<close> included, as it was (when the write fails it returns \<open>-8\<close> and changes
  nothing). With \<open>p \<ge> size\<close> the call fails with \<open>-6\<close> (bad position) and changes
  nothing.\<close>

theorem C2_file_seek:
  assumes "\<not> friend_not_valid m friendnumber"
    and "status (friendlist m ! friendnumber) = FRIEND_ONLINE"
    and "file_number < MAX_CONCURRENT_FILE_PIPES"
    and "filenumber = (file_number + 1) * 2 ^ 16"
    and "file_receiving (friendlist m ! friendnumber) file_number = ft"
    and "ft_status ft = FILESTATUS_NOT_ACCEPTED"
    and "12 \<le> MAX_CRYPTO_DATA_SIZE env"
  shows "(position < size_ft ft \<longrightarrow>
            file_seek env m friendnumber filenumber position =
              (if write_cryptpacket env
                    (friendcon_id (dev_list (friendlist m ! friendnumber) ! 0)) \<noteq> - 1
               then (0, set_ft m friendnumber 1 file_number (ft\<lparr>transferred := position\<rparr>))
               else (- 8, m)))
       \<and> (position \<ge> size_ft ft \<longrightarrow>
            file_seek env m friendnumber filenumber position = (- 6, m))
       \<and> (fst (file_seek env m friendnumber filenumber position) = 0 \<longrightarrow>
            file_receiving (friendlist (snd (file_seek env m friendnumber filenumber position))
                              ! friendnumber) file_number
              = ft\<lparr>transferred := position\<rparr>)"
proof -
  have len: "friendnumber < length (friendlist m)"
    using assms(1) by (auto simp: friend_not_valid_def split: if_splits)
  have n: "\<not> filenumber < 2 ^ 16" "filenumber div 2 ^ 16 - 1 = file_number"
    using assms(4) by simp_all
  have g: "get_ft m friendnumber 1 file_number = ft"
    using assms(5) by (simp add: get_ft_def)
  note sent = control_packet_sent [OF assms(1,2), of 8 env, simplified, OF assms(7)]
  have run: "file_seek env m friendnumber filenumber position =
          (if position \<ge> size_ft ft then (- 6, m)
           else if write_cryptpacket env
                    (friendcon_id (dev_list (friendlist m ! friendnumber) ! 0)) \<noteq> - 1
           then (0, set_ft m friendnumber 1 file_number (ft\<lparr>transferred := position\<rparr>))
           else (- 8, m))"
    unfolding file_seek_def Let_def n g
    using assms(1,2,3,6) n(1) sent by (auto simp: not_less)
  show ?thesis
    using len by (auto simp: run set_ft_def not_le)
qed

theorem C2_file_seek_witness:
  "file_seek ex_env (ex_receiving_messenger ex_offered_file) 0 65536 5
     = (0, ex_receiving_messenger (ex_offered_file\<lparr>transferred := 5\<rparr>))
   \<and> file_seek ex_env (ex_receiving_messenger ex_offered_file) 0 65536 100
     = (- 6, ex_receiving_messenger ex_offered_file)"
  using C2_file_seek
          [of "ex_receiving_messenger ex_offered_file" 0 0 65536 ex_offered_file ex_env 5]
        C2_file_seek
          [of "ex_receiving_messenger ex_offered_file" 0 0 65536 ex_offered_file ex_env 100]
  by (simp add: ex_receiving_messenger_def ex_offered_file_def ex_messenger_def
      ex_online_friend_def zero_Friend_def zero_File_Transfers_def ex_env_def ex_device_def
      friend_not_valid_def set_ft_def FRIEND_ONLINE_def MAX_CONCURRENT_FILE_PIPES_def)

subsection \<open>C8: the address checksum\<close>

lemma address_checksum_Suc:
  "address_checksum a (Suc n) =
     (address_checksum a n)[n mod 2 := (address_checksum a n ! (n mod 2)) XOR (a ! n)]"
  by (simp add: address_checksum_def)

lemma address_checksum_length: "length (address_checksum a n) = 2"
  by (induction n) (simp_all add: address_checksum_Suc, simp add: address_checksum_def)

lemma address_checksum_fold:
  assumes "j < 2"
  shows "address_checksum a n ! j =
           foldl (XOR) 0 (map ((!) a) (filter (\<lambda>i. i mod 2 = j) [0..<n]))"
proof (induction n)
  case 0
  then show ?case using assms by (cases j) (simp_all add: address_checksum_def)
next
  case (Suc n)
  show ?case
    using Suc assms address_checksum_length [of a n]
    by (auto simp: address_checksum_Suc nth_list_update)
qed

lemma address_checksum_prefix:
  "take n a = take n b \<Longrightarrow> address_checksum a n = address_checksum b n"
proof (induction n)
  case 0
  then show ?case by (simp add: address_checksum_def)
next
  case (Suc n)
  have "take n a = take n b"
    using Suc.prems by (metis take_take min.absorb1 le_add2 plus_1_eq_Suc)
  moreover have "a ! n = b ! n"
    using Suc.prems by (metis lessI nth_take)
  ultimately show ?case using Suc.IH by (simp add: address_checksum_Suc)
qed

lemma address_checksum_flip:
  assumes "k < n" and "k < length a"
  shows "address_checksum (a[k := a ! k XOR d]) n =
           (address_checksum a n)[k mod 2 := (address_checksum a n ! (k mod 2)) XOR d]"
  using assms(1)
proof (induction n)
  case 0
  then show ?case by simp
next
  case (Suc n)
  have l: "length (address_checksum a n) = 2" by (rule address_checksum_length)
  show ?case
  proof (cases "k = n")
    case True
    have pre: "address_checksum (a[n := a ! n XOR d]) n = address_checksum a n"
      by (rule address_checksum_prefix) simp
    show ?thesis
      using l assms(2) unfolding True
      by (simp add: address_checksum_Suc pre xor.assoc)
  next
    case False
    then have "k < n" using Suc.prems by simp
    from Suc.IH [OF this] False l show ?thesis
      by (cases "k mod 2 = n mod 2")
         (auto simp: address_checksum_Suc nth_list_update list_update_swap xor.commute xor.left_commute xor.assoc)
  qed
qed

lemma flip_changes:
  fixes x :: u8
  assumes "b < 8"
  shows "x XOR push_bit b 1 \<noteq> x"
proof
  assume "x XOR push_bit b 1 = x"
  then have "x XOR (x XOR push_bit b 1) = x XOR x" by simp
  then have "(push_bit b 1 :: u8) = 0" by (simp add: xor.assoc [symmetric])
  then show False using assms by simp
qed

lemma flipped_checksum_differs:
  assumes len: "length address = 38"
    and ok: "take 2 (drop 36 address) = address_checksum address 36"
    and k: "k < 38" and b: "b < 8"
  shows "take 2 (drop 36 (address[k := address ! k XOR push_bit b 1]))
           \<noteq> address_checksum (address[k := address ! k XOR push_bit b 1]) 36"
proof (cases "k < 36")
  case True
  have stored: "take 2 (drop 36 (address[k := address ! k XOR push_bit b 1])) = address_checksum address 36"
    using True ok by simp
  have l: "length (address_checksum address 36) = 2" by (rule address_checksum_length)
  have "k mod 2 < 2" by simp
  then have neq: "(address_checksum address 36)
               [k mod 2 := (address_checksum address 36 ! (k mod 2)) XOR push_bit b 1]
             \<noteq> address_checksum address 36"
    using l flip_changes [OF b, of "address_checksum address 36 ! (k mod 2)"]
    by (metis nth_list_update_eq)
  have comp: "address_checksum (address[k := address ! k XOR push_bit b 1]) 36
            = (address_checksum address 36)
               [k mod 2 := (address_checksum address 36 ! (k mod 2)) XOR push_bit b 1]"
    by (rule address_checksum_flip) (use True len in simp_all)
  show ?thesis
    unfolding stored comp using neq by (rule not_sym)
next
  case False
  then have k36: "36 \<le> k" by simp
  have comp: "address_checksum (address[k := address ! k XOR push_bit b 1]) 36 = address_checksum address 36"
    by (rule address_checksum_prefix) (simp add: k36)
  have st: "take 2 (drop 36 (address[k := address ! k XOR push_bit b 1]))
          = (take 2 (drop 36 address))[k - 36 := address ! k XOR push_bit b 1]"
    using k36 k by (simp add: drop_update_swap take_update_swap)
  have l2: "length (take 2 (drop 36 address)) = 2" using len by simp
  have nth: "(take 2 (drop 36 address)) ! (k - 36) = address ! k"
    using k36 k len by simp
  have j: "k - 36 < length (take 2 (drop 36 address))" using l2 k k36 by simp
  have "(take 2 (drop 36 address))[k - 36 := address ! k XOR push_bit b 1]
           \<noteq> take 2 (drop 36 address)"
  proof
    assume "(take 2 (drop 36 address))[k - 36 := address ! k XOR push_bit b 1]
              = take 2 (drop 36 address)"
    then have "(take 2 (drop 36 address))[k - 36 := address ! k XOR push_bit b 1] ! (k - 36)
              = take 2 (drop 36 address) ! (k - 36)"
      by simp
    then have "address ! k XOR push_bit b 1 = address ! k"
      using j nth by (simp only: nth_list_update_eq)
    then show False using flip_changes [OF b, of "address ! k"] by simp
  qed
  then show ?thesis unfolding comp st ok [symmetric] .
qed

lemma init_new_friend_not_badchecksum:
  "fst (init_new_friend env m pk st) \<noteq> Inl FAERR_BADCHECKSUM"
  by (auto simp: init_new_friend_def Let_def split: option.splits)

lemma length_le_bytes: "length (le_bytes n w) = n"
  by (induction n arbitrary: w) simp_all

lemma getaddress_checksum:
  assumes "length pk = 32"
  shows "length (getaddress pk nospam) = 38"
    and "take 2 (drop 36 (getaddress pk nospam)) = address_checksum (getaddress pk nospam) 36"
    and "take 32 (getaddress pk nospam) = pk"
    and "take 4 (drop 32 (getaddress pk nospam)) = le_bytes 4 nospam"
proof -
  define body where "body = take crypto_box_PUBLICKEYBYTES pk @ le_bytes 4 nospam"
  define cs where "cs = address_checksum body 36"
  have b: "body = pk @ le_bytes 4 nospam"
    using assms by (simp add: body_def crypto_box_PUBLICKEYBYTES_def del: le_bytes.simps)
  have lb: "length body = 36"
    using assms by (simp add: b length_le_bytes del: le_bytes.simps)
  have lc: "length cs = 2" by (simp add: cs_def address_checksum_length)
  have ga: "getaddress pk nospam = body @ cs"
    by (simp add: getaddress_def Let_def FRIEND_ADDRESS_SIZE_def body_def cs_def
        del: le_bytes.simps)
  show "length (getaddress pk nospam) = 38"
    by (simp add: ga lb lc)
  have "address_checksum (body @ cs) 36 = cs"
    unfolding cs_def by (rule address_checksum_prefix) (simp add: lb)
  then show "take 2 (drop 36 (getaddress pk nospam)) = address_checksum (getaddress pk nospam) 36"
    by (simp add: ga lb lc)
  show "take 32 (getaddress pk nospam) = pk"
    using assms by (simp add: ga b del: le_bytes.simps)
  show "take 4 (drop 32 (getaddress pk nospam)) = le_bytes 4 nospam"
    using assms by (simp add: ga b length_le_bytes del: le_bytes.simps)
qed

lemma m_addfriend_checked:
  assumes "length data \<le> MAX_FRIEND_REQUEST_DATA_SIZE"
    and "public_key_valid env (take 32 address)"
    and "take 2 (drop 36 address) = address_checksum address 36"
  shows "m_addfriend env m address data =
     (if length data < 1 then (Inl FAERR_NOMESSAGE, m)
      else if id_equal (take 32 address) (self_public_key env) then (Inl FAERR_OWNKEY, m)
      else (case getfriend_id m (take 32 address) of
              Some friend_id \<Rightarrow>
                if status (friendlist m ! friend_id) \<ge> FRIEND_CONFIRMED
                then (Inl FAERR_ALREADYSENT, m)
                else if friendrequest_nospam (friendlist m ! friend_id)
                          = le_word (take 4 (drop 32 address))
                then (Inl FAERR_ALREADYSENT, m)
                else (Inl FAERR_SETNEWNOSPAM,
                      m\<lparr>friendlist := (friendlist m)
                          [friend_id := (friendlist m ! friend_id)
                             \<lparr>friendrequest_nospam := le_word (take 4 (drop 32 address))\<rparr>]\<rparr>)
            | None \<Rightarrow>
                (case init_new_friend env m (take 32 address) FRIEND_ADDED of
                   (Inl err, m1) \<Rightarrow> (Inl err, m1)
                 | (Inr ret, m1) \<Rightarrow>
                     (Inr ret,
                      m1\<lparr>friendlist := (friendlist m1)
                           [ret := (friendlist m1 ! ret)
                              \<lparr>friendrequest_timeout := FRIENDREQUEST_TIMEOUT,
                               info := data,
                               friendrequest_nospam := le_word (take 4 (drop 32 address))\<rparr>]\<rparr>))))"
  unfolding m_addfriend_def Let_def crypto_box_PUBLICKEYBYTES_def FRIEND_ADDRESS_SIZE_def
  using assms by (simp add: not_less)

lemma m_addfriend_encoded:
  assumes "length pk = 32" and "public_key_valid env pk"
    and "length data \<le> MAX_FRIEND_REQUEST_DATA_SIZE"
  shows "fst (m_addfriend env m (getaddress pk nospam) data) \<noteq> Inl FAERR_BADCHECKSUM"
proof -
  note ga = getaddress_checksum [OF assms(1), of nospam]
  have v: "public_key_valid env (take 32 (getaddress pk nospam))"
    using assms(2) by (simp only: ga(3))
  have nb: "fst (init_new_friend env m pk FRIEND_ADDED) \<noteq> Inl FAERR_BADCHECKSUM"
    by (rule init_new_friend_not_badchecksum)
  show ?thesis
    unfolding m_addfriend_checked [OF assms(3) v ga(2)] ga(3)
    using nb by (auto split: option.splits sum.splits prod.splits)
qed

lemma m_addfriend_flipped:
  assumes "length address = 38"
    and "take 2 (drop 36 address) = address_checksum address 36"
    and "k < 38" and "b < 8"
    and "length data \<le> MAX_FRIEND_REQUEST_DATA_SIZE"
  shows "m_addfriend env m (address[k := address ! k XOR push_bit b 1]) data
           = (Inl FAERR_BADCHECKSUM, m)"
  unfolding m_addfriend_def Let_def crypto_box_PUBLICKEYBYTES_def FRIEND_ADDRESS_SIZE_def
  using flipped_checksum_differs [OF assms(1-4)] assms(5)
  by simp

text \<open>C8. The checksum of a friend address is the XOR fold of its first 36 bytes, byte
  \<open>i\<close> folded into \<open>checksum[i mod 2]\<close> (for any address and length: the first checksum
  byte is the XOR of the bytes at even indices, the second of those at odd indices). The
  address \<^verbatim>\<open>getaddress\<close> builds from a 32-byte key and a nospam has 38 bytes and carries the
  checksum of its first 36, so \<^verbatim>\<open>m_addfriend\<close> does not refuse it with
  \<^verbatim>\<open>FAERR_BADCHECKSUM\<close> when the key is valid. For every 38-byte address whose checksum is
  right (so for every address \<^verbatim>\<open>getaddress\<close> makes), flipping bit \<open>b\<close> of byte \<open>k\<close> makes
  \<^verbatim>\<open>m_addfriend\<close> (with a greeting that is not too long) return \<^verbatim>\<open>FAERR_BADCHECKSUM\<close>, the
  code it returns for a wrong checksum and for an invalid key alike, and leave the
  messenger unchanged.\<close>

theorem C8_address_checksum:
  assumes "length address = FRIEND_ADDRESS_SIZE"
    and "take 2 (drop (crypto_box_PUBLICKEYBYTES + 4) address)
           = address_checksum address (FRIEND_ADDRESS_SIZE - 2)"
    and "k < FRIEND_ADDRESS_SIZE" and "b < 8"
    and "length data \<le> MAX_FRIEND_REQUEST_DATA_SIZE"
    and "length pk = crypto_box_PUBLICKEYBYTES"
  shows "address_checksum a len =
           [foldl (XOR) 0 (map ((!) a) (filter (\<lambda>i. i mod 2 = 0) [0..<len])),
            foldl (XOR) 0 (map ((!) a) (filter (\<lambda>i. i mod 2 = 1) [0..<len]))]
       \<and> length (getaddress pk nospam) = FRIEND_ADDRESS_SIZE
       \<and> take 2 (drop (crypto_box_PUBLICKEYBYTES + 4) (getaddress pk nospam))
           = address_checksum (getaddress pk nospam) (FRIEND_ADDRESS_SIZE - 2)
       \<and> (public_key_valid env pk \<longrightarrow>
            fst (m_addfriend env m (getaddress pk nospam) data) \<noteq> Inl FAERR_BADCHECKSUM)
       \<and> m_addfriend env m (address[k := address ! k XOR push_bit b 1]) data
           = (Inl FAERR_BADCHECKSUM, m)"
proof -
  have l: "length (address_checksum a len) = 2" by (rule address_checksum_length)
  have two: "address_checksum a len = [address_checksum a len ! 0, address_checksum a len ! 1]"
    using l by (cases "address_checksum a len"; cases "tl (address_checksum a len)") auto
  have e0: "address_checksum a len ! 0
              = foldl (XOR) 0 (map ((!) a) (filter (\<lambda>i. i mod 2 = 0) [0..<len]))"
    by (rule address_checksum_fold) simp
  have e1: "address_checksum a len ! 1
              = foldl (XOR) 0 (map ((!) a) (filter (\<lambda>i. i mod 2 = 1) [0..<len]))"
    by (rule address_checksum_fold) simp
  have fold: "address_checksum a len =
           [foldl (XOR) 0 (map ((!) a) (filter (\<lambda>i. i mod 2 = 0) [0..<len])),
            foldl (XOR) 0 (map ((!) a) (filter (\<lambda>i. i mod 2 = 1) [0..<len]))]"
    by (subst two) (simp only: e0 e1)
  have pk: "length pk = 32" using assms(6) by (simp add: crypto_box_PUBLICKEYBYTES_def)
  note ga = getaddress_checksum [OF pk, of nospam]
  have enc: "fst (m_addfriend env m (getaddress pk nospam) data) \<noteq> Inl FAERR_BADCHECKSUM"
    if "public_key_valid env pk"
    by (rule m_addfriend_encoded [OF pk that assms(5)])
  have flip: "m_addfriend env m (address[k := address ! k XOR push_bit b 1]) data
           = (Inl FAERR_BADCHECKSUM, m)"
  proof -
    have a1: "length address = 38" using assms(1) by (simp add: FRIEND_ADDRESS_SIZE_def)
    have a2: "take 2 (drop 36 address) = address_checksum address 36"
      using assms(2) by (simp add: FRIEND_ADDRESS_SIZE_def crypto_box_PUBLICKEYBYTES_def)
    have a3: "k < 38" using assms(3) by (simp add: FRIEND_ADDRESS_SIZE_def)
    show ?thesis by (rule m_addfriend_flipped [OF a1 a2 a3 assms(4,5)])
  qed
  show ?thesis
    using fold ga(1,2) enc flip
    by (simp add: FRIEND_ADDRESS_SIZE_def crypto_box_PUBLICKEYBYTES_def address_checksum_length)
qed

theorem C8_address_checksum_witness:
  "address_checksum [1, 2, 4, 8, 16] 5 = [21, 10]
   \<and> length ex_address = 38
   \<and> take 2 (drop 36 ex_address) = address_checksum ex_address 36
   \<and> fst (m_addfriend ex_env (ex_messenger []) ex_address [1]) \<noteq> Inl FAERR_BADCHECKSUM
   \<and> m_addfriend ex_env (ex_messenger []) (ex_address[33 := ex_address ! 33 XOR push_bit 2 1]) [1]
       = (Inl FAERR_BADCHECKSUM, ex_messenger [])"
proof -
  have pk: "length (ex_pk 3) = crypto_box_PUBLICKEYBYTES"
    by (simp add: ex_pk_def crypto_box_PUBLICKEYBYTES_def)
  have pk32: "length (ex_pk 3) = 32" by (simp add: ex_pk_def)
  note ga = getaddress_checksum [OF pk32, of 5]
  have h1: "length ex_address = FRIEND_ADDRESS_SIZE"
    using ga(1) by (simp add: ex_address_def FRIEND_ADDRESS_SIZE_def)
  have h2: "take 2 (drop (crypto_box_PUBLICKEYBYTES + 4) ex_address)
           = address_checksum ex_address (FRIEND_ADDRESS_SIZE - 2)"
    using ga(2) by (simp add: ex_address_def FRIEND_ADDRESS_SIZE_def crypto_box_PUBLICKEYBYTES_def)
  have h3: "33 < FRIEND_ADDRESS_SIZE" by (simp add: FRIEND_ADDRESS_SIZE_def)
  have h5: "length [1 :: u8] \<le> MAX_FRIEND_REQUEST_DATA_SIZE"
    by (simp add: MAX_FRIEND_REQUEST_DATA_SIZE_def)
  have v: "public_key_valid ex_env (ex_pk 3)" by (simp add: ex_env_def)
  have f: "[foldl (XOR) 0 (map ((!) [1, 2, 4, 8, 16 :: u8]) (filter (\<lambda>i. i mod 2 = 0) [0..<5])),
            foldl (XOR) 0 (map ((!) [1, 2, 4, 8, 16 :: u8]) (filter (\<lambda>i. i mod 2 = 1) [0..<5]))]
           = [21, 10]"
    by code_simp
  show ?thesis
    using C8_address_checksum [OF h1 h2 h3 _ h5 pk, of 2 "[1, 2, 4, 8, 16]" 5 5 ex_env
        "ex_messenger []"] v
    unfolding f
    by (simp add: ex_address_def [symmetric] FRIEND_ADDRESS_SIZE_def crypto_box_PUBLICKEYBYTES_def)
qed

subsection \<open>C6: a known key with a new nospam\<close>

lemma getfriend_id_from_first:
  assumes "i < length fl"
    and "status (fl ! i) > 0"
    and "list_ex (\<lambda>device. id_equal pk (real_pk device)) (dev_list (fl ! i))"
    and "\<forall>j<i. \<not> (status (fl ! j) > 0
               \<and> list_ex (\<lambda>device. id_equal pk (real_pk device)) (dev_list (fl ! j)))"
  shows "getfriend_id_from fl k pk = Some (k + i)"
  using assms
proof (induction fl arbitrary: i k)
  case Nil
  then show ?case by simp
next
  case (Cons f fl)
  show ?case
  proof (cases i)
    case 0
    then show ?thesis using Cons.prems by simp
  next
    case (Suc i')
    have "\<not> (status ((f # fl) ! 0) > 0
            \<and> list_ex (\<lambda>device. id_equal pk (real_pk device)) (dev_list ((f # fl) ! 0)))"
      using Cons.prems(4) Suc by blast
    then have skip: "\<not> (status f > 0 \<and> list_ex (\<lambda>device. id_equal pk (real_pk device)) (dev_list f))"
      by simp
    have rest: "\<not> (0 < status (fl ! j)
               \<and> list_ex (\<lambda>device. id_equal pk (real_pk device)) (dev_list (fl ! j)))"
      if "j < i'" for j
    proof -
      have "Suc j < i" using that Suc by simp
      from Cons.prems(4) [rule_format, OF this] show ?thesis by simp
    qed
    have "getfriend_id_from fl (Suc k) pk = Some (Suc k + i')"
    proof (rule Cons.IH)
      show "i' < length fl" using Cons.prems(1) Suc by simp
      show "0 < status (fl ! i')" using Cons.prems(2) Suc by simp
      show "list_ex (\<lambda>device. id_equal pk (real_pk device)) (dev_list (fl ! i'))"
        using Cons.prems(3) Suc by simp
      show "\<forall>j<i'. \<not> (0 < status (fl ! j)
               \<and> list_ex (\<lambda>device. id_equal pk (real_pk device)) (dev_list (fl ! j)))"
        using rest by blast
    qed
    then show ?thesis using skip Suc by simp
  qed
qed

text \<open>C6. \<^verbatim>\<open>m_addfriend\<close> with a well-formed request (a greeting of 1 to 1016 bytes, a
  valid key that is not the own key, a correct checksum) whose public key is the primary
  key of an existing friend \<open>i\<close>, the first friend in the table that holds the key:
  \<^verbatim>\<open>getfriend_id\<close> finds \<open>i\<close>; when the friend's status is below Confirmed and its stored
  \<^verbatim>\<open>friendrequest_nospam\<close> differs from the nospam in the address, the stored nospam becomes
  the new one and the call returns \<^verbatim>\<open>FAERR_SETNEWNOSPAM\<close>; when the nospam is the same, or
  the status is at least Confirmed, the call returns \<^verbatim>\<open>FAERR_ALREADYSENT\<close> and changes
  nothing. In no case does the table get a new slot.\<close>

theorem C6_addfriend_new_nospam:
  assumes "1 \<le> length data" and "length data \<le> MAX_FRIEND_REQUEST_DATA_SIZE"
    and "pk = take crypto_box_PUBLICKEYBYTES address"
    and "nospam = le_word (take 4 (drop crypto_box_PUBLICKEYBYTES address))"
    and "public_key_valid env pk"
    and "take 2 (drop (crypto_box_PUBLICKEYBYTES + 4) address)
           = address_checksum address (FRIEND_ADDRESS_SIZE - 2)"
    and "\<not> id_equal pk (self_public_key env)"
    and "i < length (friendlist m)"
    and "status (friendlist m ! i) \<noteq> NOFRIEND"
    and "dev_list (friendlist m ! i) \<noteq> []"
    and "id_equal pk (real_pk (dev_list (friendlist m ! i) ! 0))"
    and "\<forall>j<i. \<not> (status (friendlist m ! j) > 0
               \<and> list_ex (\<lambda>device. id_equal pk (real_pk device)) (dev_list (friendlist m ! j)))"
  shows "getfriend_id m pk = Some i
       \<and> m_addfriend env m address data =
           (if status (friendlist m ! i) < FRIEND_CONFIRMED
               \<and> friendrequest_nospam (friendlist m ! i) \<noteq> nospam
            then (Inl FAERR_SETNEWNOSPAM,
                  m\<lparr>friendlist := (friendlist m)
                      [i := (friendlist m ! i)\<lparr>friendrequest_nospam := nospam\<rparr>]\<rparr>)
            else (Inl FAERR_ALREADYSENT, m))
       \<and> length (friendlist (snd (m_addfriend env m address data))) = length (friendlist m)"
proof -
  have st: "status (friendlist m ! i) > 0" using assms(9) by (simp add: NOFRIEND_def)
  have ex: "list_ex (\<lambda>device. id_equal pk (real_pk device)) (dev_list (friendlist m ! i))"
    using assms(10,11) by (cases "dev_list (friendlist m ! i)") simp_all
  have g: "getfriend_id m pk = Some i"
    using getfriend_id_from_first [OF assms(8) st ex assms(12), of 0]
    by (simp add: getfriend_id_def)
  have pk32: "take 32 address = pk" using assms(3) by (simp add: crypto_box_PUBLICKEYBYTES_def)
  have ns: "le_word (take 4 (drop 32 address)) = nospam"
    using assms(4) by (simp add: crypto_box_PUBLICKEYBYTES_def)
  have v: "public_key_valid env (take 32 address)" using assms(5) by (simp only: pk32)
  have cs: "take 2 (drop 36 address) = address_checksum address 36"
    using assms(6) by (simp add: FRIEND_ADDRESS_SIZE_def crypto_box_PUBLICKEYBYTES_def)
  have run: "m_addfriend env m address data =
           (if status (friendlist m ! i) < FRIEND_CONFIRMED
               \<and> friendrequest_nospam (friendlist m ! i) \<noteq> nospam
            then (Inl FAERR_SETNEWNOSPAM,
                  m\<lparr>friendlist := (friendlist m)
                      [i := (friendlist m ! i)\<lparr>friendrequest_nospam := nospam\<rparr>]\<rparr>)
            else (Inl FAERR_ALREADYSENT, m))"
    unfolding m_addfriend_checked [OF assms(2) v cs] pk32 ns g
    using assms(1,7) by (cases data) (auto simp: not_le)
  show ?thesis using g run by simp
qed

theorem C6_addfriend_new_nospam_witness:
  "m_addfriend ex_env (ex_messenger [ex_pending_friend]) ex_address [1]
     = (Inl FAERR_SETNEWNOSPAM,
        ex_messenger [ex_pending_friend\<lparr>friendrequest_nospam := 5\<rparr>])
   \<and> m_addfriend ex_env (ex_messenger [ex_pending_friend\<lparr>friendrequest_nospam := 5\<rparr>])
        ex_address [1]
     = (Inl FAERR_ALREADYSENT, ex_messenger [ex_pending_friend\<lparr>friendrequest_nospam := 5\<rparr>])"
proof -
  have pk32: "length (ex_pk 3) = 32" by (simp add: ex_pk_def)
  note ga = getaddress_checksum [OF pk32, of 5]
  have pk: "ex_pk 3 = take crypto_box_PUBLICKEYBYTES ex_address"
    using ga(3) by (simp add: ex_address_def crypto_box_PUBLICKEYBYTES_def)
  have ns: "5 = le_word (take 4 (drop crypto_box_PUBLICKEYBYTES ex_address))"
  proof -
    have "le_word (le_bytes 4 5) = 5" by code_simp
    then show ?thesis unfolding ex_address_def crypto_box_PUBLICKEYBYTES_def ga(4) by simp
  qed
  have cs: "take 2 (drop (crypto_box_PUBLICKEYBYTES + 4) ex_address)
           = address_checksum ex_address (FRIEND_ADDRESS_SIZE - 2)"
    using ga(2) by (simp add: ex_address_def FRIEND_ADDRESS_SIZE_def crypto_box_PUBLICKEYBYTES_def)
  have own: "\<not> id_equal (ex_pk 3) (self_public_key ex_env)"
    by (simp add: id_equal_def ex_env_def ex_pk_def crypto_box_PUBLICKEYBYTES_def)
  have same: "id_equal (ex_pk 3) (ex_pk 3)" by (simp add: id_equal_def)
  have d: "1 \<le> length [1 :: u8]" "length [1 :: u8] \<le> MAX_FRIEND_REQUEST_DATA_SIZE"
    by (simp_all add: MAX_FRIEND_REQUEST_DATA_SIZE_def)
  have v: "public_key_valid ex_env (ex_pk 3)" by (simp add: ex_env_def)
  show ?thesis
    using C6_addfriend_new_nospam [OF d pk ns v cs own, of 0 "ex_messenger [ex_pending_friend]"]
          C6_addfriend_new_nospam [OF d pk ns v cs own, of 0
             "ex_messenger [ex_pending_friend\<lparr>friendrequest_nospam := 5\<rparr>]"]
          same
    by (simp add: ex_messenger_def ex_pending_friend_def zero_Friend_def ex_device_def
        NOFRIEND_def FRIEND_ADDED_def FRIEND_CONFIRMED_def)
qed

subsection \<open>C7: slot reuse\<close>

lemma last_friend_bounds:
  "last_friend fl n \<le> n
   \<and> (\<forall>j. last_friend fl n \<le> j \<and> j < n \<longrightarrow> status (fl ! j) = NOFRIEND)
   \<and> (\<forall>j < n. status (fl ! j) \<noteq> NOFRIEND \<longrightarrow> j < last_friend fl n)"
proof (induction n)
  case 0
  then show ?case by simp
next
  case (Suc n)
  show ?case
  proof (cases "status (fl ! n) \<noteq> NOFRIEND")
    case True
    then show ?thesis by auto
  next
    case False
    then show ?thesis using Suc by (auto simp: less_Suc_eq)
  qed
qed

lemma clear_receipts_loop_chain:
  "chain h p as \<Longrightarrow> distinct as \<Longrightarrow> clear_receipts_loop h p = Some (h |` (- set as))"
proof (induction as arbitrary: h p)
  case Nil
  then show ?case by (subst clear_receipts_loop.simps) (simp add: restrict_map_def)
next
  case (Cons a as)
  from Cons.prems obtain r where p: "p = Some a" and r: "h a = Some r"
    and rest: "chain h (next_receipt r) as"
    by (auto split: option.splits)
  have notin: "a \<notin> set as" and dist: "distinct as" using Cons.prems by auto
  have c: "chain (h(a := None)) (next_receipt r) as"
    using rest notin by (simp add: chain_upd_notin)
  have "clear_receipts_loop (h(a := None)) (next_receipt r) = Some ((h(a := None)) |` (- set as))"
    using Cons.IH [OF c dist] .
  moreover have "(h(a := None)) |` (- set as) = h |` (- set (a # as))"
    by (auto simp: restrict_map_def fun_eq_iff)
  ultimately show ?case
    by (subst clear_receipts_loop.simps) (simp add: p r)
qed

lemma m_delfriend_returns:
  assumes valid: "\<not> friend_not_valid m i"
    and q: "receipt_queue m i as"
  shows "\<exists>r m' evs. m_delfriend env m i = Some (r, m', evs)
           \<and> (r = Inr 0 \<or> r = Inl FAERR_NOMEM)
           \<and> (realloc_friendlist_ok env \<longrightarrow> r = Inr 0)"
proof -
  have ch: "chain (receipts_heap m) (receipts_start (friendlist m ! i)) as"
    and dist: "distinct as"
    using q by (simp_all add: receipt_queue_def)
  note cl = clear_receipts_loop_chain [OF ch dist]
  show ?thesis
    using valid by (simp add: m_delfriend_def clear_receipts_def cl Let_def realloc_friendlist_def)
qed

lemma m_delfriend_table:
  assumes "m_delfriend env m i = Some (Inr 0, m', evs)"
  shows "i < length (friendlist m)
       \<and> friendlist m' = take (last_friend ((friendlist m)[i := zero_Friend]) (length (friendlist m)))
                           ((friendlist m)[i := zero_Friend])"
  using assms
  by (auto simp: m_delfriend_def clear_receipts_def Let_def friend_not_valid_def
      split: if_splits option.splits)

lemma m_addfriend_new:
  assumes "m_addfriend env m address data = (Inr i, m1)"
  shows "\<exists>m0. init_new_friend env m (take crypto_box_PUBLICKEYBYTES address) FRIEND_ADDED = (Inr i, m0)
            \<and> length (friendlist m1) = length (friendlist m0)
            \<and> (i < length (friendlist m0) \<longrightarrow> status (friendlist m1 ! i) = status (friendlist m0 ! i))"
proof -
  obtain r m0 where new: "init_new_friend env m (take crypto_box_PUBLICKEYBYTES address) FRIEND_ADDED = (r, m0)"
    by (cases "init_new_friend env m (take crypto_box_PUBLICKEYBYTES address) FRIEND_ADDED") auto
  have "r = Inr i \<and> length (friendlist m1) = length (friendlist m0)
            \<and> (i < length (friendlist m0) \<longrightarrow> status (friendlist m1 ! i) = status (friendlist m0 ! i))"
    using assms unfolding m_addfriend_def Let_def new
    by (cases r) (auto split: if_splits option.splits)
  then show ?thesis using new by simp
qed

lemma init_new_friend_lowest:
  assumes "init_new_friend env m pk st = (Inr i, m')"
  shows "i \<le> length (friendlist m)
       \<and> (\<forall>j<i. status (friendlist m ! j) \<noteq> NOFRIEND)
       \<and> (i < length (friendlist m) \<longrightarrow> status (friendlist m ! i) = NOFRIEND)
       \<and> length (friendlist m') = (if i = length (friendlist m) then length (friendlist m) + 1
                                    else length (friendlist m))
       \<and> status (friendlist m' ! i) = st"
proof -
  note slot = init_new_friend_slot [OF assms]
  then have ff: "find_nofriend (friendlist m @ [zero_Friend]) 0 = Some i" by simp
  note least = find_nofriend_least [OF ff]
  have le: "i \<le> length (friendlist m)" using slot by simp
  have used: "status (friendlist m ! j) \<noteq> NOFRIEND" if "j < i" for j
  proof -
    have "status ((friendlist m @ [zero_Friend]) ! j) \<noteq> NOFRIEND" using least that by simp
    moreover have "j < length (friendlist m)" using that le by simp
    ultimately show ?thesis by (simp add: nth_append)
  qed
  have free: "status (friendlist m ! i) = NOFRIEND" if "i < length (friendlist m)"
    using least that by (simp add: nth_append)
  have st: "status (friendlist m' ! i) = st" using slot by simp
  show ?thesis using le used free slot st by auto
qed

lemma m_delfriend_freed:
  assumes "m_delfriend env m k = Some (Inr 0, m2, evs)"
  shows "\<not> m_friend_exists m2 k
       \<and> (k < length (friendlist m2) \<longrightarrow> status (friendlist m2 ! k) = NOFRIEND)
       \<and> (\<exists>i \<le> k. i < length (friendlist m2 @ [zero_Friend])
               \<and> status ((friendlist m2 @ [zero_Friend]) ! i) = NOFRIEND)
       \<and> ((\<forall>j<k. status (friendlist m ! j) \<noteq> NOFRIEND) \<longrightarrow>
             (\<forall>j<k. j < length (friendlist m2) \<and> status (friendlist m2 ! j) \<noteq> NOFRIEND))"
proof -
  let ?fl = "(friendlist m)[k := zero_Friend]"
  let ?n = "last_friend ?fl (length (friendlist m))"
  note tab = m_delfriend_table [OF assms]
  then have k: "k < length (friendlist m)" and fl2: "friendlist m2 = take ?n ?fl" by simp_all
  note lf = last_friend_bounds [of ?fl "length (friendlist m)"]
  have n: "?n \<le> length (friendlist m)" using lf by simp
  have len2: "length (friendlist m2) = ?n" using n by (simp add: fl2)
  have z: "status zero_Friend = NOFRIEND" by (simp add: zero_Friend_def NOFRIEND_def)
  have at_k: "status (friendlist m2 ! k) = NOFRIEND" if "k < length (friendlist m2)"
    using that k z by (simp add: fl2)
  have nex: "\<not> m_friend_exists m2 k"
    using at_k by (auto simp: m_friend_exists_def friend_not_valid_def NOFRIEND_def)
  have free: "\<exists>i \<le> k. i < length (friendlist m2 @ [zero_Friend])
               \<and> status ((friendlist m2 @ [zero_Friend]) ! i) = NOFRIEND"
  proof (cases "k < length (friendlist m2)")
    case True
    then show ?thesis using at_k by (intro exI [of _ k]) (simp add: nth_append)
  next
    case False
    then have "length (friendlist m2) \<le> k" by simp
    then show ?thesis using z by (intro exI [of _ "length (friendlist m2)"]) simp
  qed
  have keep: "\<forall>j<k. j < length (friendlist m2) \<and> status (friendlist m2 ! j) \<noteq> NOFRIEND"
    if all: "\<forall>j<k. status (friendlist m ! j) \<noteq> NOFRIEND"
  proof (intro allI impI)
    fix j assume j: "j < k"
    then have jl: "j < length (friendlist m)" using k by simp
    have s: "status (?fl ! j) \<noteq> NOFRIEND" using all j jl by simp
    then have "j < ?n" using lf jl by blast
    then show "j < length (friendlist m2) \<and> status (friendlist m2 ! j) \<noteq> NOFRIEND"
      using s by (simp add: len2) (simp add: fl2)
  qed
  show ?thesis using nex at_k free keep by blast
qed

lemma init_new_friend_after_delete:
  assumes del: "m_delfriend env m k = Some (Inr 0, m2, evs)"
    and new: "init_new_friend env' m2 pk st = (Inr i, m3)"
  shows "i \<le> k \<and> ((\<forall>j<k. status (friendlist m ! j) \<noteq> NOFRIEND) \<longrightarrow> i = k)"
proof -
  note fr = m_delfriend_freed [OF del]
  note low = init_new_friend_lowest [OF new]
  note slot = init_new_friend_slot [OF new]
  from fr obtain f where f: "f \<le> k" "f < length (friendlist m2 @ [zero_Friend])"
    "status ((friendlist m2 @ [zero_Friend]) ! f) = NOFRIEND" by blast
  have "\<not> f < i"
  proof
    assume "f < i"
    then have "status (friendlist m2 ! f) \<noteq> NOFRIEND" and "f < length (friendlist m2)"
      using low by auto
    then show False using f(3) by (simp add: nth_append)
  qed
  then have ik: "i \<le> k" using f(1) by simp
  have "i = k" if all: "\<forall>j<k. status (friendlist m ! j) \<noteq> NOFRIEND"
  proof (rule ccontr)
    assume "i \<noteq> k"
    then have lt: "i < k" using ik by simp
    then have "i < length (friendlist m2)" and "status (friendlist m2 ! i) \<noteq> NOFRIEND"
      using fr all by blast+
    then show False using low by simp
  qed
  then show ?thesis using ik by blast
qed

text \<open>C7. When \<^verbatim>\<open>m_addfriend\<close> creates a friend it puts it in the lowest-indexed slot whose
  status is \<^verbatim>\<open>NOFRIEND\<close>: every slot below the index returned is in use, and the table grows
  (by one, the new slot being the index returned) only when no slot of the table is free.
  After \<^verbatim>\<open>m_delfriend\<close> has returned 0 for friend \<open>k\<close>, \<^verbatim>\<open>m_friend_exists\<close> is false for
  \<open>k\<close>, the slot holds \<^verbatim>\<open>NOFRIEND\<close> where the shrunk table still has it, and the next
  successful \<^verbatim>\<open>m_addfriend\<close> returns an index that is at most \<open>k\<close>, and is \<open>k\<close> itself when
  all slots below \<open>k\<close> were in use. \<^verbatim>\<open>m_delfriend\<close> does return 0 for a valid friend whose
  receipt pointers stand for a queue, when the table can be reallocated.\<close>

theorem C7_slot_reuse:
  "(m_addfriend env m address data = (Inr i, m1) \<longrightarrow>
      i \<le> length (friendlist m)
      \<and> (\<forall>j<i. status (friendlist m ! j) \<noteq> NOFRIEND)
      \<and> (i < length (friendlist m) \<longrightarrow> status (friendlist m ! i) = NOFRIEND)
      \<and> length (friendlist m1) = (if i = length (friendlist m) then length (friendlist m) + 1
                                   else length (friendlist m))
      \<and> status (friendlist m1 ! i) = FRIEND_ADDED)
   \<and> (m_delfriend env m k = Some (Inr 0, m2, evs) \<longrightarrow>
        \<not> m_friend_exists m2 k
        \<and> (k < length (friendlist m2) \<longrightarrow> status (friendlist m2 ! k) = NOFRIEND)
        \<and> (m_addfriend env' m2 address' data' = (Inr i', m3) \<longrightarrow>
              i' \<le> k \<and> ((\<forall>j<k. status (friendlist m ! j) \<noteq> NOFRIEND) \<longrightarrow> i' = k)))
   \<and> (\<not> friend_not_valid m k \<and> receipt_queue m k as \<and> realloc_friendlist_ok env \<longrightarrow>
        (\<exists>m2 evs. m_delfriend env m k = Some (Inr 0, m2, evs)))"
proof (intro conjI impI)
  assume add: "m_addfriend env m address data = (Inr i, m1)"
  from m_addfriend_new [OF add] obtain m0 where
    new: "init_new_friend env m (take crypto_box_PUBLICKEYBYTES address) FRIEND_ADDED = (Inr i, m0)"
    and len: "length (friendlist m1) = length (friendlist m0)"
    and st: "i < length (friendlist m0) \<longrightarrow> status (friendlist m1 ! i) = status (friendlist m0 ! i)"
    by blast
  note low = init_new_friend_lowest [OF new]
  note slot = init_new_friend_slot [OF new]
  show "i \<le> length (friendlist m)" using low by simp
  show "\<forall>j<i. status (friendlist m ! j) \<noteq> NOFRIEND" using low by simp
  show "status (friendlist m ! i) = NOFRIEND" if "i < length (friendlist m)"
    using low that by simp
  show "length (friendlist m1) = (if i = length (friendlist m) then length (friendlist m) + 1
                                   else length (friendlist m))"
    using low len by simp
  show "status (friendlist m1 ! i) = FRIEND_ADDED" using low st slot by simp
next
  assume del: "m_delfriend env m k = Some (Inr 0, m2, evs)"
  note fr = m_delfriend_freed [OF del]
  show "\<not> m_friend_exists m2 k" using fr by simp
  show "status (friendlist m2 ! k) = NOFRIEND" if "k < length (friendlist m2)"
    using fr that by simp
  {
    assume add: "m_addfriend env' m2 address' data' = (Inr i', m3)"
    from m_addfriend_new [OF add] obtain m0 where
      new: "init_new_friend env' m2 (take crypto_box_PUBLICKEYBYTES address') FRIEND_ADDED = (Inr i', m0)"
      by blast
    note again = init_new_friend_after_delete [OF del new]
    show "i' \<le> k" using again by simp
    show "i' = k" if "\<forall>j<k. status (friendlist m ! j) \<noteq> NOFRIEND"
      using again that by simp
  }
next
  assume a: "\<not> friend_not_valid m k \<and> receipt_queue m k as \<and> realloc_friendlist_ok env"
  then have v: "\<not> friend_not_valid m k" and q: "receipt_queue m k as"
    and ok: "realloc_friendlist_ok env" by simp_all
  from m_delfriend_returns [OF v q, of env] ok
  show "\<exists>m2 evs. m_delfriend env m k = Some (Inr 0, m2, evs)" by auto
qed


theorem C7_slot_reuse_witness:
  "(\<exists>m1. m_addfriend ex_env (ex_messenger [ex_online_friend, ex_second_friend]) ex_address [1]
               = (Inr 2, m1)
          \<and> length (friendlist m1) = 3 \<and> status (friendlist m1 ! 2) = FRIEND_ADDED)
   \<and> m_delfriend ex_env (ex_messenger [ex_online_friend, ex_second_friend]) 0
     = Some (Inr 0, ex_messenger [zero_Friend, ex_second_friend], [])
   \<and> \<not> m_friend_exists (ex_messenger [zero_Friend, ex_second_friend]) 0
   \<and> status (friendlist (ex_messenger [zero_Friend, ex_second_friend]) ! 0) = NOFRIEND
   \<and> (\<exists>m3. m_addfriend ex_env (ex_messenger [zero_Friend, ex_second_friend]) ex_address [1]
               = (Inr 0, m3))"
proof -
  let ?M = "ex_messenger [ex_online_friend, ex_second_friend]"
  let ?M2 = "ex_messenger [zero_Friend, ex_second_friend]"
  have cl: "clear_receipts_loop Map.empty None = Some Map.empty"
    using clear_receipts_loop_chain [of Map.empty None "[]"] by simp
  have del: "m_delfriend ex_env ?M 0 = Some (Inr 0, ?M2, [])"
    by (simp add: m_delfriend_def clear_receipts_def cl friend_not_valid_def realloc_friendlist_def
        ex_messenger_def ex_online_friend_def ex_second_friend_def zero_Friend_def ex_env_def
        ex_device_def FRIEND_ONLINE_def NOFRIEND_def Let_def)
  have pk32: "length (ex_pk 3) = 32" by (simp add: ex_pk_def)
  note ga = getaddress_checksum [OF pk32, of 5]
  have d: "length [1 :: u8] \<le> MAX_FRIEND_REQUEST_DATA_SIZE"
    by (simp add: MAX_FRIEND_REQUEST_DATA_SIZE_def)
  have v: "public_key_valid ex_env (take 32 ex_address)" by (simp add: ex_env_def)
  have cs: "take 2 (drop 36 ex_address) = address_checksum ex_address 36"
    using ga(2) by (simp only: ex_address_def)
  have pk: "take 32 ex_address = ex_pk 3" using ga(3) by (simp only: ex_address_def)
  have own: "\<not> id_equal (ex_pk 3) (self_public_key ex_env)"
    by (simp add: id_equal_def ex_env_def ex_pk_def crypto_box_PUBLICKEYBYTES_def)
  have unknown: "getfriend_id ?M (ex_pk 3) = None"
    by (simp add: getfriend_id_def id_equal_def ex_messenger_def ex_second_friend_def
        ex_online_friend_def zero_Friend_def ex_device_def ex_pk_def crypto_box_PUBLICKEYBYTES_def)
  have "fst (init_new_friend ex_env ?M (ex_pk 3) FRIEND_ADDED) = Inr 2"
    by (simp add: init_new_friend_def realloc_friendlist_def ex_env_def ex_messenger_def
        ex_second_friend_def ex_online_friend_def zero_Friend_def NOFRIEND_def FRIEND_ONLINE_def
        Let_def)
  then obtain m0 where new0: "init_new_friend ex_env ?M (ex_pk 3) FRIEND_ADDED = (Inr 2, m0)"
    by (metis prod.collapse)
  have "fst (m_addfriend ex_env ?M ex_address [1]) = Inr 2"
    unfolding m_addfriend_checked [OF d v cs] pk unknown new0
    using own by simp
  then obtain m1 where grow: "m_addfriend ex_env ?M ex_address [1] = (Inr 2, m1)"
    by (metis prod.collapse)
  have unknown2: "getfriend_id ?M2 (ex_pk 3) = None"
    by (simp add: getfriend_id_def id_equal_def ex_messenger_def ex_second_friend_def
        ex_online_friend_def zero_Friend_def ex_device_def ex_pk_def crypto_box_PUBLICKEYBYTES_def)
  have "fst (init_new_friend ex_env ?M2 (ex_pk 3) FRIEND_ADDED) = Inr 0"
    by (simp add: init_new_friend_def realloc_friendlist_def ex_env_def ex_messenger_def
        zero_Friend_def NOFRIEND_def Let_def)
  then obtain m0' where new0': "init_new_friend ex_env ?M2 (ex_pk 3) FRIEND_ADDED = (Inr 0, m0')"
    by (metis prod.collapse)
  have "fst (m_addfriend ex_env ?M2 ex_address [1]) = Inr 0"
    unfolding m_addfriend_checked [OF d v cs] pk unknown2 new0'
    using own by simp
  then obtain m3 where add: "m_addfriend ex_env ?M2 ex_address [1] = (Inr 0, m3)"
    by (metis prod.collapse)
  have len: "length (friendlist ?M) = 2" by (simp add: ex_messenger_def)
  note inst = C7_slot_reuse [of ex_env ?M ex_address "[1]" 2 m1 0 ?M2 "[]"
      ex_env ex_address "[1]" 0 m3 "[]"]
  have "length (friendlist m1) = 3" and "status (friendlist m1 ! 2) = FRIEND_ADDED"
    and "\<not> m_friend_exists ?M2 0"
    using inst grow del len by simp_all
  moreover have "status (friendlist ?M2 ! 0) = NOFRIEND"
    using inst del by (simp add: ex_messenger_def)
  ultimately show ?thesis using del add grow by simp
qed

subsection \<open>C1: chunk requests\<close>

lemma get_set_ft:
  "friendnumber < length (friendlist m) \<Longrightarrow>
     get_ft (set_ft m friendnumber 0 i ft) friendnumber 0 i = ft"
  by (simp add: get_ft_def set_ft_def)

lemma set_set_ft:
  "friendnumber < length (friendlist m) \<Longrightarrow>
     set_ft (set_ft m friendnumber 0 i ft) friendnumber 0 i ft' = set_ft m friendnumber 0 i ft'"
  by (simp add: set_ft_def)

lemma set_get_ft:
  "friendnumber < length (friendlist m) \<Longrightarrow> get_ft m friendnumber 0 i = ft \<Longrightarrow>
     set_ft m friendnumber 0 i ft = m"
  by (auto simp: set_ft_def get_ft_def)

lemma set_ft_other:
  "length (friendlist (set_ft m friendnumber 0 i ft)) = length (friendlist m)"
  "friend_conn (set_ft m friendnumber 0 i ft) friendnumber = friend_conn m friendnumber"
  "file_reqchunk (set_ft m friendnumber 0 i ft) = file_reqchunk m"
proof -
  show "length (friendlist (set_ft m friendnumber 0 i ft)) = length (friendlist m)"
    by (simp add: set_ft_def)
  show "friend_conn (set_ft m friendnumber 0 i ft) friendnumber = friend_conn m friendnumber"
    by (cases "friendnumber < length (friendlist m)")
       (simp_all add: set_ft_def friend_conn_def list_update_beyond)
  show "file_reqchunk (set_ft m friendnumber 0 i ft) = file_reqchunk m"
    by (simp add: set_ft_def)
qed

lemma remaining_after_chunk:
  fixes size req :: u64
  assumes "len \<le> unat (size - req)"
  shows "unat (size - (req + of_nat len)) = unat (size - req) - len"
proof -
  have "unat (size - req) < 2 ^ 64"
    by (rule order_less_le_trans [OF unsigned_less]) simp
  then have lt: "len < 2 ^ 64" using assms by simp
  have u: "unat (of_nat len :: u64) = len" using lt by (simp add: unat_of_nat)
  have le: "(of_nat len :: u64) \<le> size - req"
    using assms by (simp only: word_le_nat_alt u)
  have e: "size - (req + of_nat len) = (size - req) - of_nat len" by simp
  have "unat (size - (req + of_nat len)) = unat ((size - req) - of_nat len)"
    by (simp only: e)
  also have "\<dots> = unat (size - req) - unat (of_nat len :: u64)"
    using le by (rule unat_sub)
  finally show ?thesis by (simp only: u)
qed

lemma ceil_div_step:
  fixes r M :: nat
  assumes "0 < r" and "0 < M"
  shows "(r + M - 1) div M = Suc ((r - min r M + M - 1) div M)"
proof -
  have "r + M - 1 = (r - 1) + M" using assms by simp
  then have "(r + M - 1) div M = ((r - 1) + M) div M" by simp
  also have "\<dots> = Suc ((r - 1) div M)" using assms(2) by (simp only: div_add_self2)
  finally have l: "(r + M - 1) div M = Suc ((r - 1) div M)" .
  have "(r - min r M + M - 1) div M = (r - 1) div M"
  proof (cases "r \<le> M")
    case True
    then have "r - min r M + M - 1 = M - 1" by simp
    moreover have "(M - 1) div M = 0" using assms(2) by simp
    moreover have "(r - 1) div M = 0" using True assms by simp
    ultimately show ?thesis by simp
  next
    case False
    then have "r - min r M + M - 1 = r - 1" by simp
    then show ?thesis by simp
  qed
  then show ?thesis using l by simp
qed


lemma ft_unchanged:
  "ft\<lparr>slots_allocated := slots_allocated ft + of_nat 0,
      requested := requested ft + of_nat (min r (0 * M))\<rparr> = ft"
  by simp

lemma chunk_requests_Suc:
  assumes "ft1 = ft\<lparr>slots_allocated := sa, requested := requested ft + of_nat len\<rparr>"
    and "len = min (unat (size_ft ft - requested ft)) (MAX_FILE_DATA_SIZE env)"
    and "0 < unat (size_ft ft - requested ft)" and "0 < MAX_FILE_DATA_SIZE env"
    and "n1 \<le> (unat (size_ft ft1 - requested ft1) + MAX_FILE_DATA_SIZE env - 1)
                 div MAX_FILE_DATA_SIZE env"
  shows "chunk_requests env friendnumber i ft (Suc n1) =
           File_reqchunk friendnumber i (requested ft) len
             # chunk_requests env friendnumber i ft1 n1"
proof -
  let ?M = "MAX_FILE_DATA_SIZE env"
  let ?r = "unat (size_ft ft - requested ft)"
  have le: "len \<le> ?r" using assms(2) by simp
  have r1: "unat (size_ft ft1 - requested ft1) = ?r - len"
    using remaining_after_chunk [OF le] by (simp add: assms(1))
  have head: "min ?M (?r - 0 * ?M) = len" using assms(2) by (simp add: min.commute)
  have tail: "map (\<lambda>k. File_reqchunk friendnumber i (requested ft + of_nat (Suc k * ?M))
                          (min ?M (?r - Suc k * ?M))) [0..<n1]
            = chunk_requests env friendnumber i ft1 n1"
  proof (cases "n1 = 0")
    case True
    then show ?thesis by (simp add: chunk_requests_def)
  next
    case False
    have "0 < ?r - len"
    proof (rule ccontr)
      assume "\<not> 0 < ?r - len"
      then have "(unat (size_ft ft1 - requested ft1) + ?M - 1) div ?M = 0"
        using assms(4) by (simp add: r1)
      then show False using assms(5) False by simp
    qed
    then have lenM: "len = ?M" using assms(2) by (simp add: min_def split: if_splits)
    have "requested ft1 + of_nat (k * ?M) = requested ft + of_nat (Suc k * ?M)" for k
      by (simp add: assms(1) lenM)
    moreover have "unat (size_ft ft1 - requested ft1) - k * ?M = ?r - Suc k * ?M" for k
      by (simp add: r1 lenM)
    ultimately show ?thesis by (simp add: chunk_requests_def)
  qed
  have "chunk_requests env friendnumber i ft (Suc n1)
        = map (\<lambda>k. File_reqchunk friendnumber i (requested ft + of_nat (k * ?M))
                          (min ?M (?r - k * ?M))) (0 # map Suc [0..<n1])"
    unfolding chunk_requests_def by (simp only: upt_conv_Cons [of 0 "Suc n1"] map_Suc_upt)
  also have "\<dots> = File_reqchunk friendnumber i (requested ft + of_nat (0 * ?M))
                          (min ?M (?r - 0 * ?M))
             # map (\<lambda>k. File_reqchunk friendnumber i (requested ft + of_nat (Suc k * ?M))
                          (min ?M (?r - Suc k * ?M))) [0..<n1]"
    by (simp only: list.map map_map comp_def)
  also have "File_reqchunk friendnumber i (requested ft + of_nat (0 * ?M))
                          (min ?M (?r - 0 * ?M))
             = File_reqchunk friendnumber i (requested ft) len"
    unfolding head by simp
  finally show ?thesis by (simp only: tail)
qed

lemma chunk_length_eq:
  "MAX_FILE_DATA_SIZE env < 2 ^ 16 \<Longrightarrow> chunk_length env = MAX_FILE_DATA_SIZE env"
  by (simp add: chunk_length_def)

lemma call_reqchunk_quiet:
  "cb friendnumber i p l m = (m, []) \<Longrightarrow>
     call_reqchunk cb friendnumber i p l m
       = (m, if file_reqchunk m then [File_reqchunk friendnumber i p l] else [])"
  by (simp add: call_reqchunk_def)

lemma reqchunk_while_round:
  assumes "get_ft m friendnumber 0 i = ft"
    and "ft_status ft = FILESTATUS_TRANSFERRING" and "paused ft = FILE_PAUSE_NOT"
    and "\<not> max_speed_reached env (friend_conn m friendnumber)"
    and "size_ft ft \<noteq> 0" and "size_ft ft \<noteq> requested ft"
    and "chunk_length env = MAX_FILE_DATA_SIZE env"
    and "0 < free"
  shows "reqchunk_while env cb friendnumber i m free evs
       = (let len = min (unat (size_ft ft - requested ft)) (MAX_FILE_DATA_SIZE env);
              called = call_reqchunk cb friendnumber i (requested ft) len
                         (set_ft m friendnumber 0 i
                            (ft\<lparr>slots_allocated := slots_allocated ft + 1,
                                requested := requested ft + of_nat len\<rparr>))
          in reqchunk_while env cb friendnumber i (fst called) (free - 1) (evs @ snd called))"
proof -
  have len_if: "(if unat (size_ft ft - requested ft) < MAX_FILE_DATA_SIZE env
                 then unat (size_ft ft - requested ft) else MAX_FILE_DATA_SIZE env)
                = min (unat (size_ft ft - requested ft)) (MAX_FILE_DATA_SIZE env)"
    by (simp add: min_def)
  have pos: "(free = 0) = False" using assms(8) by simp
  show ?thesis
    apply (subst reqchunk_while.simps)
    apply (simp only: assms(1-7) pos Let_def len_if if_True if_False simp_thms)
    done
qed

lemma reqchunk_while_idle:
  assumes "get_ft m friendnumber 0 i = ft"
    and "\<not> (ft_status ft = FILESTATUS_TRANSFERRING \<and> paused ft = FILE_PAUSE_NOT)"
  shows "reqchunk_while env cb friendnumber i m free evs = (m, free, evs)"
  apply (subst reqchunk_while.simps)
  apply (simp only: assms Let_def if_False)
  done

lemma reqchunk_while_no_slot:
  assumes "get_ft m friendnumber 0 i = ft"
    and "ft_status ft = FILESTATUS_TRANSFERRING" and "paused ft = FILE_PAUSE_NOT"
    and "max_speed_reached env (friend_conn m friendnumber) \<or> free = 0"
  shows "reqchunk_while env cb friendnumber i m free evs = (m, 0, evs)"
proof (cases "max_speed_reached env (friend_conn m friendnumber)")
  case True
  show ?thesis
    apply (subst reqchunk_while.simps)
    apply (simp only: assms(1-3) True Let_def if_True simp_thms)
    done
next
  case False
  then have z: "free = 0" using assms(4) by simp
  show ?thesis
    apply (subst reqchunk_while.simps)
    apply (simp only: assms(1-3) False z Let_def if_True if_False simp_thms)
    done
qed

lemma reqchunk_while_empty:
  assumes "get_ft m friendnumber 0 i = ft"
    and "ft_status ft = FILESTATUS_TRANSFERRING" and "paused ft = FILE_PAUSE_NOT"
    and "\<not> max_speed_reached env (friend_conn m friendnumber)" and "0 < free"
    and "size_ft ft = 0"
  shows "reqchunk_while env cb friendnumber i m free evs
           = (fst (snd (file_data env m friendnumber i 0 0)), free,
              evs @ snd (snd (file_data env m friendnumber i 0 0)))"
proof -
  have pos: "(free = 0) = False" using assms(5) by simp
  show ?thesis
    apply (subst reqchunk_while.simps)
    apply (simp only: assms(1-4,6) pos Let_def if_True if_False simp_thms)
    apply (simp only: case_prod_beta)
    done
qed

lemma reqchunk_while_complete:
  assumes "get_ft m friendnumber 0 i = ft"
    and "ft_status ft = FILESTATUS_TRANSFERRING" and "paused ft = FILE_PAUSE_NOT"
    and "\<not> max_speed_reached env (friend_conn m friendnumber)" and "0 < free"
    and "size_ft ft \<noteq> 0" and "requested ft = size_ft ft"
  shows "reqchunk_while env cb friendnumber i m free evs = (m, free, evs)"
proof -
  have pos: "(free = 0) = False" using assms(5) by simp
  have ne: "(size_ft ft = 0) = False" using assms(6) by simp
  show ?thesis
    apply (subst reqchunk_while.simps)
    apply (simp only: assms(1-4) assms(7) pos ne Let_def if_True if_False simp_thms)
    done
qed

lemma reqchunk_while_chunks:
  assumes "friendnumber < length (friendlist m)"
    and "get_ft m friendnumber 0 i = ft"
    and "ft_status ft = FILESTATUS_TRANSFERRING" and "paused ft = FILE_PAUSE_NOT"
    and "\<not> max_speed_reached env (friend_conn m friendnumber)"
    and "size_ft ft \<noteq> 0" and "0 < MAX_FILE_DATA_SIZE env"
    and "MAX_FILE_DATA_SIZE env < 2 ^ 16"
    and quiet: "\<And>p l m'. cb friendnumber i p l m' = (m', [])"
  shows "reqchunk_while env cb friendnumber i m free evs =
     (set_ft m friendnumber 0 i
        (ft\<lparr>slots_allocated := slots_allocated ft + of_nat (chunk_count env ft free),
            requested := requested ft
              + of_nat (min (unat (size_ft ft - requested ft))
                            (chunk_count env ft free * MAX_FILE_DATA_SIZE env))\<rparr>),
      free - chunk_count env ft free,
      evs @ (if file_reqchunk m
             then chunk_requests env friendnumber i ft (chunk_count env ft free) else []))"
  using assms(1-8)
proof (induction free arbitrary: m ft evs)
  case 0
  have c: "chunk_count env ft 0 = 0" by (simp add: chunk_count_def)
  have "reqchunk_while env cb friendnumber i m 0 evs = (m, 0, evs)"
    using "0.prems" by (subst reqchunk_while.simps) (simp add: Let_def)
  then show ?case
    using "0.prems"(1,2) by (simp add: c set_get_ft chunk_requests_def)
next
  case (Suc f)
  let ?M = "MAX_FILE_DATA_SIZE env"
  let ?r = "unat (size_ft ft - requested ft)"
  have cl: "chunk_length env = ?M" by (rule chunk_length_eq [OF Suc.prems(8)])
  show ?case
  proof (cases "size_ft ft = requested ft")
    case True
    then have r0: "?r = 0" by simp
    have "(?r + ?M - 1) div ?M = 0" using Suc.prems(7) by (simp add: r0)
    then have c: "chunk_count env ft (Suc f) = 0" by (simp add: chunk_count_def)
    have "reqchunk_while env cb friendnumber i m (Suc f) evs = (m, Suc f, evs)"
      using Suc.prems True by (subst reqchunk_while.simps) (simp add: Let_def)
    then show ?thesis
      using Suc.prems(1,2) by (simp add: c set_get_ft chunk_requests_def)
  next
    case False
    then have rpos: "0 < ?r" by (simp add: unat_gt_0)
    define len where "len = min ?r ?M"
    define ft1 where "ft1 = ft\<lparr>slots_allocated := slots_allocated ft + 1,
                                requested := requested ft + of_nat len\<rparr>"
    define m1 where "m1 = set_ft m friendnumber 0 i ft1"
    define evs1 where "evs1 = evs @ (if file_reqchunk m
                     then [File_reqchunk friendnumber i (requested ft) len] else [])"
    have len_if: "(if ?r < ?M then ?r else ?M) = len" by (simp add: len_def min_def)
    have called: "call_reqchunk cb friendnumber i (requested ft) len m1
                    = (m1, if file_reqchunk m
                           then [File_reqchunk friendnumber i (requested ft) len] else [])"
      using call_reqchunk_quiet [of cb friendnumber i "requested ft" len m1, OF quiet]
      by (simp add: m1_def set_ft_other)
    have round: "reqchunk_while env cb friendnumber i m (Suc f) evs
       = (let len = min ?r ?M;
              called = call_reqchunk cb friendnumber i (requested ft) len
                         (set_ft m friendnumber 0 i
                            (ft\<lparr>slots_allocated := slots_allocated ft + 1,
                                requested := requested ft + of_nat len\<rparr>))
          in reqchunk_while env cb friendnumber i (fst called) (Suc f - 1) (evs @ snd called))"
      by (rule reqchunk_while_round [OF Suc.prems(2-6) False cl]) simp
    have step: "reqchunk_while env cb friendnumber i m (Suc f) evs
                  = reqchunk_while env cb friendnumber i m1 f evs1"
      unfolding round Let_def len_def [symmetric] ft1_def [symmetric] m1_def [symmetric] called
      by (simp add: evs1_def)
    have le: "len \<le> ?r" by (simp add: len_def)
    have r1: "unat (size_ft ft1 - requested ft1) = ?r - len"
      using remaining_after_chunk [OF le] by (simp add: ft1_def)
    have ih: "reqchunk_while env cb friendnumber i m1 f evs1 =
     (set_ft m1 friendnumber 0 i
        (ft1\<lparr>slots_allocated := slots_allocated ft1 + of_nat (chunk_count env ft1 f),
            requested := requested ft1
              + of_nat (min (unat (size_ft ft1 - requested ft1))
                            (chunk_count env ft1 f * ?M))\<rparr>),
      f - chunk_count env ft1 f,
      evs1 @ (if file_reqchunk m1
             then chunk_requests env friendnumber i ft1 (chunk_count env ft1 f) else []))"
    proof (rule Suc.IH)
      show "friendnumber < length (friendlist m1)"
        using Suc.prems(1) by (simp add: m1_def set_ft_other)
      show "get_ft m1 friendnumber 0 i = ft1"
        using Suc.prems(1) by (simp add: m1_def get_set_ft)
      show "ft_status ft1 = FILESTATUS_TRANSFERRING" using Suc.prems(3) by (simp add: ft1_def)
      show "paused ft1 = FILE_PAUSE_NOT" using Suc.prems(4) by (simp add: ft1_def)
      show "\<not> max_speed_reached env (friend_conn m1 friendnumber)"
        using Suc.prems(5) by (simp add: m1_def set_ft_other)
      show "size_ft ft1 \<noteq> 0" using Suc.prems(6) by (simp add: ft1_def)
      show "0 < ?M" by (rule Suc.prems(7))
      show "?M < 2 ^ 16" by (rule Suc.prems(8))
    qed
    define n1 where "n1 = chunk_count env ft1 f"
    have ceil: "(?r + ?M - 1) div ?M = Suc ((?r - len + ?M - 1) div ?M)"
      unfolding len_def by (rule ceil_div_step [OF rpos Suc.prems(7)])
    have n: "chunk_count env ft (Suc f) = Suc n1"
      using ceil by (simp add: chunk_count_def n1_def r1)
    have n1_le: "n1 \<le> (unat (size_ft ft1 - requested ft1) + ?M - 1) div ?M"
      by (simp add: n1_def chunk_count_def)
    have reqs: "chunk_requests env friendnumber i ft (Suc n1) =
           File_reqchunk friendnumber i (requested ft) len
             # chunk_requests env friendnumber i ft1 n1"
      by (rule chunk_requests_Suc [OF ft1_def len_def rpos Suc.prems(7) n1_le])
    have total: "len + min (?r - len) (n1 * ?M) = min ?r (Suc n1 * ?M)"
    proof (cases "?r \<le> ?M")
      case True
      then show ?thesis by (simp add: len_def)
    next
      case False
      then have "len = ?M" by (simp add: len_def)
      then show ?thesis using False by simp
    qed
    have req': "requested ft1 + of_nat (min (?r - len) (n1 * ?M))
                 = requested ft + of_nat (min ?r (Suc n1 * ?M))"
      unfolding total [symmetric] by (simp add: ft1_def)
    have sa': "slots_allocated ft1 + of_nat n1 = slots_allocated ft + of_nat (Suc n1)"
      by (simp add: ft1_def)
    have rec: "ft1\<lparr>slots_allocated := slots_allocated ft + of_nat (Suc n1),
                   requested := requested ft + of_nat (min ?r (Suc n1 * ?M))\<rparr>
             = ft\<lparr>slots_allocated := slots_allocated ft + of_nat (Suc n1),
                  requested := requested ft + of_nat (min ?r (Suc n1 * ?M))\<rparr>"
      by (simp add: ft1_def)
    have reg: "file_reqchunk m1 = file_reqchunk m" by (simp add: m1_def set_ft_other)
    have evs': "evs1 @ (if file_reqchunk m
             then chunk_requests env friendnumber i ft1 n1 else [])
           = evs @ (if file_reqchunk m
             then chunk_requests env friendnumber i ft (Suc n1) else [])"
      by (simp add: evs1_def reqs)
    show ?thesis
      unfolding step ih n1_def [symmetric] n r1 req' sa' reg evs' rec
      using Suc.prems(1) by (simp add: m1_def set_set_ft)
  qed
qed

lemma file_data_empty:
  assumes valid: "\<not> friend_not_valid m friendnumber"
    and online: "status (friendlist m ! friendnumber) = FRIEND_ONLINE"
    and slot: "i < MAX_CONCURRENT_FILE_PIPES"
    and ft: "get_ft m friendnumber 0 i = ft"
    and st: "ft_status ft = FILESTATUS_TRANSFERRING"
    and empty: "size_ft ft = 0" and start: "transferred ft = 0"
    and M: "0 < MAX_FILE_DATA_SIZE env"
    and room: "\<not> crypto_num_free_sendqueue_slots env (friend_conn m friendnumber) < MIN_SLOTS_FREE env"
    and sent: "write_cryptpacket env (friend_conn m friendnumber) \<noteq> - 1"
  shows "file_data env m friendnumber i 0 0 =
           (0,
            set_ft m friendnumber 0 i
              (ft\<lparr>slots_allocated := (if slots_allocated ft \<noteq> 0 then slots_allocated ft - 1
                                       else slots_allocated ft),
                  ft_status := FILESTATUS_FINISHED,
                  last_packet_number := word_of_int (write_cryptpacket env (friend_conn m friendnumber))\<rparr>),
            [File_data_packet friendnumber i 0])"
proof -
  have s: "send_file_data_packet env m friendnumber = write_cryptpacket env (friend_conn m friendnumber)"
    using valid by (simp add: send_file_data_packet_def friend_conn_def)
  have room': "\<not> crypto_num_free_sendqueue_slots env
                    (friendcon_id (dev_list (friendlist m ! friendnumber) ! 0)) < MIN_SLOTS_FREE env"
    using room by (simp add: friend_conn_def)
  have M': "0 \<noteq> MAX_FILE_DATA_SIZE env" "\<not> MAX_FILE_DATA_SIZE env < 0" using M by simp_all
  have t: "ft\<lparr>transferred := 0\<rparr> = ft" using start by simp
  have z: "slots_allocated ft = 0 \<Longrightarrow> ft\<lparr>slots_allocated := 0\<rparr> = ft" by simp
  have slot': "\<not> MAX_CONCURRENT_FILE_PIPES \<le> i" using slot by simp
  show ?thesis
    unfolding file_data_def Let_def ft s
    using valid online slot' st empty start M' room' sent
    by (cases "slots_allocated ft = 0") (simp_all add: t z)
qed

lemma reqchunk_account_free:
  assumes "get_ft m friendnumber 0 i = ft" and "ft_status ft = FILESTATUS_NONE"
  shows "reqchunk_account env cb friendnumber i m free num evs = (m, free, num, evs)"
  using assms by (simp add: reqchunk_account_def)

lemma reqchunk_account_active:
  assumes "get_ft m friendnumber 0 i = ft" and "ft_status ft \<noteq> FILESTATUS_NONE"
    and "\<not> (ft_status ft = FILESTATUS_FINISHED
            \<and> friend_received_packet env m friendnumber (last_packet_number ft) = 0)"
  shows "reqchunk_account env cb friendnumber i m free num evs
           = (m, nat (max 0 (int free - int (unat (slots_allocated ft)))), num - 1, evs)"
proof -
  have r: "(if ft_status ft = FILESTATUS_FINISHED
                \<and> friend_received_packet env m friendnumber (last_packet_number ft) = 0
            then x else y) = y" for x y :: "Messenger \<times> event list"
    by (simp only: assms(3) if_False)
  have g: "(if x > free then 0 else free - x) = nat (max 0 (int free - int x))" for x :: nat
    by (cases "x > free") (simp_all add: nat_minus_as_int max_def)
  have a: "(if unat (slots_allocated ft) > free then 0 else free - unat (slots_allocated ft))
            = nat (max 0 (int free - int (unat (slots_allocated ft))))"
    by (rule g)
  show ?thesis
    unfolding reqchunk_account_def Let_def assms(1) r
    using assms(2) by (simp only: fst_conv snd_conv assms(1) a if_True simp_thms append_Nil2)
qed

lemma start_budget:
  "do_reqchunk_filecb env cb m friendnumber =
     (if num_sending_files (friendlist m ! friendnumber) = 0 then (m, [])
      else reqchunk_for env cb friendnumber [0..<MAX_CONCURRENT_FILE_PIPES] m
             (nat (max 0 (int (crypto_num_free_sendqueue_slots env (friend_conn m friendnumber))
                          - int (CRYPTO_MIN_QUEUE_LENGTH env div 4))))
             (num_sending_files (friendlist m ! friendnumber)) [])"
proof -
  have a: "(if f < MIN_SLOTS_FREE env then 0 else f - MIN_SLOTS_FREE env)
            = nat (max 0 (int f - int (CRYPTO_MIN_QUEUE_LENGTH env div 4)))" for f
    by (simp add: MIN_SLOTS_FREE_def nat_minus_as_int)
  show ?thesis unfolding do_reqchunk_filecb_def Let_def a by (rule refl)
qed

lemma reqchunk_for_free:
  assumes "get_ft m friendnumber 0 i = ft" and "ft_status ft = FILESTATUS_NONE"
  shows "reqchunk_for env cb friendnumber (i # slots) m free num evs
           = (if num = 0 then (m, evs)
              else reqchunk_for env cb friendnumber slots m free num evs)"
proof -
  have idle: "reqchunk_while env cb friendnumber i m free evs = (m, free, evs)"
    by (rule reqchunk_while_idle [OF assms(1)]) (simp add: assms(2))
  show ?thesis
    by (simp only: reqchunk_for.simps reqchunk_account_free [OF assms] idle prod.case)
qed

lemma reqchunk_for_active:
  assumes "get_ft m friendnumber 0 i = ft" and "ft_status ft \<noteq> FILESTATUS_NONE"
    and "\<not> (ft_status ft = FILESTATUS_FINISHED
            \<and> friend_received_packet env m friendnumber (last_packet_number ft) = 0)"
  shows "reqchunk_for env cb friendnumber (i # slots) m free num evs
           = (case reqchunk_while env cb friendnumber i m
                     (nat (max 0 (int free - int (unat (slots_allocated ft))))) evs of
                (m2, free2, evs2) \<Rightarrow>
                  if num - 1 = 0 then (m2, evs2)
                  else reqchunk_for env cb friendnumber slots m2 free2 (num - 1) evs2)"
  by (simp only: reqchunk_for.simps reqchunk_account_active [OF assms] prod.case)

lemmas ex_file_defs = get_ft_def set_ft_def ex_two_files_def ex_file_messenger_def ex_messenger_def
  ex_online_friend_def zero_Friend_def ex_sending_file_def zero_File_Transfers_def
  FILE_PAUSE_NOT_def ex_env_def ex_device_def friend_conn_def MAX_FILE_DATA_SIZE_def
  MIN_SLOTS_FREE_def chunk_length_def call_reqchunk_def ex_note_def ex_feed_def
  MAX_CONCURRENT_FILE_PIPES_def Let_def ex_empty_file_def
  friend_received_packet_def friend_not_valid_def FRIEND_ONLINE_def file_data_def
  send_file_data_packet_def chunk_count_def chunk_requests_def

lemma slots_from_0: "[0..<32] = 0 # 1 # [2..<32]"
  by (simp add: upt_conv_Cons)

text \<open>Two runs of \<^verbatim>\<open>do_reqchunk_filecb\<close> and of the spec's reading of it. In the first,
  slot 0 holds a fresh transfer and slot 1 one with five chunks requested and not yet
  sent; the transport has 19 free slots, 16 of them kept back. In the second the
  application answers each request at once with \<^verbatim>\<open>file_data\<close>.\<close>

lemma ex_two_files_requests:
  "snd (do_reqchunk_filecb ex_env ex_note ex_two_files 0)
     = [File_reqchunk 0 0 0 1371, File_reqchunk 0 0 1371 1371, File_reqchunk 0 0 2742 1371]"
  by (simp add: ex_file_defs do_reqchunk_filecb_def reqchunk_account_def slots_from_0)

lemma ex_two_files_spec_free: "spec_free ex_env ex_two_files 0 = - 2"
  by code_simp

lemma ex_two_files_spec_requests:
  "snd (spec_do_reqchunk ex_env ex_note ex_two_files 0) = []"
  by code_simp

lemma ex_feed_requests:
  "snd (do_reqchunk_filecb ex_env ex_feed (ex_file_messenger (ex_sending_file 0 0)) 0)
     = [File_reqchunk 0 0 0 1371, File_data_packet 0 0 1371,
        File_reqchunk 0 0 1371 1371, File_data_packet 0 0 1371,
        File_reqchunk 0 0 2742 1371, File_data_packet 0 0 1371]"
  by (simp add: ex_file_defs do_reqchunk_filecb_def reqchunk_account_def slots_from_0)

lemma ex_feed_spec_requests:
  "snd (spec_do_reqchunk ex_env ex_feed (ex_file_messenger (ex_sending_file 0 0)) 0)
     = [File_reqchunk 0 0 0 1371, File_reqchunk 0 0 1371 1371, File_reqchunk 0 0 2742 1371]"
  by code_simp

text \<open>C1 (counterexample). With a budget of \<open>19 - 16 = 3\<close> and transfers in slots 0 and 1
  holding 0 and 5 allocated slots, \<^verbatim>\<open>do_reqchunk_filecb\<close> requests three chunks of slot 0:
  when it serves slot 0 it has taken only that slot's allocation from the budget, and the 5
  of slot 1 are taken when the loop reaches slot 1. Under the claim every active
  transfer's allocation is subtracted first, which leaves \<open>3 - 5 = -2\<close> and no request at
  all. The claim also has the callback invoked before \<^verbatim>\<open>requested\<close> and
  \<^verbatim>\<open>slots_allocated\<close> are advanced; the code advances them first, which is what lets the
  callback's \<^verbatim>\<open>file_data\<close> pass the test \<open>requested > position\<close>: with an application
  that answers each request at once, the code sends a data packet after every request,
  and in the claim's order no packet is sent.\<close>

theorem C1_chunk_request_loop_counterexample:
  "snd (do_reqchunk_filecb ex_env ex_note ex_two_files 0)
     = [File_reqchunk 0 0 0 1371, File_reqchunk 0 0 1371 1371, File_reqchunk 0 0 2742 1371]
   \<and> spec_free ex_env ex_two_files 0 = - 2
   \<and> snd (spec_do_reqchunk ex_env ex_note ex_two_files 0) = []
   \<and> snd (do_reqchunk_filecb ex_env ex_feed (ex_file_messenger (ex_sending_file 0 0)) 0)
     = [File_reqchunk 0 0 0 1371, File_data_packet 0 0 1371,
        File_reqchunk 0 0 1371 1371, File_data_packet 0 0 1371,
        File_reqchunk 0 0 2742 1371, File_data_packet 0 0 1371]
   \<and> snd (spec_do_reqchunk ex_env ex_feed (ex_file_messenger (ex_sending_file 0 0)) 0)
     = [File_reqchunk 0 0 0 1371, File_reqchunk 0 0 1371 1371, File_reqchunk 0 0 2742 1371]"
  by (intro conjI ex_two_files_requests ex_two_files_spec_free ex_two_files_spec_requests
        ex_feed_requests ex_feed_spec_requests)

text \<open>C1. \<^verbatim>\<open>do_reqchunk_filecb\<close> for a friend of the table, with
  \<open>2 < MAX_CRYPTO_DATA_SIZE < 2^16 + 2\<close> (so that \<^verbatim>\<open>MAX_FILE_DATA_SIZE\<close> is positive and
  fits the \<^verbatim>\<open>uint16_t length\<close>), and \<open>ft\<close> the transfer in sending slot \<open>i\<close>.
  \<^item> It does nothing when \<^verbatim>\<open>num_sending_files\<close> is 0; otherwise it runs the loop over the
    slots \<open>0, \<dots>, 31\<close> on the budget \<open>max(0, free slots - CRYPTO_MIN_QUEUE_LENGTH / 4)\<close>.
  \<^item> A slot with status None is passed over. At a slot in use (other than a Finished
    transfer whose last packet has arrived, which is reported and freed there) the loop
    counts \<^verbatim>\<open>num\<close> down, takes the slot's \<^verbatim>\<open>slots_allocated\<close> from the budget, stopping
    at 0, runs the \<^verbatim>\<open>while\<close> loop of the slot on what is left, and goes on to the next
    slot with what that loop leaves, unless \<^verbatim>\<open>num\<close> has reached 0.
  \<^item> The \<^verbatim>\<open>while\<close> loop does nothing unless the transfer is Transferring and unpaused.
    When it is: if the transport signals that the maximum speed is reached, or no slot is
    free, the loop ends with the budget at 0; else, if \<open>size = 0\<close>, it calls
    \<^verbatim>\<open>file_data\<close> once for 0 bytes and ends, which sends one data packet of length 0 and
    makes the transfer Finished when the friend is Online, nothing has been sent yet, the
    queue has room and the transport takes the packet; else, if \<open>requested = size\<close>, it
    ends; else it adds 1 to \<^verbatim>\<open>slots_allocated\<close>, advances \<^verbatim>\<open>requested\<close> by
    \<open>length = min(MAX_FILE_DATA_SIZE, size - requested)\<close>, then calls \<^verbatim>\<open>file_reqchunk\<close>
    (when one is registered) for \<open>length\<close> bytes at the old \<^verbatim>\<open>requested\<close>, and goes round
    again in the messenger the callback left, with one slot less.
  \<^item> With a callback that leaves the messenger alone, the loop of a transfer of nonzero
    size therefore makes \<open>n = min(free, \<lceil>(size - requested) / MAX_FILE_DATA_SIZE\<rceil>)\<close>
    requests, the \<open>k\<close>-th at \<open>requested + k * MAX_FILE_DATA_SIZE\<close> and for a full chunk
    or for what is left of the file, and ends with \<^verbatim>\<open>slots_allocated\<close> up by \<open>n\<close>,
    \<^verbatim>\<open>requested\<close> up by the bytes requested and the budget down by \<open>n\<close>.\<close>

theorem C1_chunk_request_loop:
  assumes "2 < MAX_CRYPTO_DATA_SIZE env" and "MAX_CRYPTO_DATA_SIZE env < 2 ^ 16 + 2"
    and "friendnumber < length (friendlist m)"
    and "get_ft m friendnumber 0 i = ft"
  shows
    "do_reqchunk_filecb env cb m friendnumber =
       (if num_sending_files (friendlist m ! friendnumber) = 0 then (m, [])
        else reqchunk_for env cb friendnumber [0..<MAX_CONCURRENT_FILE_PIPES] m
               (nat (max 0 (int (crypto_num_free_sendqueue_slots env (friend_conn m friendnumber))
                            - int (CRYPTO_MIN_QUEUE_LENGTH env div 4))))
               (num_sending_files (friendlist m ! friendnumber)) [])
     \<and> (ft_status ft = FILESTATUS_NONE \<longrightarrow>
          reqchunk_for env cb friendnumber (i # slots) m free num evs
            = (if num = 0 then (m, evs)
               else reqchunk_for env cb friendnumber slots m free num evs))
     \<and> (ft_status ft \<noteq> FILESTATUS_NONE
          \<and> \<not> (ft_status ft = FILESTATUS_FINISHED
                 \<and> friend_received_packet env m friendnumber (last_packet_number ft) = 0) \<longrightarrow>
          reqchunk_for env cb friendnumber (i # slots) m free num evs
            = (case reqchunk_while env cb friendnumber i m
                      (nat (max 0 (int free - int (unat (slots_allocated ft))))) evs of
                 (m2, free2, evs2) \<Rightarrow>
                   if num - 1 = 0 then (m2, evs2)
                   else reqchunk_for env cb friendnumber slots m2 free2 (num - 1) evs2))
     \<and> (\<not> (ft_status ft = FILESTATUS_TRANSFERRING \<and> paused ft = FILE_PAUSE_NOT) \<longrightarrow>
          reqchunk_while env cb friendnumber i m free evs = (m, free, evs))
     \<and> (ft_status ft = FILESTATUS_TRANSFERRING \<and> paused ft = FILE_PAUSE_NOT
          \<and> (max_speed_reached env (friend_conn m friendnumber) \<or> free = 0) \<longrightarrow>
          reqchunk_while env cb friendnumber i m free evs = (m, 0, evs))
     \<and> (ft_status ft = FILESTATUS_TRANSFERRING \<and> paused ft = FILE_PAUSE_NOT
          \<and> \<not> max_speed_reached env (friend_conn m friendnumber) \<and> 0 < free
          \<and> size_ft ft = 0 \<longrightarrow>
          reqchunk_while env cb friendnumber i m free evs
            = (fst (snd (file_data env m friendnumber i 0 0)), free,
               evs @ snd (snd (file_data env m friendnumber i 0 0))))
     \<and> (ft_status ft = FILESTATUS_TRANSFERRING \<and> size_ft ft = 0 \<and> transferred ft = 0
          \<and> status (friendlist m ! friendnumber) = FRIEND_ONLINE
          \<and> i < MAX_CONCURRENT_FILE_PIPES
          \<and> \<not> crypto_num_free_sendqueue_slots env (friend_conn m friendnumber) < MIN_SLOTS_FREE env
          \<and> write_cryptpacket env (friend_conn m friendnumber) \<noteq> - 1 \<longrightarrow>
          file_data env m friendnumber i 0 0
            = (0,
               set_ft m friendnumber 0 i
                 (ft\<lparr>slots_allocated := (if slots_allocated ft \<noteq> 0 then slots_allocated ft - 1
                                          else slots_allocated ft),
                     ft_status := FILESTATUS_FINISHED,
                     last_packet_number :=
                       word_of_int (write_cryptpacket env (friend_conn m friendnumber))\<rparr>),
               [File_data_packet friendnumber i 0]))
     \<and> (ft_status ft = FILESTATUS_TRANSFERRING \<and> paused ft = FILE_PAUSE_NOT
          \<and> \<not> max_speed_reached env (friend_conn m friendnumber) \<and> 0 < free
          \<and> size_ft ft \<noteq> 0 \<and> requested ft = size_ft ft \<longrightarrow>
          reqchunk_while env cb friendnumber i m free evs = (m, free, evs))
     \<and> (ft_status ft = FILESTATUS_TRANSFERRING \<and> paused ft = FILE_PAUSE_NOT
          \<and> \<not> max_speed_reached env (friend_conn m friendnumber) \<and> 0 < free
          \<and> size_ft ft \<noteq> 0 \<and> requested ft \<noteq> size_ft ft \<longrightarrow>
          reqchunk_while env cb friendnumber i m free evs
            = (let len = min (unat (size_ft ft - requested ft)) (MAX_FILE_DATA_SIZE env);
                   called = call_reqchunk cb friendnumber i (requested ft) len
                              (set_ft m friendnumber 0 i
                                 (ft\<lparr>slots_allocated := slots_allocated ft + 1,
                                     requested := requested ft + of_nat len\<rparr>))
               in reqchunk_while env cb friendnumber i (fst called) (free - 1)
                    (evs @ snd called)))
     \<and> (ft_status ft = FILESTATUS_TRANSFERRING \<and> paused ft = FILE_PAUSE_NOT
          \<and> \<not> max_speed_reached env (friend_conn m friendnumber)
          \<and> size_ft ft \<noteq> 0 \<and> (\<forall>p l m'. cb friendnumber i p l m' = (m', [])) \<longrightarrow>
          reqchunk_while env cb friendnumber i m free evs
            = (set_ft m friendnumber 0 i
                 (ft\<lparr>slots_allocated := slots_allocated ft + of_nat (chunk_count env ft free),
                     requested := requested ft
                       + of_nat (min (unat (size_ft ft - requested ft))
                                     (chunk_count env ft free * MAX_FILE_DATA_SIZE env))\<rparr>),
               free - chunk_count env ft free,
               evs @ (if file_reqchunk m
                      then chunk_requests env friendnumber i ft (chunk_count env ft free)
                      else [])))"
proof -
  note ft = assms(4)
  have M: "0 < MAX_FILE_DATA_SIZE env" and M16: "MAX_FILE_DATA_SIZE env < 2 ^ 16"
    using assms(1,2) by (simp_all add: MAX_FILE_DATA_SIZE_def)
  have cl: "chunk_length env = MAX_FILE_DATA_SIZE env" by (rule chunk_length_eq [OF M16])
  have c1: "do_reqchunk_filecb env cb m friendnumber =
       (if num_sending_files (friendlist m ! friendnumber) = 0 then (m, [])
        else reqchunk_for env cb friendnumber [0..<MAX_CONCURRENT_FILE_PIPES] m
               (nat (max 0 (int (crypto_num_free_sendqueue_slots env (friend_conn m friendnumber))
                            - int (CRYPTO_MIN_QUEUE_LENGTH env div 4))))
               (num_sending_files (friendlist m ! friendnumber)) [])"
    by (rule start_budget)
  have c2: "ft_status ft = FILESTATUS_NONE \<longrightarrow>
          reqchunk_for env cb friendnumber (i # slots) m free num evs
            = (if num = 0 then (m, evs)
               else reqchunk_for env cb friendnumber slots m free num evs)"
    using reqchunk_for_free [OF ft] by blast
  have c3: "ft_status ft \<noteq> FILESTATUS_NONE
          \<and> \<not> (ft_status ft = FILESTATUS_FINISHED
                 \<and> friend_received_packet env m friendnumber (last_packet_number ft) = 0) \<longrightarrow>
          reqchunk_for env cb friendnumber (i # slots) m free num evs
            = (case reqchunk_while env cb friendnumber i m
                      (nat (max 0 (int free - int (unat (slots_allocated ft))))) evs of
                 (m2, free2, evs2) \<Rightarrow>
                   if num - 1 = 0 then (m2, evs2)
                   else reqchunk_for env cb friendnumber slots m2 free2 (num - 1) evs2)"
    using reqchunk_for_active [OF ft] by blast
  have c4: "\<not> (ft_status ft = FILESTATUS_TRANSFERRING \<and> paused ft = FILE_PAUSE_NOT) \<longrightarrow>
          reqchunk_while env cb friendnumber i m free evs = (m, free, evs)"
    using reqchunk_while_idle [OF ft] by blast
  have c5: "ft_status ft = FILESTATUS_TRANSFERRING \<and> paused ft = FILE_PAUSE_NOT
          \<and> (max_speed_reached env (friend_conn m friendnumber) \<or> free = 0) \<longrightarrow>
          reqchunk_while env cb friendnumber i m free evs = (m, 0, evs)"
    using reqchunk_while_no_slot [OF ft] by blast
  have c6: "ft_status ft = FILESTATUS_TRANSFERRING \<and> paused ft = FILE_PAUSE_NOT
          \<and> \<not> max_speed_reached env (friend_conn m friendnumber) \<and> 0 < free
          \<and> size_ft ft = 0 \<longrightarrow>
          reqchunk_while env cb friendnumber i m free evs
            = (fst (snd (file_data env m friendnumber i 0 0)), free,
               evs @ snd (snd (file_data env m friendnumber i 0 0)))"
    using reqchunk_while_empty [OF ft] by blast
  have c7: "ft_status ft = FILESTATUS_TRANSFERRING \<and> size_ft ft = 0 \<and> transferred ft = 0
          \<and> status (friendlist m ! friendnumber) = FRIEND_ONLINE
          \<and> i < MAX_CONCURRENT_FILE_PIPES
          \<and> \<not> crypto_num_free_sendqueue_slots env (friend_conn m friendnumber) < MIN_SLOTS_FREE env
          \<and> write_cryptpacket env (friend_conn m friendnumber) \<noteq> - 1 \<longrightarrow>
          file_data env m friendnumber i 0 0
            = (0,
               set_ft m friendnumber 0 i
                 (ft\<lparr>slots_allocated := (if slots_allocated ft \<noteq> 0 then slots_allocated ft - 1
                                          else slots_allocated ft),
                     ft_status := FILESTATUS_FINISHED,
                     last_packet_number :=
                       word_of_int (write_cryptpacket env (friend_conn m friendnumber))\<rparr>),
               [File_data_packet friendnumber i 0])"
  proof
    assume h: "ft_status ft = FILESTATUS_TRANSFERRING \<and> size_ft ft = 0 \<and> transferred ft = 0
          \<and> status (friendlist m ! friendnumber) = FRIEND_ONLINE
          \<and> i < MAX_CONCURRENT_FILE_PIPES
          \<and> \<not> crypto_num_free_sendqueue_slots env (friend_conn m friendnumber) < MIN_SLOTS_FREE env
          \<and> write_cryptpacket env (friend_conn m friendnumber) \<noteq> - 1"
    have valid: "\<not> friend_not_valid m friendnumber"
      using h assms(3) by (simp add: friend_not_valid_def FRIEND_ONLINE_def)
    from h show "file_data env m friendnumber i 0 0
            = (0,
               set_ft m friendnumber 0 i
                 (ft\<lparr>slots_allocated := (if slots_allocated ft \<noteq> 0 then slots_allocated ft - 1
                                          else slots_allocated ft),
                     ft_status := FILESTATUS_FINISHED,
                     last_packet_number :=
                       word_of_int (write_cryptpacket env (friend_conn m friendnumber))\<rparr>),
               [File_data_packet friendnumber i 0])"
      using file_data_empty [OF valid _ _ ft _ _ _ M] by blast
  qed
  have c8: "ft_status ft = FILESTATUS_TRANSFERRING \<and> paused ft = FILE_PAUSE_NOT
          \<and> \<not> max_speed_reached env (friend_conn m friendnumber) \<and> 0 < free
          \<and> size_ft ft \<noteq> 0 \<and> requested ft = size_ft ft \<longrightarrow>
          reqchunk_while env cb friendnumber i m free evs = (m, free, evs)"
    using reqchunk_while_complete [OF ft] by blast
  have c9: "ft_status ft = FILESTATUS_TRANSFERRING \<and> paused ft = FILE_PAUSE_NOT
          \<and> \<not> max_speed_reached env (friend_conn m friendnumber) \<and> 0 < free
          \<and> size_ft ft \<noteq> 0 \<and> requested ft \<noteq> size_ft ft \<longrightarrow>
          reqchunk_while env cb friendnumber i m free evs
            = (let len = min (unat (size_ft ft - requested ft)) (MAX_FILE_DATA_SIZE env);
                   called = call_reqchunk cb friendnumber i (requested ft) len
                              (set_ft m friendnumber 0 i
                                 (ft\<lparr>slots_allocated := slots_allocated ft + 1,
                                     requested := requested ft + of_nat len\<rparr>))
               in reqchunk_while env cb friendnumber i (fst called) (free - 1)
                    (evs @ snd called))"
  proof
    assume h: "ft_status ft = FILESTATUS_TRANSFERRING \<and> paused ft = FILE_PAUSE_NOT
          \<and> \<not> max_speed_reached env (friend_conn m friendnumber) \<and> 0 < free
          \<and> size_ft ft \<noteq> 0 \<and> requested ft \<noteq> size_ft ft"
    then have ne: "size_ft ft \<noteq> requested ft" by auto
    from h show "reqchunk_while env cb friendnumber i m free evs
            = (let len = min (unat (size_ft ft - requested ft)) (MAX_FILE_DATA_SIZE env);
                   called = call_reqchunk cb friendnumber i (requested ft) len
                              (set_ft m friendnumber 0 i
                                 (ft\<lparr>slots_allocated := slots_allocated ft + 1,
                                     requested := requested ft + of_nat len\<rparr>))
               in reqchunk_while env cb friendnumber i (fst called) (free - 1)
                    (evs @ snd called))"
      using reqchunk_while_round [OF ft _ _ _ _ ne cl] by blast
  qed
  have c10: "ft_status ft = FILESTATUS_TRANSFERRING \<and> paused ft = FILE_PAUSE_NOT
          \<and> \<not> max_speed_reached env (friend_conn m friendnumber)
          \<and> size_ft ft \<noteq> 0 \<and> (\<forall>p l m'. cb friendnumber i p l m' = (m', [])) \<longrightarrow>
          reqchunk_while env cb friendnumber i m free evs
            = (set_ft m friendnumber 0 i
                 (ft\<lparr>slots_allocated := slots_allocated ft + of_nat (chunk_count env ft free),
                     requested := requested ft
                       + of_nat (min (unat (size_ft ft - requested ft))
                                     (chunk_count env ft free * MAX_FILE_DATA_SIZE env))\<rparr>),
               free - chunk_count env ft free,
               evs @ (if file_reqchunk m
                      then chunk_requests env friendnumber i ft (chunk_count env ft free)
                      else []))"
  proof
    assume h: "ft_status ft = FILESTATUS_TRANSFERRING \<and> paused ft = FILE_PAUSE_NOT
          \<and> \<not> max_speed_reached env (friend_conn m friendnumber)
          \<and> size_ft ft \<noteq> 0 \<and> (\<forall>p l m'. cb friendnumber i p l m' = (m', []))"
    then have quiet: "\<And>p l m'. cb friendnumber i p l m' = (m', [])" by blast
    from h have a: "ft_status ft = FILESTATUS_TRANSFERRING" and b: "paused ft = FILE_PAUSE_NOT"
      and c: "\<not> max_speed_reached env (friend_conn m friendnumber)" and d: "size_ft ft \<noteq> 0"
      by blast+
    show "reqchunk_while env cb friendnumber i m free evs
            = (set_ft m friendnumber 0 i
                 (ft\<lparr>slots_allocated := slots_allocated ft + of_nat (chunk_count env ft free),
                     requested := requested ft
                       + of_nat (min (unat (size_ft ft - requested ft))
                                     (chunk_count env ft free * MAX_FILE_DATA_SIZE env))\<rparr>),
               free - chunk_count env ft free,
               evs @ (if file_reqchunk m
                      then chunk_requests env friendnumber i ft (chunk_count env ft free)
                      else []))"
      by (rule reqchunk_while_chunks [where cb = cb, OF assms(3) ft a b c d M M16 quiet])
  qed
  show ?thesis
    apply (intro conjI)
    apply (rule c1)
    apply (rule c2)
    apply (rule c3)
    apply (rule c4)
    apply (rule c5)
    apply (rule c6)
    apply (rule c7)
    apply (rule c8)
    apply (rule c9)
    apply (rule c10)
    done
qed

text \<open>The theorem on the example transfers: the budget of 3; the step of the loop over the
  slots at slot 0 (in use) and at slot 2 (free); a slot that is not Transferring; the
  transport at its maximum speed; an empty file; a file requested to its end; one round
  with an application that sends the data from inside the callback; and the three requests
  made to an application that only takes note of them.\<close>

theorem C1_chunk_request_loop_witness:
  "2 < MAX_CRYPTO_DATA_SIZE ex_env \<and> MAX_CRYPTO_DATA_SIZE ex_env < 2 ^ 16 + 2
   \<and> do_reqchunk_filecb ex_env ex_note ex_two_files 0
       = reqchunk_for ex_env ex_note 0 [0..<32] ex_two_files 3 2 []
   \<and> reqchunk_for ex_env ex_note 0 [0, 1] ex_two_files 3 2 []
       = (case reqchunk_while ex_env ex_note 0 0 ex_two_files 3 [] of
            (m2, free2, evs2) \<Rightarrow> reqchunk_for ex_env ex_note 0 [1] m2 free2 1 evs2)
   \<and> reqchunk_for ex_env ex_note 0 [2, 3] ex_two_files 3 2 []
       = reqchunk_for ex_env ex_note 0 [3] ex_two_files 3 2 []
   \<and> reqchunk_while ex_env ex_note 0 2 ex_two_files 3 [] = (ex_two_files, 3, [])
   \<and> reqchunk_while (ex_env\<lparr>max_speed_reached := (\<lambda>c. True)\<rparr>) ex_note 0 0 ex_two_files 3 []
       = (ex_two_files, 0, [])
   \<and> reqchunk_while ex_env ex_note 0 0 (ex_file_messenger ex_empty_file) 3 []
       = (ex_file_messenger
            (ex_empty_file\<lparr>ft_status := FILESTATUS_FINISHED, last_packet_number := 100\<rparr>),
          3, [File_data_packet 0 0 0])
   \<and> reqchunk_while ex_env ex_note 0 0 (ex_file_messenger (ex_sending_file 10000 0)) 3 []
       = (ex_file_messenger (ex_sending_file 10000 0), 3, [])
   \<and> reqchunk_while ex_env ex_feed 0 0 (ex_file_messenger (ex_sending_file 0 0)) 3 []
       = reqchunk_while ex_env ex_feed 0 0
           (ex_file_messenger ((ex_sending_file 1371 0)\<lparr>transferred := 1371\<rparr>)) 2
           [File_reqchunk 0 0 0 1371, File_data_packet 0 0 1371]
   \<and> reqchunk_while ex_env ex_note 0 0 (ex_file_messenger (ex_sending_file 0 0)) 3 []
       = (ex_file_messenger (ex_sending_file 4113 3), 0,
          [File_reqchunk 0 0 0 1371, File_reqchunk 0 0 1371 1371, File_reqchunk 0 0 2742 1371])"
proof -
  have a1: "2 < MAX_CRYPTO_DATA_SIZE ex_env" and a2: "MAX_CRYPTO_DATA_SIZE ex_env < 2 ^ 16 + 2"
    by (simp_all add: ex_env_def)
  have a1': "2 < MAX_CRYPTO_DATA_SIZE (ex_env\<lparr>max_speed_reached := (\<lambda>c. True)\<rparr>)"
    and a2': "MAX_CRYPTO_DATA_SIZE (ex_env\<lparr>max_speed_reached := (\<lambda>c. True)\<rparr>) < 2 ^ 16 + 2"
    by (simp_all add: ex_env_def)
  have l2: "0 < length (friendlist ex_two_files)" by (simp add: ex_two_files_def ex_messenger_def)
  have l1: "0 < length (friendlist (ex_file_messenger ft))" for ft
    by (simp add: ex_file_messenger_def ex_messenger_def)
  note two0 = C1_chunk_request_loop
     [where env = ex_env and cb = ex_note and m = ex_two_files and friendnumber = 0 and i = 0
        and free = 3 and num = 2 and evs = "[]" and slots = "[1]", OF a1 a2 l2 refl]
  note two2 = C1_chunk_request_loop
     [where env = ex_env and cb = ex_note and m = ex_two_files and friendnumber = 0 and i = 2
        and free = 3 and num = 2 and evs = "[]" and slots = "[3]", OF a1 a2 l2 refl]
  note fast = C1_chunk_request_loop
     [where env = "ex_env\<lparr>max_speed_reached := (\<lambda>c. True)\<rparr>" and cb = ex_note
        and m = ex_two_files and friendnumber = 0 and i = 0
        and free = 3 and evs = "[]", OF a1' a2' l2 refl]
  note empty = C1_chunk_request_loop
     [where env = ex_env and cb = ex_note and m = "ex_file_messenger ex_empty_file"
        and friendnumber = 0 and i = 0 and free = 3 and evs = "[]", OF a1 a2 l1 refl]
  note complete = C1_chunk_request_loop
     [where env = ex_env and cb = ex_note and m = "ex_file_messenger (ex_sending_file 10000 0)"
        and friendnumber = 0 and i = 0 and free = 3 and evs = "[]", OF a1 a2 l1 refl]
  note feed = C1_chunk_request_loop
     [where env = ex_env and cb = ex_feed and m = "ex_file_messenger (ex_sending_file 0 0)"
        and friendnumber = 0 and i = 0 and free = 3 and evs = "[]", OF a1 a2 l1 refl]
  note quiet = C1_chunk_request_loop
     [where env = ex_env and cb = ex_note and m = "ex_file_messenger (ex_sending_file 0 0)"
        and friendnumber = 0 and i = 0 and free = 3 and evs = "[]", OF a1 a2 l1 refl]
  have w1: "do_reqchunk_filecb ex_env ex_note ex_two_files 0
       = reqchunk_for ex_env ex_note 0 [0..<32] ex_two_files 3 2 []"
    using two0 [THEN conjunct1]
    by (simp add: ex_file_defs del: reqchunk_while.simps reqchunk_for.simps upt_rec_numeral)
  have w3: "reqchunk_for ex_env ex_note 0 [0, 1] ex_two_files 3 2 []
       = (case reqchunk_while ex_env ex_note 0 0 ex_two_files 3 [] of
            (m2, free2, evs2) \<Rightarrow> reqchunk_for ex_env ex_note 0 [1] m2 free2 1 evs2)"
    using two0 [THEN conjunct2, THEN conjunct2, THEN conjunct1]
    by (simp add: ex_file_defs del: reqchunk_while.simps reqchunk_for.simps)
  have w2: "reqchunk_for ex_env ex_note 0 [2, 3] ex_two_files 3 2 []
       = reqchunk_for ex_env ex_note 0 [3] ex_two_files 3 2 []"
    using two2 [THEN conjunct2, THEN conjunct1]
    by (simp add: ex_file_defs del: reqchunk_while.simps reqchunk_for.simps)
  have w4: "reqchunk_while ex_env ex_note 0 2 ex_two_files 3 [] = (ex_two_files, 3, [])"
    using two2 [THEN conjunct2, THEN conjunct2, THEN conjunct2, THEN conjunct1]
    by (simp add: ex_file_defs del: reqchunk_while.simps)
  have w5: "reqchunk_while (ex_env\<lparr>max_speed_reached := (\<lambda>c. True)\<rparr>) ex_note 0 0 ex_two_files 3 []
       = (ex_two_files, 0, [])"
    using fast [THEN conjunct2, THEN conjunct2, THEN conjunct2, THEN conjunct2, THEN conjunct1]
    by (simp add: ex_file_defs del: reqchunk_while.simps)
  have w6: "reqchunk_while ex_env ex_note 0 0 (ex_file_messenger ex_empty_file) 3 []
       = (ex_file_messenger
            (ex_empty_file\<lparr>ft_status := FILESTATUS_FINISHED, last_packet_number := 100\<rparr>),
          3, [File_data_packet 0 0 0])"
    using empty [THEN conjunct2, THEN conjunct2, THEN conjunct2, THEN conjunct2, THEN conjunct2,
                 THEN conjunct1]
          empty [THEN conjunct2, THEN conjunct2, THEN conjunct2, THEN conjunct2, THEN conjunct2,
                 THEN conjunct2, THEN conjunct1]
    by (simp add: get_ft_def set_ft_def ex_file_messenger_def ex_messenger_def
        ex_online_friend_def zero_Friend_def zero_File_Transfers_def
        FILE_PAUSE_NOT_def ex_env_def ex_device_def friend_conn_def
        MIN_SLOTS_FREE_def MAX_CONCURRENT_FILE_PIPES_def ex_empty_file_def FRIEND_ONLINE_def
        del: reqchunk_while.simps)
  have w8: "reqchunk_while ex_env ex_note 0 0 (ex_file_messenger (ex_sending_file 10000 0)) 3 []
       = (ex_file_messenger (ex_sending_file 10000 0), 3, [])"
    using complete [THEN conjunct2, THEN conjunct2, THEN conjunct2, THEN conjunct2, THEN conjunct2,
                    THEN conjunct2, THEN conjunct2, THEN conjunct1]
    by (simp add: ex_file_defs del: reqchunk_while.simps)
  have w9: "reqchunk_while ex_env ex_feed 0 0 (ex_file_messenger (ex_sending_file 0 0)) 3 []
       = reqchunk_while ex_env ex_feed 0 0
           (ex_file_messenger ((ex_sending_file 1371 0)\<lparr>transferred := 1371\<rparr>)) 2
           [File_reqchunk 0 0 0 1371, File_data_packet 0 0 1371]"
    using feed [THEN conjunct2, THEN conjunct2, THEN conjunct2, THEN conjunct2, THEN conjunct2,
                THEN conjunct2, THEN conjunct2, THEN conjunct2, THEN conjunct1]
    by (simp add: ex_file_defs del: reqchunk_while.simps)
  have w10: "reqchunk_while ex_env ex_note 0 0 (ex_file_messenger (ex_sending_file 0 0)) 3 []
       = (ex_file_messenger (ex_sending_file 4113 3), 0,
          [File_reqchunk 0 0 0 1371, File_reqchunk 0 0 1371 1371, File_reqchunk 0 0 2742 1371])"
    using quiet [THEN conjunct2, THEN conjunct2, THEN conjunct2, THEN conjunct2, THEN conjunct2,
                 THEN conjunct2, THEN conjunct2, THEN conjunct2, THEN conjunct2]
    by (simp add: ex_file_defs upt_conv_Cons del: reqchunk_while.simps)
  show ?thesis
    apply (intro conjI)
    apply (rule a1)
    apply (rule a2)
    apply (rule w1)
    apply (rule w3)
    apply (rule w2)
    apply (rule w4)
    apply (rule w5)
    apply (rule w6)
    apply (rule w8)
    apply (rule w9)
    apply (rule w10)
    done
qed

end
